(* ===== verification/Prelude.thy ===== *)
theory Prelude
  imports Main "HOL-Library.Word"
begin

text \<open>
  Shared vocabulary of the development: the machine types of the C++ code, the result type that
  carries every way an operation can go wrong, \<open>size_t\<close> arithmetic with its wrap-around, the
  memory a \<open>new char[n]\<close> returns, and the byte layout of integers. Every component theory
  imports this one.
\<close>

unbundle bit_operations_syntax

section \<open>Machine types\<close>

type_synonym byte = "8 word"
type_synonym u16 = "16 word"
type_synonym u32 = "32 word"
type_synonym u64 = "64 word"

named_theorems sz_simps \<open>size_t arithmetic without overflow\<close>
named_theorems res_simps \<open>evaluation of the result type\<close>

section \<open>Results\<close>

text \<open>
  \<open>Inl f\<close> is an execution that does not continue: a failed \<open>assert\<close>, undefined behaviour
  the language leaves without meaning, or an exception that leaves the function.
\<close>

datatype fault =
    AssertFailed
  | OutOfBounds
  | Indeterminate
  | NullDeref
  | MissingReturn
  | DoubleFree
  | BadAlloc
  | Diverges
  | Overflow
  | Thrown string

type_synonym 'a res = "fault + 'a"

definition bind_r :: "'a res \<Rightarrow> ('a \<Rightarrow> 'b res) \<Rightarrow> 'b res" where
  "bind_r x f = (case x of Inl e \<Rightarrow> Inl e | Inr v \<Rightarrow> f v)"

definition require :: "fault \<Rightarrow> bool \<Rightarrow> unit res" where
  "require e c = (if c then Inr () else Inl e)"

abbreviation assert_r :: "bool \<Rightarrow> unit res" where
  "assert_r c \<equiv> require AssertFailed c"

definition ok :: "'a res \<Rightarrow> bool" where
  "ok x = (case x of Inl _ \<Rightarrow> False | Inr _ \<Rightarrow> True)"

lemma bind_r_Inl [simp, res_simps]: "bind_r (Inl e) f = Inl e"
  by (simp add: bind_r_def)

lemma bind_r_Inr [simp, res_simps]: "bind_r (Inr v) f = f v"
  by (simp add: bind_r_def)

text \<open>The bytes of a string literal.\<close>

definition ascii :: "string \<Rightarrow> byte list" where
  "ascii s = map (of_nat \<circ> of_char) s"

text \<open>A run of one operation over a list of arguments.\<close>

fun seq_r :: "('a \<Rightarrow> 's \<Rightarrow> 's res) \<Rightarrow> 'a list \<Rightarrow> 's \<Rightarrow> 's res" where
  "seq_r f [] s = Inr s"
| "seq_r f (x # xs) s = bind_r (f x s) (seq_r f xs)"

lemma bind_r_assoc: "bind_r (bind_r x f) g = bind_r x (\<lambda>v. bind_r (f v) g)"
  by (simp add: bind_r_def split: sum.splits)

lemma require_True [simp, res_simps]: "require e True = Inr ()"
  by (simp add: require_def)

lemma require_False [simp, res_simps]: "require e False = Inl e"
  by (simp add: require_def)

lemma bind_r_require [res_simps]: "bind_r (require e c) f = (if c then f () else Inl e)"
  by (simp add: require_def)

lemma bind_r_eq_Inr: "bind_r x f = Inr y \<longleftrightarrow> (\<exists>v. x = Inr v \<and> f v = Inr y)"
  by (cases x) auto

lemma require_eq_Inr [simp]: "require e c = Inr u \<longleftrightarrow> c"
  by (simp add: require_def)

lemma ok_simps [simp]: "ok (Inl e) = False" "ok (Inr v) = True"
  by (simp_all add: ok_def)

lemma bind_r_cong [fundef_cong]:
  "x = y \<Longrightarrow> (\<And>v. y = Inr v \<Longrightarrow> f v = g v) \<Longrightarrow> bind_r x f = bind_r y g"
  by (cases y) auto

section \<open>size_t\<close>

text \<open>
  Sizes and indices are \<open>nat\<close>s below \<open>2 ^ 64\<close>; the operations that can leave that range
  write the reduction out.
\<close>

definition add_sz :: "nat \<Rightarrow> nat \<Rightarrow> nat" where
  "add_sz a b = (a + b) mod 2 ^ 64"

definition sub_sz :: "nat \<Rightarrow> nat \<Rightarrow> nat" where
  "sub_sz a b = (a + (2 ^ 64 - b mod 2 ^ 64)) mod 2 ^ 64"

definition shl_sz :: "nat \<Rightarrow> nat \<Rightarrow> nat" where
  "shl_sz a k = (a * 2 ^ k) mod 2 ^ 64"

text \<open>The largest object: an array whose size passes it is refused by \<open>new\<close>.\<close>

definition ptrdiff_max :: nat where
  "ptrdiff_max = 2 ^ 63 - 1"

lemma add_sz_small [sz_simps]: "a + b < 2 ^ 64 \<Longrightarrow> add_sz a b = a + b"
  by (simp add: add_sz_def)

lemma sub_sz_le [sz_simps]: "b \<le> a \<Longrightarrow> a < 2 ^ 64 \<Longrightarrow> sub_sz a b = a - b"
proof -
  assume le: "b \<le> a" and lt: "a < 2 ^ 64"
  then have "b mod 2 ^ 64 = b" by (simp del: power_Suc)
  then have "sub_sz a b = ((a - b) + 2 ^ 64) mod 2 ^ 64"
    using le lt by (simp add: sub_sz_def)
  then show ?thesis using lt by simp
qed

lemma sub_sz_gt: "a < b \<Longrightarrow> b < 2 ^ 64 \<Longrightarrow> sub_sz a b = 2 ^ 64 - (b - a)"
proof -
  assume lt: "a < b" and b: "b < 2 ^ 64"
  then have "b mod 2 ^ 64 = b" by simp
  then show ?thesis using lt b by (simp add: sub_sz_def)
qed

lemma shl_sz_small [sz_simps]: "a * 2 ^ k < 2 ^ 64 \<Longrightarrow> shl_sz a k = a * 2 ^ k"
  by (simp add: shl_sz_def)

lemma add_sz_bound: "add_sz a b < 2 ^ 64"
  by (simp add: add_sz_def)

lemma sub_sz_bound: "sub_sz a b < 2 ^ 64"
  by (simp add: sub_sz_def)

section \<open>Memory\<close>

text \<open>
  A block of memory is a list of cells; \<open>None\<close> is a byte nobody wrote yet. Reads and writes
  outside the block, and reading an unwritten byte as a value, are faults; moving bytes with
  \<open>memcpy\<close> copies unwritten bytes as they are.
\<close>

type_synonym memory = "byte option list"

definition new_chars :: "nat \<Rightarrow> memory res" where
  "new_chars n = (if n \<le> ptrdiff_max then Inr (replicate n None) else Inl BadAlloc)"

definition mem_get :: "memory \<Rightarrow> nat \<Rightarrow> nat \<Rightarrow> memory res" where
  "mem_get m off n =
     (if off + n \<le> length m then Inr (take n (drop off m)) else Inl OutOfBounds)"

definition mem_put :: "memory \<Rightarrow> nat \<Rightarrow> memory \<Rightarrow> memory res" where
  "mem_put m off xs =
     (if off + length xs \<le> length m
      then Inr (take off m @ xs @ drop (off + length xs) m) else Inl OutOfBounds)"

definition mem_values :: "memory \<Rightarrow> byte list res" where
  "mem_values xs = (if None \<in> set xs then Inl Indeterminate else Inr (map the xs))"

definition mem_read :: "memory \<Rightarrow> nat \<Rightarrow> nat \<Rightarrow> byte list res" where
  "mem_read m off n = bind_r (mem_get m off n) mem_values"

lemma mem_values_map_Some [simp]: "mem_values (map Some bs) = Inr bs"
  by (auto simp: mem_values_def comp_def)

lemma mem_get_ok [simp]: "off + n \<le> length m \<Longrightarrow> mem_get m off n = Inr (take n (drop off m))"
  by (simp add: mem_get_def)

lemma mem_put_ok [simp]:
  "off + length xs \<le> length m \<Longrightarrow>
   mem_put m off xs = Inr (take off m @ xs @ drop (off + length xs) m)"
  by (simp add: mem_put_def)

lemma mem_put_length: "mem_put m off xs = Inr m' \<Longrightarrow> length m' = length m"
  by (auto simp: mem_put_def split: if_splits)

lemma take_drop_put:
  assumes "off + length xs \<le> length m"
  shows "take (length xs) (drop off (take off m @ xs @ drop (off + length xs) m)) = xs"
  using assms by simp

lemma put_split:
  assumes "r \<le> w" "w + length xs \<le> length m"
  shows "take (w - r + length xs) (drop r (take w m @ xs @ drop (w + length xs) m))
         = take (w - r) (drop r m) @ xs"
proof -
  have len: "length (take w m) = w" and len2: "length (take (w - r) (drop r m)) = w - r"
    using assms by simp_all
  have "drop r (take w m @ xs @ drop (w + length xs) m)
        = take (w - r) (drop r m) @ xs @ drop (w + length xs) m"
    using assms(1) len by (simp add: drop_take)
  then show ?thesis using len2 by simp
qed

section \<open>Integers in memory\<close>

text \<open>
  The hosts the code is built for are little-endian: the memory of an integer lists its bytes
  from the lowest. \<open>htonl\<close>, \<open>ntohl\<close>, \<open>htons\<close> and \<open>ntohs\<close> are byte swaps there.
\<close>

definition le_bytes :: "'a::len word \<Rightarrow> byte list" where
  "le_bytes w = map (\<lambda>i. ucast (drop_bit (8 * i) w)) [0..<LENGTH('a) div 8]"

fun le_word :: "byte list \<Rightarrow> 'a::len word" where
  "le_word [] = 0"
| "le_word (b # bs) = ucast b OR push_bit 8 (le_word bs)"

definition be_bytes :: "'a::len word \<Rightarrow> byte list" where
  "be_bytes w = rev (le_bytes w)"

definition be_word :: "byte list \<Rightarrow> 'a::len word" where
  "be_word bs = le_word (rev bs)"

definition bswap :: "'a::len word \<Rightarrow> 'a word" where
  "bswap w = le_word (rev (le_bytes w))"

definition htonl :: "u32 \<Rightarrow> u32" where "htonl x = bswap x"
definition ntohl :: "u32 \<Rightarrow> u32" where "ntohl x = bswap x"
definition htons :: "u16 \<Rightarrow> u16" where "htons x = bswap x"
definition ntohs :: "u16 \<Rightarrow> u16" where "ntohs x = bswap x"

lemma length_le_bytes [simp]: "length (le_bytes (w :: 'a::len word)) = LENGTH('a) div 8"
  by (simp add: le_bytes_def)

lemma le_bytes_byte [simp]: "le_bytes (w :: byte) = [w]"
  by (simp add: le_bytes_def)

lemma length_be_bytes [simp]: "length (be_bytes (w :: 'a::len word)) = LENGTH('a) div 8"
  by (simp add: be_bytes_def)

lemma bit_le_word:
  "bit (le_word bs :: 'a::len word) k \<longleftrightarrow>
     k < LENGTH('a) \<and> k div 8 < length bs \<and> bit (bs ! (k div 8)) (k mod 8)"
proof (induction bs arbitrary: k)
  case Nil
  then show ?case by simp
next
  case (Cons b bs)
  show ?case
  proof (cases "k < 8")
    case True
    then show ?thesis by (auto simp: bit_or_iff bit_push_bit_iff bit_ucast_iff)
  next
    case False
    then obtain j where k: "k = 8 + j" using le_Suc_ex not_less by blast
    have "\<not> bit b k" using False by (auto dest: bit_imp_le_length)
    moreover have "(8 + j) div 8 = Suc (j div 8)" by simp
    ultimately show ?thesis
      by (auto simp: k bit_or_iff bit_push_bit_iff bit_ucast_iff Cons.IH)
  qed
qed

lemma bit_le_bytes_nth:
  assumes "i < LENGTH('a) div 8"
  shows "bit (le_bytes (w :: 'a::len word) ! i) k \<longleftrightarrow> k < 8 \<and> bit w (8 * i + k)"
  using assms by (auto simp: le_bytes_def bit_ucast_iff bit_drop_bit_eq)

lemma le_word_le_bytes:
  assumes "8 dvd LENGTH('a)"
  shows "le_word (le_bytes (w :: 'a::len word)) = w"
proof (rule bit_word_eqI)
  fix n assume n: "n < LENGTH('a)"
  then have "n div 8 < LENGTH('a) div 8" using assms by (auto elim!: dvdE)
  then show "bit (le_word (le_bytes w) :: 'a word) n \<longleftrightarrow> bit w n"
    using n by (simp add: bit_le_word bit_le_bytes_nth)
qed

lemma le_bytes_le_word:
  assumes "length bs = LENGTH('a) div 8"
  shows "le_bytes (le_word bs :: 'a::len word) = bs"
proof (rule nth_equalityI)
  show "length (le_bytes (le_word bs :: 'a word)) = length bs" using assms by simp
  fix i assume "i < length (le_bytes (le_word bs :: 'a word))"
  then have i: "i < LENGTH('a) div 8" by simp
  show "le_bytes (le_word bs :: 'a word) ! i = bs ! i"
  proof (rule bit_word_eqI)
    fix n assume n: "n < LENGTH(8)"
    have "8 * i + n < LENGTH('a)" using i n by simp
    then show "bit (le_bytes (le_word bs :: 'a word) ! i) n \<longleftrightarrow> bit (bs ! i) n"
      using i n assms by (simp add: bit_le_bytes_nth bit_le_word)
  qed
qed

lemma be_word_be_bytes:
  assumes "8 dvd LENGTH('a)"
  shows "be_word (be_bytes (w :: 'a::len word)) = w"
  using assms by (simp add: be_word_def be_bytes_def le_word_le_bytes)

lemma le_bytes_bswap: "le_bytes (bswap (w :: 'a::len word)) = be_bytes w"
  by (simp add: bswap_def be_bytes_def le_bytes_le_word)

lemma bswap_le_word:
  "length bs = LENGTH('a) div 8 \<Longrightarrow> bswap (le_word bs :: 'a::len word) = be_word bs"
  by (simp add: bswap_def be_word_def le_bytes_le_word)

lemma host_net [simp]:
  "le_bytes (htonl x) = be_bytes x" "le_bytes (htons y) = be_bytes y"
  by (simp_all add: htonl_def htons_def le_bytes_bswap)

end
