(* ===== verification/Slice.thy ===== *)
theory Slice
  imports Prelude "HOL-Library.List_Lexorder"
begin

text \<open>
  \<open>cim::base::Slice\<close> (\<open>cim/base/slice.h\<close>): a pointer into storage somebody else owns and a
  size. The pointer is modelled by the cells from its target to the end of the block it points
  into, so moving it drops cells and reading past the block is a fault. \<open>slice_rep s bs\<close> says
  that \<open>s\<close> refers to the bytes \<open>bs\<close>; the lemmas show that the comparison operators order slices
  as \<open>std::string\<close> would order their bytes.
\<close>

section \<open>The class\<close>

record slice =
  sl_data :: memory
  sl_size :: nat

definition Slice_empty :: slice where
  "Slice_empty = \<lparr>sl_data = [Some 0], sl_size = 0\<rparr>"

definition Slice_ptr :: "memory \<Rightarrow> nat \<Rightarrow> slice" where
  "Slice_ptr d n = \<lparr>sl_data = d, sl_size = n\<rparr>"

text \<open>A \<open>std::string\<close> stores its bytes followed by a NUL.\<close>

definition Slice_string :: "byte list \<Rightarrow> slice" where
  "Slice_string s = \<lparr>sl_data = map Some s @ [Some 0], sl_size = length s\<rparr>"

fun strlen :: "memory \<Rightarrow> nat res" where
  "strlen [] = Inl OutOfBounds"
| "strlen (None # _) = Inl Indeterminate"
| "strlen (Some c # m) = (if c = 0 then Inr 0 else bind_r (strlen m) (\<lambda>n. Inr (Suc n)))"

definition Slice_cstr :: "memory \<Rightarrow> slice res" where
  "Slice_cstr s = bind_r (strlen s) (\<lambda>n. Inr \<lparr>sl_data = s, sl_size = n\<rparr>)"

definition slice_empty :: "slice \<Rightarrow> bool" where
  "slice_empty s \<longleftrightarrow> sl_size s = 0"

definition slice_at :: "slice \<Rightarrow> nat \<Rightarrow> byte res" where
  "slice_at s n =
     bind_r (assert_r (n < sl_size s)) (\<lambda>_.
     bind_r (mem_read (sl_data s) n 1) (\<lambda>bs. Inr (hd bs)))"

definition slice_clear :: "slice \<Rightarrow> slice" where
  "slice_clear s = s\<lparr>sl_data := [Some 0], sl_size := 0\<rparr>"

definition remove_prefix :: "slice \<Rightarrow> nat \<Rightarrow> slice res" where
  "remove_prefix s n =
     bind_r (assert_r (n \<le> sl_size s)) (\<lambda>_.
     Inr (s\<lparr>sl_data := drop n (sl_data s), sl_size := sl_size s - n\<rparr>))"

definition slice_ToString :: "slice \<Rightarrow> byte list res" where
  "slice_ToString s = mem_read (sl_data s) 0 (sl_size s)"

text \<open>
  \<open>memcmp\<close> compares unsigned bytes; the standard fixes only the sign of its result, which the
  model returns as \<open>-1\<close>, \<open>0\<close> or \<open>1\<close>.
\<close>

fun memcmp :: "byte list \<Rightarrow> byte list \<Rightarrow> int" where
  "memcmp (x # xs) (y # ys) = (if x < y then - 1 else if y < x then 1 else memcmp xs ys)"
| "memcmp _ _ = 0"

definition memcmp_n :: "memory \<Rightarrow> memory \<Rightarrow> nat \<Rightarrow> int res" where
  "memcmp_n a b n =
     bind_r (mem_read a 0 n) (\<lambda>xs. bind_r (mem_read b 0 n) (\<lambda>ys. Inr (memcmp xs ys)))"

definition slice_eq :: "slice \<Rightarrow> slice \<Rightarrow> bool res" where
  "slice_eq x y =
     (if sl_size x = sl_size y
      then bind_r (memcmp_n (sl_data x) (sl_data y) (sl_size x)) (\<lambda>r. Inr (r = 0))
      else Inr False)"

definition slice_neq :: "slice \<Rightarrow> slice \<Rightarrow> bool res" where
  "slice_neq x y = bind_r (slice_eq x y) (\<lambda>e. Inr (\<not> e))"

definition slice_compare :: "slice \<Rightarrow> slice \<Rightarrow> int res" where
  "slice_compare a b =
     (let min_len = (if sl_size a < sl_size b then sl_size a else sl_size b) in
      bind_r (memcmp_n (sl_data a) (sl_data b) min_len) (\<lambda>r.
      Inr (if r = 0
           then (if sl_size a < sl_size b then - 1 else if sl_size a > sl_size b then 1 else r)
           else r)))"

definition slice_less :: "slice \<Rightarrow> slice \<Rightarrow> bool res" where
  "slice_less x y = bind_r (slice_compare x y) (\<lambda>r. Inr (r < 0))"

section \<open>What a slice refers to\<close>

definition slice_rep :: "slice \<Rightarrow> byte list \<Rightarrow> bool" where
  "slice_rep s bs \<longleftrightarrow>
     sl_size s = length bs \<and> length bs \<le> length (sl_data s) \<and> take (length bs) (sl_data s) = map Some bs"

lemma slice_rep_size: "slice_rep s bs \<Longrightarrow> sl_size s = length bs"
  by (simp add: slice_rep_def)

lemma slice_rep_read:
  assumes "slice_rep s bs" "n \<le> length bs"
  shows "mem_read (sl_data s) 0 n = Inr (take n bs)"
proof -
  have "take n (sl_data s) = take n (take (length bs) (sl_data s))" using assms(2) by simp
  also have "\<dots> = map Some (take n bs)" using assms(1) by (simp add: slice_rep_def take_map)
  finally show ?thesis using assms by (simp add: mem_read_def slice_rep_def)
qed

lemma slice_rep_string [simp]: "slice_rep (Slice_string s) s"
  by (simp add: slice_rep_def Slice_string_def)

lemma slice_rep_empty [simp]: "slice_rep Slice_empty []" "slice_rep (slice_clear s) []"
  by (simp_all add: slice_rep_def Slice_empty_def slice_clear_def)

lemma strlen_text:
  "0 \<notin> set s \<Longrightarrow> strlen (map Some s @ Some 0 # m) = Inr (length s)"
  by (induction s) (auto simp: bind_r_def)

lemma slice_rep_cstr:
  assumes "0 \<notin> set s"
  shows "\<exists>sl. Slice_cstr (map Some s @ Some 0 # m) = Inr sl \<and> slice_rep sl s"
  using assms by (simp add: Slice_cstr_def strlen_text slice_rep_def)

lemma slice_rep_ToString: "slice_rep s bs \<Longrightarrow> slice_ToString s = Inr bs"
  using slice_rep_read [of s bs "length bs"] slice_rep_size [of s bs]
  by (simp add: slice_ToString_def)

lemma slice_rep_at:
  assumes "slice_rep s bs" "n < length bs"
  shows "slice_at s n = Inr (bs ! n)"
proof -
  have le: "length bs \<le> length (sl_data s)" and t: "take (length bs) (sl_data s) = map Some bs"
    and sz: "sl_size s = length bs"
    using assms(1) by (auto simp: slice_rep_def)
  have "sl_data s ! n = take (length bs) (sl_data s) ! n" using assms(2) by simp
  also have "\<dots> = Some (bs ! n)" using assms(2) by (simp add: t)
  finally have "take 1 (drop n (sl_data s)) = map Some [bs ! n]"
    using assms(2) le by (simp add: take_Suc_conv_app_nth Cons_nth_drop_Suc [symmetric])
  then have "mem_read (sl_data s) n 1 = Inr [bs ! n]"
    using assms(2) le by (simp add: mem_read_def del: list.map)
  then show ?thesis using assms(2) sz by (simp add: slice_at_def)
qed

lemma slice_rep_remove_prefix:
  assumes "slice_rep s bs" "n \<le> length bs"
  shows "\<exists>s'. remove_prefix s n = Inr s' \<and> slice_rep s' (drop n bs)"
proof -
  have le: "length bs \<le> length (sl_data s)" and t: "take (length bs) (sl_data s) = map Some bs"
    using assms(1) by (auto simp: slice_rep_def)
  have "take (length bs - n) (drop n (sl_data s)) = drop n (take (length bs) (sl_data s))"
    by (simp add: drop_take)
  also have "\<dots> = map Some (drop n bs)" by (simp add: t drop_map)
  finally show ?thesis using assms le by (simp add: remove_prefix_def slice_rep_def)
qed

section \<open>Comparison\<close>

definition lex_result :: "byte list \<Rightarrow> byte list \<Rightarrow> int" where
  "lex_result xs ys =
     (if memcmp xs ys = 0
      then (if length xs < length ys then - 1 else if length ys < length xs then 1 else 0)
      else memcmp xs ys)"

lemma memcmp_prefix:
  "length xs = length ys \<Longrightarrow> memcmp xs ys = 0 \<longleftrightarrow> xs = ys"
  by (induction xs ys rule: list_induct2) auto

lemma memcmp_take_shorter:
  "min (length xs) (length ys) \<le> n \<Longrightarrow> memcmp (take n xs) (take n ys) = memcmp xs ys"
proof (induction xs ys arbitrary: n rule: memcmp.induct)
  case (1 x xs y ys)
  then show ?case by (cases n) auto
qed (auto simp: min_def)

lemma lex_result_sign:
  "(lex_result xs ys < 0 \<longleftrightarrow> xs < ys) \<and> (lex_result xs ys = 0 \<longleftrightarrow> xs = ys)"
proof (induction xs ys rule: memcmp.induct)
  case (1 x xs y ys)
  then show ?case by (auto simp: lex_result_def)
qed (rename_tac zs, case_tac zs, auto simp: lex_result_def)+

lemma slice_compare_rep:
  assumes "slice_rep a xs" "slice_rep b ys"
  shows "slice_compare a b = Inr (lex_result xs ys)"
proof -
  let ?n = "if length xs < length ys then length xs else length ys"
  have "memcmp_n (sl_data a) (sl_data b) ?n = Inr (memcmp (take ?n xs) (take ?n ys))"
    using slice_rep_read [OF assms(1), of ?n] slice_rep_read [OF assms(2), of ?n]
    by (auto simp: memcmp_n_def)
  also have "memcmp (take ?n xs) (take ?n ys) = memcmp xs ys"
    by (rule memcmp_take_shorter) simp
  finally have mem: "memcmp_n (sl_data a) (sl_data b) ?n = Inr (memcmp xs ys)" .
  have sz: "sl_size a = length xs" "sl_size b = length ys"
    using assms by (simp_all add: slice_rep_def)
  show ?thesis
    unfolding slice_compare_def Let_def sz mem by (auto simp: lex_result_def)
qed

lemma slice_eq_rep:
  assumes "slice_rep a xs" "slice_rep b ys"
  shows "slice_eq a b = Inr (xs = ys)"
proof (cases "length xs = length ys")
  case True
  then have "memcmp_n (sl_data a) (sl_data b) (length xs) = Inr (memcmp xs ys)"
    using slice_rep_read [OF assms(1), of "length xs"] slice_rep_read [OF assms(2), of "length xs"]
    by (simp add: memcmp_n_def)
  with True show ?thesis using slice_rep_size [OF assms(1)] slice_rep_size [OF assms(2)]
    by (simp add: slice_eq_def memcmp_prefix)
next
  case False
  then show ?thesis using slice_rep_size [OF assms(1)] slice_rep_size [OF assms(2)]
    by (auto simp: slice_eq_def)
qed

lemma slice_less_rep:
  assumes "slice_rep a xs" "slice_rep b ys"
  shows "slice_less a b = Inr (xs < ys)"
  using lex_result_sign [of xs ys] by (simp add: slice_less_def slice_compare_rep [OF assms])

end
