(* ===== verification/Buffer.thy ===== *)
theory Buffer
  imports Slice
begin

text \<open>
  \<open>cim::base::Buffer\<close> (\<open>cim/base/buffer.h\<close>, constants in \<open>buffer.cpp\<close>): the byte buffer every
  packet goes through. The record has the class's fields; the block behind \<open>buffer_\<close> is a list
  of cells. Each member function is one definition on the record, with its \<open>assert\<close>s, its
  \<open>memcpy\<close>s and its \<open>size_t\<close> arithmetic; a pointer into the block is the offset it has there.
  \<open>buf_inv\<close> is the class invariant and \<open>holds b bs\<close> says that the unread bytes of \<open>b\<close> are \<open>bs\<close>;
  each operation gets one lemma that gives its effect on \<open>holds\<close>.
\<close>

section \<open>State and constants\<close>

record buffer =
  buffer_mem :: memory
  capacity :: nat
  read_index :: nat
  write_index :: nat
  reserved_prepend_size :: nat

definition kCheapPrependSize :: nat where "kCheapPrependSize = 8"
definition kInitialSize :: nat where "kInitialSize = 1024"
definition kCRLF :: "byte list" where "kCRLF = [13, 10]"

section \<open>Lengths\<close>

definition buf_length :: "buffer \<Rightarrow> nat res" where
  "buf_length b =
     bind_r (assert_r (write_index b \<ge> read_index b)) (\<lambda>_.
     Inr (write_index b - read_index b))"

definition buf_size :: "buffer \<Rightarrow> nat res" where
  "buf_size b = buf_length b"

definition WritableBytes :: "buffer \<Rightarrow> nat res" where
  "WritableBytes b =
     bind_r (assert_r (capacity b \<ge> write_index b)) (\<lambda>_.
     Inr (capacity b - write_index b))"

definition PrependableBytes :: "buffer \<Rightarrow> nat" where
  "PrependableBytes b = read_index b"

definition WriteBegin :: "buffer \<Rightarrow> nat" where
  "WriteBegin b = write_index b"

section \<open>Construction, swap\<close>

definition Buffer_new :: "nat \<Rightarrow> nat \<Rightarrow> buffer res" where
  "Buffer_new initial_size reserved =
     bind_r (new_chars (add_sz reserved initial_size)) (\<lambda>m.
     let b = \<lparr>buffer_mem = m, capacity = add_sz reserved initial_size,
              read_index = reserved, write_index = reserved,
              reserved_prepend_size = reserved\<rparr> in
     bind_r (buf_length b) (\<lambda>n.
     bind_r (assert_r (n = 0)) (\<lambda>_.
     bind_r (WritableBytes b) (\<lambda>w.
     bind_r (assert_r (w = initial_size)) (\<lambda>_.
     bind_r (assert_r (PrependableBytes b = reserved)) (\<lambda>_.
     Inr b))))))"

definition Swap :: "buffer \<Rightarrow> buffer \<Rightarrow> buffer \<times> buffer" where
  "Swap this rhs =
     (this\<lparr>buffer_mem := buffer_mem rhs, capacity := capacity rhs,
           read_index := read_index rhs, write_index := write_index rhs,
           reserved_prepend_size := reserved_prepend_size rhs\<rparr>,
      rhs\<lparr>buffer_mem := buffer_mem this, capacity := capacity this,
          read_index := read_index this, write_index := write_index this,
          reserved_prepend_size := reserved_prepend_size this\<rparr>)"

section \<open>Discarding\<close>

definition Truncate :: "nat \<Rightarrow> buffer \<Rightarrow> buffer" where
  "Truncate n b =
     (if n = 0
      then b\<lparr>read_index := reserved_prepend_size b, write_index := reserved_prepend_size b\<rparr>
      else if write_index b > add_sz (read_index b) n
      then b\<lparr>write_index := add_sz (read_index b) n\<rparr>
      else b)"

definition Reset :: "buffer \<Rightarrow> buffer" where
  "Reset b = Truncate 0 b"

definition Skip :: "nat \<Rightarrow> buffer \<Rightarrow> buffer res" where
  "Skip len b =
     bind_r (buf_length b) (\<lambda>n.
     if len < n then Inr (b\<lparr>read_index := add_sz (read_index b) len\<rparr>) else Inr (Reset b))"

definition Retrieve :: "nat \<Rightarrow> buffer \<Rightarrow> buffer res" where
  "Retrieve len b = Skip len b"

section \<open>Making room\<close>

definition grow :: "nat \<Rightarrow> buffer \<Rightarrow> buffer res" where
  "grow len b =
     bind_r (WritableBytes b) (\<lambda>w.
     if add_sz w (PrependableBytes b) < add_sz len (reserved_prepend_size b) then
       (let n = add_sz (shl_sz (capacity b) 1) len in
        bind_r (buf_length b) (\<lambda>m.
        bind_r (new_chars n) (\<lambda>d.
        bind_r (mem_get (buffer_mem b) (read_index b) m) (\<lambda>xs.
        bind_r (mem_put d (reserved_prepend_size b) xs) (\<lambda>d'.
        Inr (b\<lparr>write_index := add_sz m (reserved_prepend_size b),
               read_index := reserved_prepend_size b,
               capacity := n, buffer_mem := d'\<rparr>))))))
     else
       bind_r (assert_r (reserved_prepend_size b < read_index b)) (\<lambda>_.
       bind_r (buf_length b) (\<lambda>readable.
       bind_r (mem_get (buffer_mem b) (read_index b) readable) (\<lambda>xs.
       bind_r (mem_put (buffer_mem b) (reserved_prepend_size b) xs) (\<lambda>m'.
       let b' = b\<lparr>buffer_mem := m', read_index := reserved_prepend_size b,
                  write_index := add_sz (reserved_prepend_size b) readable\<rparr> in
       bind_r (buf_length b') (\<lambda>n'.
       bind_r (assert_r (readable = n')) (\<lambda>_.
       bind_r (WritableBytes b') (\<lambda>w'.
       bind_r (assert_r (w' \<ge> len)) (\<lambda>_.
       Inr b')))))))))"

definition Reserve :: "nat \<Rightarrow> buffer \<Rightarrow> buffer res" where
  "Reserve len b =
     (if capacity b \<ge> add_sz len (reserved_prepend_size b) then Inr b
      else grow (add_sz len (reserved_prepend_size b)) b)"

definition EnsureWritableBytes :: "nat \<Rightarrow> buffer \<Rightarrow> buffer res" where
  "EnsureWritableBytes len b =
     bind_r (WritableBytes b) (\<lambda>w.
     bind_r (if w < len then grow len b else Inr b) (\<lambda>b'.
     bind_r (WritableBytes b') (\<lambda>w'.
     bind_r (assert_r (w' \<ge> len)) (\<lambda>_.
     Inr b'))))"

section \<open>Writing\<close>

text \<open>\<open>Write\<close> takes the cells its pointer argument refers to.\<close>

definition Write :: "memory \<Rightarrow> buffer \<Rightarrow> buffer res" where
  "Write d b =
     bind_r (EnsureWritableBytes (length d) b) (\<lambda>b'.
     bind_r (mem_put (buffer_mem b') (WriteBegin b') d) (\<lambda>m.
     bind_r (assert_r (add_sz (write_index b') (length d) \<le> capacity b')) (\<lambda>_.
     Inr (b'\<lparr>buffer_mem := m, write_index := add_sz (write_index b') (length d)\<rparr>))))"

definition Append_slice :: "slice \<Rightarrow> buffer \<Rightarrow> buffer res" where
  "Append_slice str b =
     bind_r (mem_get (sl_data str) 0 (sl_size str)) (\<lambda>xs. Write xs b)"

definition Append :: "byte list \<Rightarrow> buffer \<Rightarrow> buffer res" where
  "Append d b = Write (map Some d) b"

definition evppbswap_64 :: "u64 \<Rightarrow> u64" where
  "evppbswap_64 x =
     drop_bit 56 (x AND 0xff00000000000000) OR drop_bit 40 (x AND 0x00ff000000000000) OR
     drop_bit 24 (x AND 0x0000ff0000000000) OR drop_bit 8 (x AND 0x000000ff00000000) OR
     push_bit 8 (x AND 0x00000000ff000000) OR push_bit 24 (x AND 0x0000000000ff0000) OR
     push_bit 40 (x AND 0x000000000000ff00) OR push_bit 56 (x AND 0x00000000000000ff)"

text \<open>The signed parameters are the bit patterns of their two's complement representation.\<close>

definition AppendInt64 :: "u64 \<Rightarrow> buffer \<Rightarrow> buffer res" where
  "AppendInt64 x b = (let be = evppbswap_64 x in Write (map Some (le_bytes be)) b)"

definition AppendInt32 :: "u32 \<Rightarrow> buffer \<Rightarrow> buffer res" where
  "AppendInt32 x b = (let be32 = htonl x in Write (map Some (le_bytes be32)) b)"

definition AppendInt16 :: "u16 \<Rightarrow> buffer \<Rightarrow> buffer res" where
  "AppendInt16 x b = (let be16 = htons x in Write (map Some (le_bytes be16)) b)"

definition AppendInt8 :: "byte \<Rightarrow> buffer \<Rightarrow> buffer res" where
  "AppendInt8 x b = Write (map Some (le_bytes x)) b"

definition Prepend :: "memory \<Rightarrow> buffer \<Rightarrow> buffer res" where
  "Prepend d b =
     bind_r (assert_r (length d \<le> PrependableBytes b)) (\<lambda>_.
     let b' = b\<lparr>read_index := read_index b - length d\<rparr> in
     bind_r (mem_put (buffer_mem b') (read_index b') d) (\<lambda>m.
     Inr (b'\<lparr>buffer_mem := m\<rparr>)))"

definition PrependInt64 :: "u64 \<Rightarrow> buffer \<Rightarrow> buffer res" where
  "PrependInt64 x b = (let be = evppbswap_64 x in Prepend (map Some (le_bytes be)) b)"

definition PrependInt32 :: "u32 \<Rightarrow> buffer \<Rightarrow> buffer res" where
  "PrependInt32 x b = (let be32 = htonl x in Prepend (map Some (le_bytes be32)) b)"

definition PrependInt16 :: "u16 \<Rightarrow> buffer \<Rightarrow> buffer res" where
  "PrependInt16 x b = (let be16 = htons x in Prepend (map Some (le_bytes be16)) b)"

definition PrependInt8 :: "byte \<Rightarrow> buffer \<Rightarrow> buffer res" where
  "PrependInt8 x b = Prepend (map Some (le_bytes x)) b"

definition UnwriteBytes :: "nat \<Rightarrow> buffer \<Rightarrow> buffer res" where
  "UnwriteBytes n b =
     bind_r (buf_length b) (\<lambda>l.
     bind_r (assert_r (n \<le> l)) (\<lambda>_.
     Inr (b\<lparr>write_index := write_index b - n\<rparr>)))"

definition WriteBytes :: "nat \<Rightarrow> buffer \<Rightarrow> buffer res" where
  "WriteBytes n b =
     bind_r (WritableBytes b) (\<lambda>w.
     bind_r (assert_r (n \<le> w)) (\<lambda>_.
     Inr (b\<lparr>write_index := write_index b + n\<rparr>)))"

definition ToText :: "buffer \<Rightarrow> buffer res" where
  "ToText b = bind_r (AppendInt8 0 b) (UnwriteBytes 1)"

section \<open>Reading\<close>

definition PeekInt64 :: "buffer \<Rightarrow> u64 res" where
  "PeekInt64 b =
     bind_r (buf_length b) (\<lambda>l.
     bind_r (assert_r (l \<ge> 8)) (\<lambda>_.
     bind_r (mem_read (buffer_mem b) (read_index b) 8) (\<lambda>bs.
     let be64 = le_word bs in Inr (evppbswap_64 be64))))"

definition PeekInt32 :: "buffer \<Rightarrow> u32 res" where
  "PeekInt32 b =
     bind_r (buf_length b) (\<lambda>l.
     bind_r (assert_r (l \<ge> 4)) (\<lambda>_.
     bind_r (mem_read (buffer_mem b) (read_index b) 4) (\<lambda>bs.
     let be32 = le_word bs in Inr (ntohl be32))))"

definition PeekInt16 :: "buffer \<Rightarrow> u16 res" where
  "PeekInt16 b =
     bind_r (buf_length b) (\<lambda>l.
     bind_r (assert_r (l \<ge> 2)) (\<lambda>_.
     bind_r (mem_read (buffer_mem b) (read_index b) 2) (\<lambda>bs.
     let be16 = le_word bs in Inr (ntohs be16))))"

definition PeekInt8 :: "buffer \<Rightarrow> byte res" where
  "PeekInt8 b =
     bind_r (buf_length b) (\<lambda>l.
     bind_r (assert_r (l \<ge> 1)) (\<lambda>_.
     bind_r (mem_read (buffer_mem b) (read_index b) 1) (\<lambda>bs. Inr (hd bs))))"

definition ReadInt64 :: "buffer \<Rightarrow> (u64 \<times> buffer) res" where
  "ReadInt64 b =
     bind_r (PeekInt64 b) (\<lambda>result. bind_r (Skip 8 b) (\<lambda>b'. Inr (result, b')))"

definition ReadInt32 :: "buffer \<Rightarrow> (u32 \<times> buffer) res" where
  "ReadInt32 b =
     bind_r (PeekInt32 b) (\<lambda>result. bind_r (Skip 4 b) (\<lambda>b'. Inr (result, b')))"

definition ReadInt16 :: "buffer \<Rightarrow> (u16 \<times> buffer) res" where
  "ReadInt16 b =
     bind_r (PeekInt16 b) (\<lambda>result. bind_r (Skip 2 b) (\<lambda>b'. Inr (result, b')))"

definition ReadInt8 :: "buffer \<Rightarrow> (byte \<times> buffer) res" where
  "ReadInt8 b =
     bind_r (PeekInt8 b) (\<lambda>result. bind_r (Skip 1 b) (\<lambda>b'. Inr (result, b')))"

definition buf_data :: "buffer \<Rightarrow> memory" where
  "buf_data b = drop (read_index b) (buffer_mem b)"

definition ToSlice :: "buffer \<Rightarrow> slice res" where
  "ToSlice b = bind_r (buf_length b) (\<lambda>n. Inr (Slice_ptr (buf_data b) n))"

definition buf_ToString :: "buffer \<Rightarrow> byte list res" where
  "buf_ToString b = bind_r (buf_length b) (\<lambda>n. mem_read (buffer_mem b) (read_index b) n)"

definition Shrink :: "nat \<Rightarrow> buffer \<Rightarrow> buffer res" where
  "Shrink reserve b =
     bind_r (buf_length b) (\<lambda>n.
     bind_r (Buffer_new (add_sz n reserve) kCheapPrependSize) (\<lambda>other.
     bind_r (ToSlice b) (\<lambda>s.
     bind_r (Append_slice s other) (\<lambda>other'.
     Inr (fst (Swap b other'))))))"

definition NextAll :: "buffer \<Rightarrow> (slice \<times> buffer) res" where
  "NextAll b =
     bind_r (buf_length b) (\<lambda>n.
     let result = Slice_ptr (buf_data b) n in Inr (result, Reset b))"

definition Next :: "nat \<Rightarrow> buffer \<Rightarrow> (slice \<times> buffer) res" where
  "Next len b =
     bind_r (buf_length b) (\<lambda>n.
     if len < n
     then (let result = Slice_ptr (buf_data b) len in
           Inr (result, b\<lparr>read_index := add_sz (read_index b) len\<rparr>))
     else NextAll b)"

definition NextString :: "nat \<Rightarrow> buffer \<Rightarrow> (byte list \<times> buffer) res" where
  "NextString len b =
     bind_r (Next len b) (\<lambda>(s, b').
     bind_r (mem_read (sl_data s) 0 (sl_size s)) (\<lambda>bs. Inr (bs, b')))"

definition NextAllString :: "buffer \<Rightarrow> (byte list \<times> buffer) res" where
  "NextAllString b =
     bind_r (NextAll b) (\<lambda>(s, b').
     bind_r (mem_read (sl_data s) 0 (sl_size s)) (\<lambda>bs. Inr (bs, b')))"

definition ReadByte :: "buffer \<Rightarrow> (byte \<times> buffer) res" where
  "ReadByte b =
     bind_r (buf_length b) (\<lambda>l.
     bind_r (assert_r (l \<ge> 1)) (\<lambda>_.
     if l = 0 then Inr (0, b)
     else
       bind_r (mem_read (buffer_mem b) (read_index b) 1) (\<lambda>bs.
       Inr (hd bs, b\<lparr>read_index := read_index b + 1\<rparr>))))"

definition UnreadBytes :: "nat \<Rightarrow> buffer \<Rightarrow> buffer res" where
  "UnreadBytes n b =
     bind_r (assert_r (n < read_index b)) (\<lambda>_.
     Inr (b\<lparr>read_index := read_index b - n\<rparr>))"

section \<open>Searching\<close>

text \<open>
  \<open>std::search\<close> returns the first position where the pattern starts, or the end of the range;
  \<open>memchr\<close> the first position of a byte, or null. The pointers returned are offsets in the
  block, null is \<open>None\<close>.
\<close>

fun std_search :: "byte list \<Rightarrow> byte list \<Rightarrow> nat" where
  "std_search [] pat = 0"
| "std_search (x # xs) pat =
     (if take (length pat) (x # xs) = pat then 0 else Suc (std_search xs pat))"

fun memchr :: "byte \<Rightarrow> byte list \<Rightarrow> nat option" where
  "memchr c [] = None"
| "memchr c (x # xs) = (if x = c then Some 0 else map_option Suc (memchr c xs))"

definition FindCRLF_from :: "nat \<Rightarrow> buffer \<Rightarrow> nat option res" where
  "FindCRLF_from start b =
     bind_r (assert_r (read_index b \<le> start)) (\<lambda>_.
     bind_r (assert_r (start \<le> WriteBegin b)) (\<lambda>_.
     bind_r (mem_read (buffer_mem b) start (WriteBegin b - start)) (\<lambda>bs.
     let crlf = start + std_search bs kCRLF in
     Inr (if crlf = WriteBegin b then None else Some crlf))))"

definition FindCRLF :: "buffer \<Rightarrow> nat option res" where
  "FindCRLF b =
     bind_r (mem_read (buffer_mem b) (read_index b) (WriteBegin b - read_index b)) (\<lambda>bs.
     let crlf = read_index b + std_search bs kCRLF in
     Inr (if crlf = WriteBegin b then None else Some crlf))"

definition FindEOL_from :: "nat \<Rightarrow> buffer \<Rightarrow> nat option res" where
  "FindEOL_from start b =
     bind_r (assert_r (read_index b \<le> start)) (\<lambda>_.
     bind_r (assert_r (start \<le> WriteBegin b)) (\<lambda>_.
     bind_r (mem_read (buffer_mem b) start (WriteBegin b - start)) (\<lambda>bs.
     Inr (map_option (\<lambda>i. start + i) (memchr 10 bs)))))"

definition FindEOL :: "buffer \<Rightarrow> nat option res" where
  "FindEOL b =
     bind_r (buf_length b) (\<lambda>n.
     bind_r (mem_read (buffer_mem b) (read_index b) n) (\<lambda>bs.
     Inr (map_option (\<lambda>i. read_index b + i) (memchr 10 bs))))"

end
