(* ===== verification/BufferLaws.thy ===== *)
theory BufferLaws
  imports Buffer
begin

text \<open>
  The invariant of \<open>Buffer\<close> and the effect of every operation on the unread bytes. \<open>holds b bs\<close>
  is the abstraction relation between a buffer and the byte sequence it stands for. The growing
  operations are shown to succeed while \<open>room b n\<close> holds: the block they may allocate,
  \<open>2 * capacity + n\<close> bytes, stays below the largest object the implementation allows.
\<close>

section \<open>Invariant and abstraction\<close>

definition buf_inv :: "buffer \<Rightarrow> bool" where
  "buf_inv b \<longleftrightarrow>
     length (buffer_mem b) = capacity b \<and> read_index b \<le> write_index b \<and>
     write_index b \<le> capacity b \<and> reserved_prepend_size b \<le> capacity b \<and>
     capacity b \<le> ptrdiff_max"

definition holds :: "buffer \<Rightarrow> byte list \<Rightarrow> bool" where
  "holds b bs \<longleftrightarrow>
     buf_inv b \<and>
     take (write_index b - read_index b) (drop (read_index b) (buffer_mem b)) = map Some bs"

definition room :: "buffer \<Rightarrow> nat \<Rightarrow> bool" where
  "room b n \<longleftrightarrow> 2 * capacity b + n + reserved_prepend_size b \<le> ptrdiff_max"

named_theorems buf_defs \<open>the definitions behind the buffer lemmas\<close>

lemmas [buf_defs] = holds_def buf_inv_def ptrdiff_max_def

lemma holds_inv: "holds b bs \<Longrightarrow> buf_inv b"
  by (simp add: holds_def)

lemma holds_length: "holds b bs \<Longrightarrow> length bs = write_index b - read_index b"
proof -
  assume h: "holds b bs"
  then have "length (map Some bs) = write_index b - read_index b"
    by (subst holds_def [THEN iffD1, THEN conjunct2, symmetric]) (auto simp: buf_defs)
  then show ?thesis by simp
qed

lemma holds_unique: "holds b xs \<Longrightarrow> holds b ys \<Longrightarrow> xs = ys"
  by (auto simp: holds_def dest: map_injective)

lemma holds_bounds:
  assumes "holds b bs"
  shows "read_index b + length bs = write_index b" "write_index b \<le> capacity b"
    "length (buffer_mem b) = capacity b" "reserved_prepend_size b \<le> capacity b"
    "capacity b < 2 ^ 63"
  using assms holds_length [OF assms] by (auto simp: buf_defs)

lemma buf_length_holds: "holds b bs \<Longrightarrow> buf_length b = Inr (length bs)"
  using holds_length [of b bs] by (simp add: buf_length_def buf_defs)

lemma WritableBytes_inv: "buf_inv b \<Longrightarrow> WritableBytes b = Inr (capacity b - write_index b)"
  by (simp add: WritableBytes_def buf_inv_def)

lemma mem_get_holds:
  assumes "holds b bs"
  shows "mem_get (buffer_mem b) (read_index b) (length bs) = Inr (map Some bs)"
proof -
  have "write_index b - read_index b = length bs" by (simp add: holds_length [OF assms])
  then show ?thesis using assms holds_bounds [OF assms] by (simp add: holds_def)
qed

lemma holds_take:
  assumes "holds b bs" "n \<le> length bs"
  shows "take n (drop (read_index b) (buffer_mem b)) = map Some (take n bs)"
proof -
  have "take n (drop (read_index b) (buffer_mem b))
        = take n (take (length bs) (drop (read_index b) (buffer_mem b)))"
    using assms(2) by simp
  also have "\<dots> = map Some (take n bs)"
    using assms(1) holds_length [OF assms(1)] by (simp add: holds_def take_map)
  finally show ?thesis .
qed

lemma mem_read_holds:
  assumes "holds b bs" "n \<le> length bs"
  shows "mem_read (buffer_mem b) (read_index b) n = Inr (take n bs)"
  using holds_bounds [OF assms(1)] assms(2) holds_take [OF assms] by (simp add: mem_read_def)

lemma mem_read_holds_from:
  assumes "holds b bs" "i \<le> length bs"
  shows "mem_read (buffer_mem b) (read_index b + i) (length bs - i) = Inr (drop i bs)"
proof -
  have "take (length bs - i) (drop (read_index b + i) (buffer_mem b))
        = drop i (take (length bs) (drop (read_index b) (buffer_mem b)))"
    by (simp add: drop_take add.commute)
  also have "\<dots> = map Some (drop i bs)"
    using assms(1) holds_length [OF assms(1)] by (simp add: holds_def drop_map)
  finally show ?thesis
    using holds_bounds [OF assms(1)] assms(2) by (simp add: mem_read_def)
qed

section \<open>Construction and discarding\<close>

lemma Buffer_new_holds:
  assumes "reserved + n \<le> ptrdiff_max"
  shows "\<exists>b. Buffer_new n reserved = Inr b \<and> holds b [] \<and> read_index b = reserved \<and>
             capacity b = reserved + n \<and> reserved_prepend_size b = reserved"
proof -
  have "add_sz reserved n = reserved + n"
    using assms by (simp add: sz_simps ptrdiff_max_def)
  then show ?thesis using assms
    by (simp add: Buffer_new_def new_chars_def Let_def buf_length_def WritableBytes_def
        PrependableBytes_def buf_defs)
qed

lemma Reset_holds: "buf_inv b \<Longrightarrow> holds (Reset b) []"
  by (simp add: Reset_def Truncate_def buf_defs)

lemma Reset_frame [simp]:
  "capacity (Reset b) = capacity b"
  "reserved_prepend_size (Reset b) = reserved_prepend_size b"
  "read_index (Reset b) = reserved_prepend_size b"
  by (simp_all add: Reset_def Truncate_def)

lemma holds_advance:
  assumes "holds b bs" "n \<le> length bs"
  shows "holds (b\<lparr>read_index := read_index b + n\<rparr>) (drop n bs)"
proof -
  have "take (write_index b - (read_index b + n)) (drop (read_index b + n) (buffer_mem b))
        = drop n (take (write_index b - read_index b) (drop (read_index b) (buffer_mem b)))"
    by (simp add: drop_take add.commute)
  also have "\<dots> = map Some (drop n bs)"
    using assms(1) by (simp add: holds_def drop_map)
  finally show ?thesis
    using assms holds_bounds [OF assms(1)] by (auto simp: holds_def buf_inv_def)
qed

lemma Skip_holds:
  assumes "holds b bs"
  shows "\<exists>b'. Skip n b = Inr b' \<and> holds b' (drop n bs) \<and> capacity b' = capacity b \<and>
              reserved_prepend_size b' = reserved_prepend_size b"
proof (cases "n < length bs")
  case True
  then have "add_sz (read_index b) n = read_index b + n"
    using holds_bounds [OF assms] by (simp add: sz_simps)
  with True show ?thesis
    using holds_advance [OF assms, of n] by (simp add: Skip_def buf_length_holds [OF assms])
next
  case False
  then show ?thesis
    using Reset_holds [OF holds_inv [OF assms]] by (simp add: Skip_def buf_length_holds [OF assms])
qed

lemma Truncate_holds:
  assumes "holds b bs" "read_index b + n < 2 ^ 64"
  shows "holds (Truncate n b) (take n bs)"
proof (cases "n = 0")
  case True
  then show ?thesis using Reset_holds [OF holds_inv [OF assms(1)]] by (simp add: Reset_def)
next
  case False
  have sz: "add_sz (read_index b) n = read_index b + n" using assms(2) by (simp add: sz_simps)
  have len: "length bs = write_index b - read_index b" by (rule holds_length [OF assms(1)])
  show ?thesis
  proof (cases "write_index b > read_index b + n")
    case True
    have "take n (drop (read_index b) (buffer_mem b))
          = take n (take (write_index b - read_index b) (drop (read_index b) (buffer_mem b)))"
      using True by simp
    also have "\<dots> = map Some (take n bs)" using assms(1) by (simp add: holds_def take_map)
    finally show ?thesis using True False assms(1)
      by (simp add: Truncate_def sz holds_def buf_inv_def)
  next
    case F: False
    then show ?thesis using False assms(1) len by (simp add: Truncate_def sz)
  qed
qed

section \<open>Growing\<close>

lemma grow_move:
  assumes h: "holds b bs" and small: "capacity b - write_index b < len"
    and fits: "len + reserved_prepend_size b \<le> capacity b - write_index b + read_index b"
  shows "\<exists>b'. grow len b = Inr b' \<and> holds b' bs \<and> len \<le> capacity b' - write_index b' \<and>
              capacity b' = capacity b \<and> reserved_prepend_size b' = reserved_prepend_size b"
proof -
  let ?r = "reserved_prepend_size b" and ?m = "buffer_mem b"
  note bd = holds_bounds [OF h]
  have rd: "?r < read_index b" using small fits by linarith
  have put: "?r + length (map Some bs) \<le> length ?m" using rd bd by simp
  define m' where "m' = take ?r ?m @ map Some bs @ drop (?r + length (map Some bs)) ?m"
  have m': "mem_put ?m ?r (map Some bs) = Inr m'" using put by (simp add: m'_def)
  have sz: "add_sz (capacity b - write_index b) (read_index b) = capacity b - write_index b + read_index b"
    "add_sz len ?r = len + ?r" "add_sz ?r (length bs) = ?r + length bs"
    using bd fits rd by (simp_all add: sz_simps)
  let ?b' = "b\<lparr>buffer_mem := m', read_index := ?r, write_index := ?r + length bs\<rparr>"
  have "take (length bs) (drop ?r m') = map Some bs"
    using take_drop_put [OF put] by (simp add: m'_def)
  moreover have "length m' = length ?m" using m' by (rule mem_put_length)
  ultimately have h': "holds ?b' bs"
    using h bd rd by (auto simp: holds_def buf_inv_def)
  have space: "len \<le> capacity b - (?r + length bs)" using fits bd rd by linarith
  have "grow len b = Inr ?b'"
    using fits rd space h'
    by (simp add: grow_def WritableBytes_inv [OF holds_inv [OF h]] PrependableBytes_def sz
        buf_length_holds [OF h] mem_get_holds [OF h] m' Let_def buf_length_holds [OF h']
        WritableBytes_inv [OF holds_inv [OF h']])
  with h' space show ?thesis by simp
qed

lemma grow_alloc:
  assumes h: "holds b bs" and rm: "2 * capacity b + len \<le> ptrdiff_max"
    and full: "capacity b - write_index b + read_index b < len + reserved_prepend_size b"
  shows "\<exists>b'. grow len b = Inr b' \<and> holds b' bs \<and> len \<le> capacity b' - write_index b' \<and>
              capacity b' = 2 * capacity b + len \<and>
              reserved_prepend_size b' = reserved_prepend_size b"
proof -
  let ?r = "reserved_prepend_size b" and ?n = "2 * capacity b + len"
  note bd = holds_bounds [OF h]
  have n64: "?n < 2 ^ 63" using rm by (simp add: ptrdiff_max_def)
  have sz: "add_sz (capacity b - write_index b) (read_index b) = capacity b - write_index b + read_index b"
    "add_sz len ?r = len + ?r" "shl_sz (capacity b) (Suc 0) = 2 * capacity b"
    "add_sz (2 * capacity b) len = ?n" "add_sz (length bs) ?r = length bs + ?r"
    using bd n64 by (simp_all add: sz_simps)
  have put: "?r + length (map Some bs) \<le> length (replicate ?n (None :: byte option))"
    using bd by simp
  define d' where "d' = take ?r (replicate ?n None) @ map Some bs
    @ drop (?r + length (map Some bs)) (replicate ?n None)"
  have d': "mem_put (replicate ?n None) ?r (map Some bs) = Inr d'" using put by (simp add: d'_def)
  let ?b' = "b\<lparr>write_index := length bs + ?r, read_index := ?r, capacity := ?n, buffer_mem := d'\<rparr>"
  have "take (length bs) (drop ?r d') = map Some bs"
    using take_drop_put [OF put] by (simp add: d'_def)
  moreover have "length d' = ?n" using mem_put_length [OF d'] by simp
  ultimately have h': "holds ?b' bs"
    using h bd rm by (auto simp: holds_def buf_inv_def)
  have "grow len b = Inr ?b'"
    using full rm
    by (simp add: grow_def WritableBytes_inv [OF holds_inv [OF h]] PrependableBytes_def sz
        buf_length_holds [OF h] mem_get_holds [OF h] new_chars_def d' Let_def)
  with h' bd show ?thesis by auto
qed

text \<open>The two branches together, as \<open>EnsureWritableBytes\<close> uses them.\<close>

definition grown :: "buffer \<Rightarrow> nat \<Rightarrow> buffer \<Rightarrow> bool" where
  "grown b len b' \<longleftrightarrow>
     reserved_prepend_size b' = reserved_prepend_size b \<and>
     (capacity b' = capacity b \<or>
      capacity b' = 2 * capacity b + len \<and>
      capacity b - write_index b + read_index b < len + reserved_prepend_size b)"

lemma EnsureWritableBytes_holds:
  assumes h: "holds b bs" and rm: "room b len"
  shows "\<exists>b'. EnsureWritableBytes len b = Inr b' \<and> holds b' bs \<and>
              len \<le> capacity b' - write_index b' \<and> grown b len b'"
proof (cases "capacity b - write_index b < len")
  case True
  have "\<exists>b'. grow len b = Inr b' \<and> holds b' bs \<and> len \<le> capacity b' - write_index b' \<and> grown b len b'"
  proof (cases "capacity b - write_index b + read_index b < len + reserved_prepend_size b")
    case full: True
    then show ?thesis using grow_alloc [OF h _ full] rm by (auto simp: room_def grown_def)
  next
    case False
    then show ?thesis using grow_move [OF h True] by (auto simp: grown_def)
  qed
  then obtain b' where g: "grow len b = Inr b'" and b': "holds b' bs"
    "len \<le> capacity b' - write_index b'" "grown b len b'" by blast
  then show ?thesis using True
    by (simp add: EnsureWritableBytes_def WritableBytes_inv [OF holds_inv [OF h]]
        WritableBytes_inv [OF holds_inv [OF b'(1)]])
next
  case False
  then show ?thesis using h
    by (auto simp: EnsureWritableBytes_def WritableBytes_inv [OF holds_inv [OF h]] grown_def)
qed

lemma Reserve_holds:
  assumes h: "holds b bs" and rm: "room b (len + reserved_prepend_size b)"
  shows "\<exists>b'. Reserve len b = Inr b' \<and> holds b' bs \<and> len + reserved_prepend_size b \<le> capacity b'"
proof -
  let ?r = "reserved_prepend_size b"
  have sz: "add_sz len ?r = len + ?r"
    using rm by (simp add: room_def sz_simps ptrdiff_max_def)
  show ?thesis
  proof (cases "capacity b \<ge> len + ?r")
    case True
    then show ?thesis using h by (auto simp: Reserve_def sz)
  next
    case False
    then have full: "capacity b - write_index b + read_index b < (len + ?r) + ?r"
      using holds_bounds [OF h] by linarith
    show ?thesis using grow_alloc [OF h _ full] False rm
      by (auto simp: Reserve_def sz room_def)
  qed
qed

section \<open>Writing\<close>

lemma holds_put:
  assumes h: "holds b bs" and fits: "length xs \<le> capacity b - write_index b"
  shows "\<exists>m. mem_put (buffer_mem b) (write_index b) (map Some xs) = Inr m \<and>
             holds (b\<lparr>buffer_mem := m, write_index := write_index b + length xs\<rparr>) (bs @ xs)"
proof -
  note bd = holds_bounds [OF h]
  let ?xs = "map Some xs"
  have put: "write_index b + length ?xs \<le> length (buffer_mem b)" using fits bd by simp
  define m where "m = take (write_index b) (buffer_mem b) @ ?xs
    @ drop (write_index b + length ?xs) (buffer_mem b)"
  have m: "mem_put (buffer_mem b) (write_index b) ?xs = Inr m" using put by (simp add: m_def)
  have "take (write_index b - read_index b + length ?xs) (drop (read_index b) m)
        = take (write_index b - read_index b) (drop (read_index b) (buffer_mem b)) @ ?xs"
    unfolding m_def by (rule put_split) (use put bd in auto)
  also have "\<dots> = map Some (bs @ xs)" using h by (simp add: holds_def)
  also have "write_index b - read_index b + length ?xs = write_index b + length xs - read_index b"
    using bd by simp
  finally have content: "take (write_index b + length xs - read_index b) (drop (read_index b) m)
    = map Some (bs @ xs)" .
  have "buf_inv (b\<lparr>buffer_mem := m, write_index := write_index b + length xs\<rparr>)"
    using holds_inv [OF h] mem_put_length [OF m] fits bd by (simp add: buf_inv_def)
  with content have "holds (b\<lparr>buffer_mem := m, write_index := write_index b + length xs\<rparr>) (bs @ xs)"
    by (simp add: holds_def)
  with m show ?thesis by blast
qed

lemma Write_after_ensure:
  assumes e: "EnsureWritableBytes (length xs) b = Inr b1" and h: "holds b1 bs"
    and fits: "length xs \<le> capacity b1 - write_index b1"
  shows "\<exists>b'. Write (map Some xs) b = Inr b' \<and> holds b' (bs @ xs) \<and>
              capacity b' = capacity b1 \<and> write_index b' = write_index b1 + length xs \<and>
              read_index b' = read_index b1 \<and>
              reserved_prepend_size b' = reserved_prepend_size b1"
proof -
  obtain m where m: "mem_put (buffer_mem b1) (write_index b1) (map Some xs) = Inr m"
    and h': "holds (b1\<lparr>buffer_mem := m, write_index := write_index b1 + length xs\<rparr>) (bs @ xs)"
    using holds_put [OF h fits] by blast
  have "add_sz (write_index b1) (length xs) = write_index b1 + length xs"
    using fits holds_bounds [OF h] by (simp add: sz_simps)
  then show ?thesis
    using fits holds_bounds [OF h] h' by (auto simp: Write_def e WriteBegin_def m require_def)
qed

lemma EnsureWritableBytes_fits:
  assumes "buf_inv b" "n \<le> capacity b - write_index b"
  shows "EnsureWritableBytes n b = Inr b"
  using assms by (simp add: EnsureWritableBytes_def WritableBytes_inv)

lemma Write_fits:
  assumes "holds b bs" "length xs \<le> capacity b - write_index b"
  shows "\<exists>b'. Write (map Some xs) b = Inr b' \<and> holds b' (bs @ xs) \<and>
              capacity b' = capacity b \<and> write_index b' = write_index b + length xs \<and>
              read_index b' = read_index b \<and>
              reserved_prepend_size b' = reserved_prepend_size b"
  using Write_after_ensure [OF EnsureWritableBytes_fits [OF holds_inv [OF assms(1)] assms(2)] assms]
  by simp

lemma Write_holds:
  assumes "holds b bs" "room b (length xs)"
  shows "\<exists>b'. Write (map Some xs) b = Inr b' \<and> holds b' (bs @ xs) \<and> grown b (length xs) b'"
proof -
  obtain b1 where b1: "EnsureWritableBytes (length xs) b = Inr b1" "holds b1 bs"
    "length xs \<le> capacity b1 - write_index b1" "grown b (length xs) b1"
    using EnsureWritableBytes_holds [OF assms] by blast
  from Write_after_ensure [OF b1(1,2,3)] b1(4) show ?thesis by (fastforce simp: grown_def)
qed

lemma Append_slice_holds:
  assumes "holds b bs" "slice_rep s xs" "room b (length xs)"
  shows "\<exists>b'. Append_slice s b = Inr b' \<and> holds b' (bs @ xs) \<and> grown b (length xs) b'"
proof -
  have "mem_get (sl_data s) 0 (sl_size s) = Inr (map Some xs)"
    using assms(2) by (simp add: slice_rep_def)
  then show ?thesis using Write_holds [OF assms(1,3)] by (simp add: Append_slice_def)
qed

lemma Prepend_holds:
  assumes h: "holds b bs" and fits: "length xs \<le> read_index b"
  shows "\<exists>b'. Prepend (map Some xs) b = Inr b' \<and> holds b' (xs @ bs) \<and> capacity b' = capacity b"
proof -
  note bd = holds_bounds [OF h]
  let ?r = "read_index b - length xs" and ?xs = "map Some xs"
  have put: "?r + length ?xs \<le> length (buffer_mem b)" using bd fits by simp
  have end': "?r + length ?xs = read_index b" using fits by simp
  define m where "m = take ?r (buffer_mem b) @ ?xs @ drop (?r + length ?xs) (buffer_mem b)"
  have m: "mem_put (buffer_mem b) ?r ?xs = Inr m" using put by (simp add: m_def)
  have "take (write_index b - ?r) (drop ?r m)
        = take (write_index b - ?r) (?xs @ drop (read_index b) (buffer_mem b))"
    unfolding m_def end' using put by simp
  also have "\<dots> = ?xs @ take (write_index b - read_index b) (drop (read_index b) (buffer_mem b))"
    using fits bd by (simp add: take_append)
  also have "\<dots> = map Some (xs @ bs)" using h by (simp add: holds_def)
  finally have "holds (b\<lparr>read_index := ?r, buffer_mem := m\<rparr>) (xs @ bs)"
    using h fits bd mem_put_length [OF m] by (auto simp: holds_def buf_inv_def)
  then show ?thesis using fits m by (simp add: Prepend_def PrependableBytes_def Let_def)
qed

lemma UnwriteBytes_holds:
  assumes h: "holds b bs" and n: "n \<le> length bs"
  shows "\<exists>b'. UnwriteBytes n b = Inr b' \<and> holds b' (take (length bs - n) bs)"
proof -
  have len: "length bs = write_index b - read_index b" by (rule holds_length [OF h])
  have "take (write_index b - n - read_index b) (drop (read_index b) (buffer_mem b))
        = take (length bs - n) (take (length bs) (drop (read_index b) (buffer_mem b)))"
    using len by (simp add: add.commute)
  also have "\<dots> = map Some (take (length bs - n) bs)"
    using h len by (simp add: holds_def take_map)
  finally show ?thesis using h n len
    by (auto simp: UnwriteBytes_def buf_length_holds [OF h] holds_def buf_inv_def)
qed

text \<open>
  \<open>WriteBytes n\<close> exposes bytes the caller stored through \<open>WriteBegin()\<close> beforehand.
\<close>

lemma WriteBytes_holds:
  assumes h: "holds b bs" and fits: "length xs \<le> capacity b - write_index b"
  shows "\<exists>m b'. mem_put (buffer_mem b) (WriteBegin b) (map Some xs) = Inr m \<and>
                WriteBytes (length xs) (b\<lparr>buffer_mem := m\<rparr>) = Inr b' \<and> holds b' (bs @ xs) \<and>
                read_index b' = read_index b"
proof -
  obtain m where m: "mem_put (buffer_mem b) (write_index b) (map Some xs) = Inr m"
    and h': "holds (b\<lparr>buffer_mem := m, write_index := write_index b + length xs\<rparr>) (bs @ xs)"
    using holds_put [OF h fits] by blast
  have "WritableBytes (b\<lparr>buffer_mem := m\<rparr>) = Inr (capacity b - write_index b)"
    using holds_bounds [OF h] by (simp add: WritableBytes_def)
  then show ?thesis using m h' fits by (simp add: WriteBegin_def WriteBytes_def)
qed

section \<open>Integers\<close>

lemma mask_byte: "(0xff00000000000000 :: u64) = push_bit 56 (mask 8)"
  "(0x00ff000000000000 :: u64) = push_bit 48 (mask 8)"
  "(0x0000ff0000000000 :: u64) = push_bit 40 (mask 8)"
  "(0x000000ff00000000 :: u64) = push_bit 32 (mask 8)"
  "(0x00000000ff000000 :: u64) = push_bit 24 (mask 8)"
  "(0x0000000000ff0000 :: u64) = push_bit 16 (mask 8)"
  "(0x000000000000ff00 :: u64) = push_bit 8 (mask 8)"
  "(0x00000000000000ff :: u64) = mask 8"
  by (simp_all add: mask_eq_exp_minus_1 push_bit_eq_mult)

lemma bit_bswap:
  fixes x :: u64
  assumes "n < 64"
  shows "bit (bswap x) n \<longleftrightarrow> bit x (8 * (7 - n div 8) + n mod 8)"
proof -
  have "n div 8 < 8" using assms by simp
  then have "rev (le_bytes x) ! (n div 8) = le_bytes x ! (7 - n div 8)"
    by (simp add: rev_nth)
  then show ?thesis
    using assms \<open>n div 8 < 8\<close> by (simp add: bswap_def bit_le_word bit_le_bytes_nth)
qed

lemma evppbswap_64_bswap: "evppbswap_64 x = bswap x"
proof (rule bit_word_eqI)
  fix n assume n: "n < LENGTH(64)"
  define r where "r = n mod 8"
  have r: "r < 8" by (simp add: r_def)
  have split: "n = 8 * (n div 8) + r" by (simp add: r_def)
  note sh = bit_or_iff bit_and_iff bit_drop_bit_eq bit_push_bit_iff bit_mask_iff
  have c: "n div 8 = 0 \<or> n div 8 = 1 \<or> n div 8 = 2 \<or> n div 8 = 3 \<or>
           n div 8 = 4 \<or> n div 8 = 5 \<or> n div 8 = 6 \<or> n div 8 = 7" using n by auto
  have "bit (evppbswap_64 x) (8 * (n div 8) + r) \<longleftrightarrow> bit x (8 * (7 - n div 8) + r)"
    unfolding evppbswap_64_def mask_byte
    using c r by (elim disjE) (simp_all add: sh)
  then show "bit (evppbswap_64 x) n \<longleftrightarrow> bit (bswap x) n"
    using n split by (simp add: bit_bswap r_def)
qed

lemma int_encodings:
  "le_bytes (evppbswap_64 x) = be_bytes x"
  by (simp add: evppbswap_64_bswap le_bytes_bswap)

end
