(* ===== verification/BufferQueue.thy ===== *)
theory BufferQueue
  imports BufferLaws
begin

text \<open>
  What the protocol code asks of \<open>Buffer\<close>, as the locale \<open>byte_queue\<close>: bytes come out in the
  order they went in, reads that the contents allow succeed, and skipping never fails. Sequences
  of writes and reads are handled once inside the locale; the interpretation \<open>bq\<close> discharges its
  laws for the definitions of theory \<open>Buffer\<close>. The readers and writers of integers are then the
  queue operations on big-endian encodings.
\<close>

section \<open>The interface\<close>

locale byte_queue =
  fixes rep :: "'q \<Rightarrow> byte list \<Rightarrow> bool"
    and space :: "'q \<Rightarrow> nat"
    and put :: "byte list \<Rightarrow> 'q \<Rightarrow> 'q res"
    and peek :: "nat \<Rightarrow> 'q \<Rightarrow> byte list res"
    and skip :: "nat \<Rightarrow> 'q \<Rightarrow> 'q res"
  assumes rep_unique: "rep q xs \<Longrightarrow> rep q ys \<Longrightarrow> xs = ys"
    and put_law: "rep q bs \<Longrightarrow> length xs \<le> space q \<Longrightarrow>
      \<exists>q'. put xs q = Inr q' \<and> rep q' (bs @ xs) \<and> space q' = space q - length xs"
    and peek_law: "rep q bs \<Longrightarrow> n \<le> length bs \<Longrightarrow> peek n q = Inr (take n bs)"
    and peek_short: "rep q bs \<Longrightarrow> length bs < n \<Longrightarrow> peek n q = Inl AssertFailed"
    and skip_law: "rep q bs \<Longrightarrow> \<exists>q'. skip n q = Inr q' \<and> rep q' (drop n bs)"
begin

lemma put_seq:
  assumes "rep q bs" "sum_list (map length xss) \<le> space q"
  shows "\<exists>q'. seq_r put xss q = Inr q' \<and> rep q' (bs @ concat xss) \<and>
              space q' = space q - sum_list (map length xss)"
  using assms
proof (induction xss arbitrary: q bs)
  case Nil
  then show ?case by simp
next
  case (Cons xs xss)
  obtain q1 where q1: "put xs q = Inr q1" "rep q1 (bs @ xs)" "space q1 = space q - length xs"
    using put_law [OF Cons.prems(1), of xs] Cons.prems(2) by auto
  have "sum_list (map length xss) \<le> space q1" using Cons.prems(2) q1(3) by simp
  from Cons.IH [OF q1(2) this] q1 show ?case by auto
qed

text \<open>Reading: a peek followed by a skip of the same size.\<close>

lemma get_law:
  assumes "rep q bs" "n \<le> length bs"
  shows "\<exists>q'. bind_r (peek n q) (\<lambda>xs. bind_r (skip n q) (\<lambda>q'. Inr (xs, q'))) = Inr (take n bs, q')
              \<and> rep q' (drop n bs)"
  using peek_law [OF assms] skip_law [OF assms(1), of n] by auto

text \<open>First in, first out: what is read is what was written, in order.\<close>

lemma fifo:
  assumes "rep q []" "sum_list (map length xss) \<le> space q"
  shows "bind_r (seq_r put xss q) (peek (length (concat xss))) = Inr (concat xss)"
proof -
  obtain q' where q': "seq_r put xss q = Inr q'" "rep q' (concat xss)"
    using put_seq [OF assms] by auto
  then show ?thesis using peek_law [OF q'(2), of "length (concat xss)"] by simp
qed

lemma skip_put:
  assumes "rep q bs" "length xs \<le> space q"
  shows "\<exists>q'. bind_r (put xs q) (skip (length bs)) = Inr q' \<and> rep q' xs"
proof -
  obtain q1 where q1: "put xs q = Inr q1" "rep q1 (bs @ xs)" using put_law [OF assms] by blast
  then show ?thesis using skip_law [OF q1(2), of "length bs"] by auto
qed

end

section \<open>Buffer provides it\<close>

definition buf_space :: "buffer \<Rightarrow> nat" where
  "buf_space b = capacity b - write_index b"

definition buf_put :: "byte list \<Rightarrow> buffer \<Rightarrow> buffer res" where
  "buf_put xs b = Write (map Some xs) b"

definition buf_peek :: "nat \<Rightarrow> buffer \<Rightarrow> byte list res" where
  "buf_peek n b =
     bind_r (buf_length b) (\<lambda>l.
     bind_r (assert_r (l \<ge> n)) (\<lambda>_. mem_read (buffer_mem b) (read_index b) n))"

lemma buf_peek_holds:
  assumes "holds b bs"
  shows "buf_peek n b = (if n \<le> length bs then Inr (take n bs) else Inl AssertFailed)"
  using mem_read_holds [OF assms] by (simp add: buf_peek_def buf_length_holds [OF assms])

interpretation bq: byte_queue holds buf_space buf_put buf_peek Skip
proof unfold_locales
  fix q :: buffer and xs ys :: "byte list"
  assume "holds q xs" "holds q ys"
  then show "xs = ys" by (rule holds_unique)
next
  fix q :: buffer and bs xs :: "byte list"
  assume q: "holds q bs" "length xs \<le> buf_space q"
  then show "\<exists>q'. buf_put xs q = Inr q' \<and> holds q' (bs @ xs) \<and> buf_space q' = buf_space q - length xs"
    using Write_fits [of q bs xs] by (fastforce simp: buf_put_def buf_space_def)
next
  fix q :: buffer and bs :: "byte list" and n :: nat
  assume "holds q bs" "n \<le> length bs"
  then show "buf_peek n q = Inr (take n bs)" by (simp add: buf_peek_holds)
next
  fix q :: buffer and bs :: "byte list" and n :: nat
  assume "holds q bs" "length bs < n"
  then show "buf_peek n q = Inl AssertFailed" by (simp add: buf_peek_holds)
next
  fix q :: buffer and bs :: "byte list" and n :: nat
  assume "holds q bs"
  then show "\<exists>q'. Skip n q = Inr q' \<and> holds q' (drop n bs)" using Skip_holds by blast
qed

section \<open>Integers through the queue\<close>

lemma Append_ints:
  "AppendInt64 x = buf_put (be_bytes x)" "AppendInt32 y = buf_put (be_bytes y)"
  "AppendInt16 z = buf_put (be_bytes z)" "AppendInt8 w = buf_put [w]"
  by (auto simp: fun_eq_iff AppendInt64_def AppendInt32_def AppendInt16_def AppendInt8_def
      buf_put_def Let_def int_encodings)

lemma Peek_ints:
  "PeekInt64 b = bind_r (buf_peek 8 b) (\<lambda>bs. Inr (evppbswap_64 (le_word bs)))"
  "PeekInt32 b = bind_r (buf_peek 4 b) (\<lambda>bs. Inr (ntohl (le_word bs)))"
  "PeekInt16 b = bind_r (buf_peek 2 b) (\<lambda>bs. Inr (ntohs (le_word bs)))"
  "PeekInt8 b = bind_r (buf_peek 1 b) (\<lambda>bs. Inr (hd bs))"
  by (simp_all add: PeekInt64_def PeekInt32_def PeekInt16_def PeekInt8_def buf_peek_def
      bind_r_assoc Let_def)

lemma PeekInt64_holds:
  "holds b bs \<Longrightarrow> 8 \<le> length bs \<Longrightarrow> PeekInt64 b = Inr (be_word (take 8 bs))"
  by (simp add: Peek_ints buf_peek_holds evppbswap_64_bswap bswap_le_word)

lemma PeekInt32_holds:
  "holds b bs \<Longrightarrow> 4 \<le> length bs \<Longrightarrow> PeekInt32 b = Inr (be_word (take 4 bs))"
  by (simp add: Peek_ints buf_peek_holds ntohl_def bswap_le_word)

lemma PeekInt16_holds:
  "holds b bs \<Longrightarrow> 2 \<le> length bs \<Longrightarrow> PeekInt16 b = Inr (be_word (take 2 bs))"
  by (simp add: Peek_ints buf_peek_holds ntohs_def bswap_le_word)

lemma PeekInt8_holds:
  "holds b bs \<Longrightarrow> 1 \<le> length bs \<Longrightarrow> PeekInt8 b = Inr (bs ! 0)"
  by (cases bs) (simp_all add: Peek_ints buf_peek_holds)

lemma Peek_short:
  "holds b bs \<Longrightarrow> length bs < 8 \<Longrightarrow> PeekInt64 b = Inl AssertFailed"
  "holds b bs \<Longrightarrow> length bs < 4 \<Longrightarrow> PeekInt32 b = Inl AssertFailed"
  "holds b bs \<Longrightarrow> length bs < 2 \<Longrightarrow> PeekInt16 b = Inl AssertFailed"
  "holds b bs \<Longrightarrow> length bs < 1 \<Longrightarrow> PeekInt8 b = Inl AssertFailed"
  by (simp_all add: Peek_ints buf_peek_holds)

lemma ReadInt32_holds:
  assumes "holds b bs" "4 \<le> length bs"
  shows "\<exists>b'. ReadInt32 b = Inr (be_word (take 4 bs), b') \<and> holds b' (drop 4 bs) \<and>
              capacity b' = capacity b \<and> reserved_prepend_size b' = reserved_prepend_size b"
  using Skip_holds [OF assms(1), of 4] by (auto simp: ReadInt32_def PeekInt32_holds [OF assms])

lemma ReadInt16_holds:
  assumes "holds b bs" "2 \<le> length bs"
  shows "\<exists>b'. ReadInt16 b = Inr (be_word (take 2 bs), b') \<and> holds b' (drop 2 bs) \<and>
              capacity b' = capacity b \<and> reserved_prepend_size b' = reserved_prepend_size b"
  using Skip_holds [OF assms(1), of 2] by (auto simp: ReadInt16_def PeekInt16_holds [OF assms])

lemma ReadInt64_holds:
  assumes "holds b bs" "8 \<le> length bs"
  shows "\<exists>b'. ReadInt64 b = Inr (be_word (take 8 bs), b') \<and> holds b' (drop 8 bs)"
  using Skip_holds [OF assms(1), of 8] by (auto simp: ReadInt64_def PeekInt64_holds [OF assms])

lemma ReadInt8_holds:
  assumes "holds b bs" "1 \<le> length bs"
  shows "\<exists>b'. ReadInt8 b = Inr (bs ! 0, b') \<and> holds b' (drop 1 bs)"
  using Skip_holds [OF assms(1), of 1] by (auto simp: ReadInt8_def PeekInt8_holds [OF assms])

section \<open>Slices of a buffer\<close>

lemma buf_slice:
  assumes "holds b bs" "n \<le> length bs"
  shows "slice_rep (Slice_ptr (buf_data b) n) (take n bs)"
  using assms holds_take [OF assms] holds_bounds [OF assms(1)]
  by (auto simp: slice_rep_def Slice_ptr_def buf_data_def min_def)

lemma Next_holds:
  assumes h: "holds b bs"
  shows "\<exists>s b'. Next n b = Inr (s, b') \<and> slice_rep s (take n bs) \<and> holds b' (drop n bs)"
proof (cases "n < length bs")
  case True
  then have "add_sz (read_index b) n = read_index b + n"
    using holds_bounds [OF h] by (simp add: sz_simps)
  with True show ?thesis
    using holds_advance [OF h, of n] buf_slice [OF h, of n]
    by (simp add: Next_def buf_length_holds [OF h] Let_def)
next
  case False
  then show ?thesis
    using Reset_holds [OF holds_inv [OF h]] buf_slice [OF h, of "length bs"]
    by (simp add: Next_def NextAll_def buf_length_holds [OF h] Let_def)
qed

lemma NextString_holds:
  assumes "holds b bs"
  shows "\<exists>b'. NextString n b = Inr (take n bs, b') \<and> holds b' (drop n bs)"
proof -
  obtain s b' where n: "Next n b = Inr (s, b')" "slice_rep s (take n bs)" "holds b' (drop n bs)"
    using Next_holds [OF assms] by blast
  then show ?thesis
    using slice_rep_ToString [OF n(2)] by (simp add: NextString_def slice_ToString_def)
qed

lemma Shrink_holds:
  assumes h: "holds b bs" and fits: "length bs + reserve + 8 \<le> ptrdiff_max"
  shows "\<exists>b'. Shrink reserve b = Inr b' \<and> holds b' bs \<and>
              capacity b' = length bs + reserve + kCheapPrependSize"
proof -
  have sz: "add_sz (length bs) reserve = length bs + reserve"
    using fits by (simp add: sz_simps ptrdiff_max_def)
  obtain other where o: "Buffer_new (length bs + reserve) kCheapPrependSize = Inr other"
    "holds other []" "read_index other = 8" "capacity other = 8 + (length bs + reserve)"
    using Buffer_new_holds [of kCheapPrependSize "length bs + reserve"] fits
    by (auto simp: kCheapPrependSize_def)
  have "length bs \<le> capacity other - write_index other"
    using holds_length [OF o(2)] holds_bounds [OF o(2)] o(3,4) by simp
  then obtain b' where b': "Write (map Some bs) other = Inr b'" "holds b' bs"
    "capacity b' = capacity other"
    using Write_fits [OF o(2)] by fastforce
  have "mem_get (buf_data b) 0 (length bs) = Inr (map Some bs)"
    using buf_slice [OF h, of "length bs"] by (simp add: slice_rep_def Slice_ptr_def)
  then have "Append_slice (Slice_ptr (buf_data b) (length bs)) other = Inr b'"
    using b'(1) by (simp add: Append_slice_def Slice_ptr_def)
  moreover have "fst (Swap b b') = b'" by (simp add: Swap_def)
  ultimately have "Shrink reserve b = Inr b'"
    by (simp add: Shrink_def ToSlice_def buf_length_holds [OF h] sz o(1))
  with b' o(4) show ?thesis by (simp add: kCheapPrependSize_def)
qed

end
