(* ===== verification/BufferProps.thy ===== *)
theory BufferProps
  imports BufferQueue
begin

text \<open>
  The properties of \<open>Buffer\<close> and \<open>Slice\<close> the rest of the client relies on, over the lemmas of
  \<open>BufferLaws\<close> and the interpretation \<open>bq\<close>: first in first out, growth, integers, the class
  invariant along every sequence of operations, searching, and the one call that breaks the
  invariant.
\<close>

section \<open>Contents\<close>

lemma buf_ToString_holds: "holds b bs \<Longrightarrow> buf_ToString b = Inr bs"
  using mem_read_holds [of b bs "length bs"] by (simp add: buf_ToString_def buf_length_holds)

text \<open>
  C28. Appending never loses, moves or reorders bytes, whether the data fits behind the write
  index, is made to fit by moving the contents to the front, or needs a new block; \<open>length\<close> and
  \<open>ToString\<close> then report old and new bytes, and no assertion of \<open>grow\<close> fails.
\<close>

theorem Append_contents:
  assumes "holds b bs" "room b (length xs)"
  shows "\<exists>b'. Append xs b = Inr b' \<and> buf_length b' = Inr (length bs + length xs) \<and>
              buf_ToString b' = Inr (bs @ xs) \<and> holds b' (bs @ xs)"
  using Write_holds [OF assms] by (auto simp: Append_def buf_ToString_holds buf_length_holds)

definition sample_buffer :: buffer where
  "sample_buffer = \<lparr>buffer_mem = replicate 9 None @ [Some 7, Some 8], capacity = 11,
     read_index = 9, write_index = 11, reserved_prepend_size = 8\<rparr>"

lemma sample_holds: "holds sample_buffer [7, 8]"
  by (simp add: sample_buffer_def buf_defs)

theorem Append_contents_witness:
  "\<exists>b'. Append [9, 9, 9] sample_buffer = Inr b' \<and> buf_length b' = Inr 5 \<and>
        buf_ToString b' = Inr [7, 8, 9, 9, 9]"
proof -
  have "room sample_buffer (length [9, 9, 9 :: byte])"
    by (simp add: room_def sample_buffer_def ptrdiff_max_def)
  from Append_contents [OF sample_holds this] show ?thesis by auto
qed

text \<open>
  First in, first out across any number of writes: reading the total length after them gives
  their concatenation.
\<close>

theorem Write_fifo:
  assumes "holds b []" "sum_list (map length xss) \<le> capacity b - write_index b"
  shows "\<exists>b'. bind_r (seq_r (\<lambda>xs. Write (map Some xs)) xss b) (NextString (length (concat xss)))
              = Inr (concat xss, b') \<and> buf_length b' = Inr 0"
proof -
  have put: "(\<lambda>xs. Write (map Some xs)) = buf_put" by (auto simp: fun_eq_iff buf_put_def)
  from bq.put_seq [OF assms(1), of xss] assms(2) obtain q where
    q: "seq_r buf_put xss b = Inr q" "holds q (concat xss)" by (auto simp: buf_space_def)
  from NextString_holds [OF q(2), of "length (concat xss)"] q(1) show ?thesis
    by (auto simp: put buf_length_holds)
qed

theorem Write_fifo_witness:
  "\<exists>b b'. Buffer_new 16 8 = Inr b \<and>
       bind_r (seq_r (\<lambda>xs. Write (map Some xs)) [[1, 2], [3]] b) (NextString (Suc (Suc (Suc 0))))
       = Inr ([1, 2, 3], b') \<and> buf_length b' = Inr 0"
proof -
  from Buffer_new_holds [of 8 16] obtain b where
    b: "Buffer_new 16 8 = Inr b" "holds b []" "read_index b = 8" "capacity b = 24"
    by (auto simp: ptrdiff_max_def)
  then have "write_index b = 8" using holds_length [OF b(2)] holds_bounds [OF b(2)] by simp
  then show ?thesis using Write_fifo [OF b(2), of "[[1, 2], [3]]"] b by simp
qed

section \<open>Integers\<close>

text \<open>
  C29. Integers of all four widths come back unchanged, in the order they were appended, and on the
  wire they are in network byte order: the hand-written swap of the 64-bit one agrees with
  \<open>htonl\<close> and \<open>htons\<close>.
\<close>

theorem ints_roundtrip:
  assumes "holds b []" "15 \<le> capacity b - write_index b"
  shows "\<exists>b' b8 b4 b2 b1.
    bind_r (AppendInt64 x b) (\<lambda>b. bind_r (AppendInt32 y b) (\<lambda>b. bind_r (AppendInt16 z b) (AppendInt8 w)))
      = Inr b' \<and>
    buf_ToString b' = Inr (be_bytes x @ be_bytes y @ be_bytes z @ [w]) \<and>
    ReadInt64 b' = Inr (x, b8) \<and> ReadInt32 b8 = Inr (y, b4) \<and> ReadInt16 b4 = Inr (z, b2) \<and>
    ReadInt8 b2 = Inr (w, b1) \<and> buf_length b1 = Inr 0"
proof -
  let ?xss = "[be_bytes x, be_bytes y, be_bytes z, [w]]"
  from bq.put_seq [OF assms(1), of ?xss] assms(2) obtain b' where
    b': "seq_r buf_put ?xss b = Inr b'" and h: "holds b' (be_bytes x @ be_bytes y @ be_bytes z @ [w])"
    by (auto simp: buf_space_def)
  from b' have app: "bind_r (AppendInt64 x b) (\<lambda>b. bind_r (AppendInt32 y b) (\<lambda>b.
      bind_r (AppendInt16 z b) (AppendInt8 w))) = Inr b'"
    by (auto simp: Append_ints bind_r_eq_Inr)
  obtain b8 where b8: "ReadInt64 b' = Inr (x, b8)" "holds b8 (be_bytes y @ be_bytes z @ [w])"
    using ReadInt64_holds [OF h] by (auto simp: be_word_be_bytes)
  obtain b4 where b4: "ReadInt32 b8 = Inr (y, b4)" "holds b4 (be_bytes z @ [w])"
    using ReadInt32_holds [OF b8(2)] by (auto simp: be_word_be_bytes)
  obtain b2 where b2: "ReadInt16 b4 = Inr (z, b2)" "holds b2 [w]"
    using ReadInt16_holds [OF b4(2)] by (auto simp: be_word_be_bytes)
  obtain b1 where "ReadInt8 b2 = Inr (w, b1)" "holds b1 []"
    using ReadInt8_holds [OF b2(2)] by auto
  with app b8 b4 b2 buf_ToString_holds [OF h] show ?thesis
    by (fastforce simp: buf_length_holds)
qed

theorem ints_roundtrip_witness:
  "\<exists>b b'. Buffer_new 16 8 = Inr b \<and>
    bind_r (AppendInt64 1 b) (\<lambda>b. bind_r (AppendInt32 2 b) (\<lambda>b. bind_r (AppendInt16 3 b) (AppendInt8 4)))
      = Inr b' \<and> buf_ToString b' = Inr (be_bytes (1 :: u64) @ be_bytes (2 :: u32) @ be_bytes (3 :: u16) @ [4])"
proof -
  from Buffer_new_holds [of 8 16] obtain b where
    b: "Buffer_new 16 8 = Inr b" "holds b []" "read_index b = 8" "capacity b = 24"
    by (auto simp: ptrdiff_max_def)
  then have "15 \<le> capacity b - write_index b"
    using holds_length [OF b(2)] holds_bounds [OF b(2)] by simp
  from ints_roundtrip [OF b(2) this, of 1 2 3 4] b(1) show ?thesis by blast
qed

section \<open>The class invariant\<close>

text \<open>
  \<open>buf_step\<close>: one call of a member function that changes the buffer. The side conditions are
  those of the size arithmetic; a failing assertion makes no step.
\<close>

inductive buf_step :: "buffer \<Rightarrow> buffer \<Rightarrow> bool" where
  skip: "Skip n b = Inr b' \<Longrightarrow> buf_step b b'"
| retrieve: "Retrieve n b = Inr b' \<Longrightarrow> buf_step b b'"
| truncate: "read_index b + n < 2 ^ 64 \<Longrightarrow> buf_step b (Truncate n b)"
| reset: "buf_step b (Reset b)"
| reserve: "room b (n + reserved_prepend_size b) \<Longrightarrow> Reserve n b = Inr b' \<Longrightarrow> buf_step b b'"
| ensure: "room b n \<Longrightarrow> EnsureWritableBytes n b = Inr b' \<Longrightarrow> buf_step b b'"
| write_all: "room b (length d) \<Longrightarrow> Write d b = Inr b' \<Longrightarrow> buf_step b b'"
| to_text: "room b 1 \<Longrightarrow> ToText b = Inr b' \<Longrightarrow> buf_step b b'"
| prepend: "Prepend d b = Inr b' \<Longrightarrow> buf_step b b'"
| unwrite: "UnwriteBytes n b = Inr b' \<Longrightarrow> buf_step b b'"
| write_bytes: "WriteBytes n b = Inr b' \<Longrightarrow> buf_step b b'"
| read64: "ReadInt64 b = Inr (x8, b') \<Longrightarrow> buf_step b b'"
| read32: "ReadInt32 b = Inr (x4, b') \<Longrightarrow> buf_step b b'"
| read16: "ReadInt16 b = Inr (x2, b') \<Longrightarrow> buf_step b b'"
| read8: "ReadInt8 b = Inr (x1, b') \<Longrightarrow> buf_step b b'"
| "next": "Next n b = Inr (s, b') \<Longrightarrow> buf_step b b'"
| next_string: "NextString n b = Inr (t, b') \<Longrightarrow> buf_step b b'"
| read_byte: "ReadByte b = Inr (c, b') \<Longrightarrow> buf_step b b'"
| unread: "UnreadBytes n b = Inr b' \<Longrightarrow> buf_step b b'"

lemma buf_length_inv: "buf_inv b \<Longrightarrow> buf_length b = Inr (write_index b - read_index b)"
  by (simp add: buf_length_def buf_inv_def)

lemma Skip_inv: "buf_inv b \<Longrightarrow> Skip n b = Inr b' \<Longrightarrow> buf_inv b'"
  by (auto simp: Skip_def buf_length_inv Reset_def Truncate_def buf_inv_def ptrdiff_max_def sz_simps
      split: if_splits)

lemma grow_inv:
  assumes "buf_inv b" "2 * capacity b + n + reserved_prepend_size b \<le> ptrdiff_max" "grow n b = Inr b'"
  shows "buf_inv b'"
  using assms
  by (auto simp: grow_def WritableBytes_inv PrependableBytes_def buf_length_inv bind_r_eq_Inr
      new_chars_def sz_simps Let_def buf_inv_def ptrdiff_max_def bind_r_require
      dest: mem_put_length split: if_splits)

lemma EnsureWritableBytes_inv:
  assumes "buf_inv b" "room b n" "EnsureWritableBytes n b = Inr b'"
  shows "buf_inv b' \<and> n \<le> capacity b' - write_index b'"
  using assms grow_inv [OF assms(1), of n]
  by (auto simp: EnsureWritableBytes_def WritableBytes_inv bind_r_eq_Inr room_def
      WritableBytes_def bind_r_require split: if_splits)

lemma Reserve_inv:
  assumes "buf_inv b" "room b (n + reserved_prepend_size b)" "Reserve n b = Inr b'"
  shows "buf_inv b'"
proof -
  have "add_sz n (reserved_prepend_size b) = n + reserved_prepend_size b"
    using assms(2) by (simp add: room_def sz_simps ptrdiff_max_def)
  then show ?thesis using assms grow_inv [OF assms(1), of "n + reserved_prepend_size b" b']
    by (auto simp: Reserve_def room_def split: if_splits)
qed

lemma Write_inv:
  assumes "buf_inv b" "room b (length d)" "Write d b = Inr b'"
  shows "buf_inv b'"
proof -
  from assms(3) obtain b1 m where b1: "EnsureWritableBytes (length d) b = Inr b1"
    and m: "mem_put (buffer_mem b1) (WriteBegin b1) d = Inr m"
    and b': "b' = b1\<lparr>buffer_mem := m, write_index := add_sz (write_index b1) (length d)\<rparr>"
    by (auto simp: Write_def bind_r_eq_Inr)
  from EnsureWritableBytes_inv [OF assms(1,2) b1] mem_put_length [OF m] show ?thesis
    by (auto simp: b' buf_inv_def ptrdiff_max_def sz_simps)
qed

lemma Next_inv: "buf_inv b \<Longrightarrow> Next n b = Inr (s, b') \<Longrightarrow> buf_inv b'"
  by (auto simp: Next_def NextAll_def buf_length_inv Reset_def Truncate_def buf_inv_def
      ptrdiff_max_def sz_simps Let_def split: if_splits)

lemma buf_step_inv: "buf_step b b' \<Longrightarrow> buf_inv b \<Longrightarrow> buf_inv b'"
proof (induction rule: buf_step.induct)
  case (prepend d b b')
  then show ?case
    by (auto simp: Prepend_def PrependableBytes_def bind_r_eq_Inr bind_r_require Let_def buf_inv_def
        dest!: mem_put_length split: if_splits)
next
  case (to_text b b')
  then obtain b1 where "AppendInt8 0 b = Inr b1" "UnwriteBytes 1 b1 = Inr b'"
    by (auto simp: ToText_def bind_r_eq_Inr)
  moreover have "buf_inv b1"
    using Write_inv [of b "[Some 0]"] to_text calculation by (simp add: AppendInt8_def)
  ultimately show ?case
    by (auto simp: UnwriteBytes_def buf_length_inv bind_r_require buf_inv_def split: if_splits)
next
  case (read_byte b c b')
  then show ?case
    by (auto simp: ReadByte_def buf_length_inv bind_r_require bind_r_eq_Inr buf_inv_def
        split: if_splits)
next
  case (next_string n b t b')
  then show ?case by (auto simp: NextString_def bind_r_eq_Inr dest: Next_inv)
qed (auto simp: Retrieve_def UnwriteBytes_def WriteBytes_def UnreadBytes_def
    ReadInt64_def ReadInt32_def ReadInt16_def ReadInt8_def bind_r_eq_Inr bind_r_require
    buf_length_inv WritableBytes_inv
    dest: Skip_inv Reserve_inv EnsureWritableBytes_inv Write_inv Next_inv,
    (auto simp: Truncate_def Reset_def buf_inv_def ptrdiff_max_def sz_simps split: if_splits)?)



text \<open>
  C32. The exception: \<open>Truncate\<close> is documented to do nothing when \<open>n\<close> is greater than the length of
  the buffer, but it compares with \<open>read_index + n\<close> in \<open>size_t\<close>. For the \<open>n\<close> just below \<open>2^64\<close> the sum
  wraps, the write index is set before the read index, and every later \<open>length\<close> fails its
  assertion.
\<close>

theorem Truncate_wraps:
  assumes "holds b bs" "0 < k" "k \<le> read_index b" "bs \<noteq> []"
  shows "write_index (Truncate (2 ^ 64 - k) b) = read_index b - k \<and>
         buf_length (Truncate (2 ^ 64 - k) b) = Inl AssertFailed"
proof -
  note bd = holds_bounds [OF assms(1)]
  have "add_sz (read_index b) (2 ^ 64 - k) = (read_index b - k + 2 ^ 64) mod 2 ^ 64"
    using assms(2,3) bd by (simp add: add_sz_def)
  also have "\<dots> = read_index b - k" using bd by simp
  finally have sum: "add_sz (read_index b) (2 ^ 64 - k) = read_index b - k" .
  have "k < 2 ^ 64" using assms(3) bd by simp
  then have "Truncate (2 ^ 64 - k) b = b\<lparr>write_index := read_index b - k\<rparr>"
    using bd assms(4) unfolding Truncate_def sum by (auto simp flip: length_greater_0_conv)
  then show ?thesis using assms(2,3) by (auto simp: buf_length_def bind_r_require)
qed

theorem Truncate_wraps_witness:
  "buf_length sample_buffer = Inr 2 \<and>
   buf_length (Truncate (2 ^ 64 - 1) sample_buffer) = Inl AssertFailed"
proof -
  have "1 \<le> read_index sample_buffer" by (simp add: sample_buffer_def)
  from Truncate_wraps [OF sample_holds _ this] sample_holds show ?thesis
    by (simp add: buf_length_holds)
qed

section \<open>Searching\<close>

lemma memchr_spec:
  "(memchr c xs = None \<longleftrightarrow> c \<notin> set xs) \<and>
   (memchr c xs = Some i \<longrightarrow> i < length xs \<and> xs ! i = c \<and> c \<notin> set (take i xs))"
proof (induction xs arbitrary: i)
  case (Cons x xs)
  then show ?case by (cases i) (auto simp: nth_Cons split: nat.split)
qed simp

lemma std_search_spec:
  "std_search xs pat \<le> length xs \<and>
   (\<forall>j < std_search xs pat. take (length pat) (drop j xs) \<noteq> pat) \<and>
   (std_search xs pat < length xs \<longrightarrow> take (length pat) (drop (std_search xs pat) xs) = pat)"
proof (induction xs pat rule: std_search.induct)
  case (2 x xs pat)
  then show ?case
    by (auto simp: less_Suc_eq_0_disj)
qed simp

lemma mem_read_unread:
  "holds b bs \<Longrightarrow> mem_read (buffer_mem b) (read_index b) (write_index b - read_index b) = Inr bs"
  using mem_read_holds [of b bs "length bs"] holds_length [of b bs] by simp

text \<open>
  C31. \<open>FindCRLF\<close> and \<open>FindEOL\<close> return the first occurrence in the unread bytes, as an offset in the
  block, and null exactly when there is none.
\<close>

theorem Find_first:
  assumes "holds b bs"
  shows "(\<exists>r. FindCRLF b = Inr r \<and>
      (case r of None \<Rightarrow> \<forall>j. take 2 (drop j bs) \<noteq> [13, 10]
       | Some p \<Rightarrow> \<exists>i. p = read_index b + i \<and> take 2 (drop i bs) = [13, 10] \<and>
                       (\<forall>j < i. take 2 (drop j bs) \<noteq> [13, 10]))) \<and> 
    (\<exists>r. FindEOL b = Inr r \<and>
      (case r of None \<Rightarrow> 10 \<notin> set bs
       | Some p \<Rightarrow> \<exists>i. p = read_index b + i \<and> i < length bs \<and> bs ! i = 10 \<and> 10 \<notin> set (take i bs)))"
proof -
  let ?i = "std_search bs kCRLF"
  have l2: "length kCRLF = 2" by (simp add: kCRLF_def)
  have find: "FindCRLF b = Inr (if read_index b + ?i = write_index b then None
      else Some (read_index b + ?i))"
    by (simp add: FindCRLF_def WriteBegin_def mem_read_unread [OF assms] Let_def)
  have bd: "write_index b = read_index b + length bs" using holds_bounds [OF assms] by simp
  have first: "\<forall>j < ?i. take 2 (drop j bs) \<noteq> [13, 10]" and le: "?i \<le> length bs"
    and hit: "?i < length bs \<longrightarrow> take 2 (drop ?i bs) = [13, 10]"
    using std_search_spec [of bs kCRLF, unfolded l2] by (simp_all add: kCRLF_def)
  have "\<exists>r. FindCRLF b = Inr r \<and>
      (case r of None \<Rightarrow> \<forall>j. take 2 (drop j bs) \<noteq> [13, 10]
       | Some p \<Rightarrow> \<exists>i. p = read_index b + i \<and> take 2 (drop i bs) = [13, 10] \<and>
                       (\<forall>j < i. take 2 (drop j bs) \<noteq> [13, 10]))"
  proof (cases "?i = length bs")
    case True
    then have "take 2 (drop j bs) \<noteq> [13, 10]" for j
      using first by (cases "j < length bs") auto
    then show ?thesis using True by (simp add: find bd)
  next
    case False
    then show ?thesis using first le hit by (auto simp: find bd)
  qed
  moreover have "\<exists>r. FindEOL b = Inr r \<and>
      (case r of None \<Rightarrow> 10 \<notin> set bs
       | Some p \<Rightarrow> \<exists>i. p = read_index b + i \<and> i < length bs \<and> bs ! i = 10 \<and> 10 \<notin> set (take i bs))"
    using mem_read_holds [OF assms, of "length bs"] memchr_spec [of 10 bs]
    by (cases "memchr 10 bs") (auto simp: FindEOL_def buf_length_holds [OF assms])
  ultimately show ?thesis by blast
qed

theorem Find_first_witness:
  "\<exists>b b'. Buffer_new 8 8 = Inr b \<and> Append [65, 13, 10, 66] b = Inr b' \<and>
     (\<exists>r. FindCRLF b' = Inr r \<and> r \<noteq> None)"
proof -
  from Buffer_new_holds [of 8 8] obtain b where
    b: "Buffer_new 8 8 = Inr b" "holds b []" "capacity b = 16" "reserved_prepend_size b = 8"
    by (auto simp: ptrdiff_max_def)
  then obtain b' where b': "Append [65, 13, 10, 66] b = Inr b'" "holds b' [65, 13, 10, 66]"
    using Write_holds [OF b(2), of "[65, 13, 10, 66]"] by (auto simp: Append_def room_def ptrdiff_max_def)
  from Find_first [OF b'(2)] obtain r where r: "FindCRLF b' = Inr r"
    "r = None \<longrightarrow> (\<forall>j. take 2 (drop j [65, 13, 10, 66 :: byte]) \<noteq> [13, 10])"
    by (auto split: option.splits)
  have "take 2 (drop 1 [65, 13, 10, 66 :: byte]) = [13, 10]" by simp
  with r b(1) b'(1) show ?thesis by blast
qed

section \<open>Slices\<close>

text \<open>
  C33. Slices compare as the byte strings they refer to: \<open><\<close> is the lexicographic order on unsigned
  bytes with a prefix first, \<open>==\<close> is equality, \<open>compare\<close> is negative, zero or positive accordingly.
\<close>

theorem Slice_order:
  assumes "slice_rep a xs" "slice_rep b ys"
  shows "slice_less a b = Inr (xs < ys) \<and> slice_eq a b = Inr (xs = ys) \<and>
         slice_neq a b = Inr (xs \<noteq> ys) \<and>
         (\<exists>r. slice_compare a b = Inr r \<and> (r < 0 \<longleftrightarrow> xs < ys) \<and> (r = 0 \<longleftrightarrow> xs = ys))"
  using lex_result_sign [of xs ys]
  by (simp add: slice_less_rep [OF assms] slice_eq_rep [OF assms] slice_compare_rep [OF assms]
      slice_neq_def)

theorem Slice_order_witness:
  "slice_less (Slice_string [1, 2]) (Slice_string [1, 2, 3]) = Inr True \<and>
   slice_less (Slice_string [200]) (Slice_string [100]) = Inr False"
  using Slice_order [OF slice_rep_string slice_rep_string, of "[1, 2]" "[1, 2, 3]"]
    Slice_order [OF slice_rep_string slice_rep_string, of "[200]" "[100]"]
  by simp

end
