(* ===== verification/BufferSim.thy ===== *)
theory BufferSim
  imports BufferProps
begin

text \<open>
  \<open>Buffer\<close> refines a byte queue: the calls of the public interface, what each does to an abstract
  list of unread bytes (\<open>queue_call\<close>), and the simulation along any sequence of calls, failures
  included.
\<close>

section \<open>Calls and their abstract meaning\<close>

datatype call = CWrite "byte list" | CSkip nat | CTruncate nat | CNext nat | CNextAll | CUnwrite nat
  | CRead64 | CRead32 | CRead16 | CRead8 | CLength | CToString | CReset

datatype answer = Done | Bytes "byte list" | Number nat

definition read_num :: "nat \<Rightarrow> (byte list \<Rightarrow> nat) \<Rightarrow> byte list \<Rightarrow> (answer \<times> byte list) res" where
  "read_num n f q = (if length q < n then Inl AssertFailed else Inr (Number (f (take n q)), drop n q))"

fun queue_call :: "call \<Rightarrow> byte list \<Rightarrow> (answer \<times> byte list) res" where
  "queue_call (CWrite xs) q = Inr (Done, q @ xs)"
| "queue_call (CSkip n) q = Inr (Done, drop n q)"
| "queue_call (CTruncate n) q = Inr (Done, take n q)"
| "queue_call (CNext n) q = Inr (Bytes (take n q), drop n q)"
| "queue_call CNextAll q = Inr (Bytes q, [])"
| "queue_call (CUnwrite n) q =
     (if n \<le> length q then Inr (Done, take (length q - n) q) else Inl AssertFailed)"
| "queue_call CRead64 q = read_num 8 (\<lambda>bs. unat (be_word bs :: u64)) q"
| "queue_call CRead32 q = read_num 4 (\<lambda>bs. unat (be_word bs :: u32)) q"
| "queue_call CRead16 q = read_num 2 (\<lambda>bs. unat (be_word bs :: u16)) q"
| "queue_call CRead8 q = read_num 1 (\<lambda>bs. unat (bs ! 0)) q"
| "queue_call CLength q = Inr (Number (length q), q)"
| "queue_call CToString q = Inr (Bytes q, q)"
| "queue_call CReset q = Inr (Done, [])"

section \<open>The calls on a buffer\<close>

definition done_r :: "buffer res \<Rightarrow> (answer \<times> buffer) res" where
  "done_r r = bind_r r (\<lambda>b. Inr (Done, b))"

definition num_r :: "('a::len word \<times> buffer) res \<Rightarrow> (answer \<times> buffer) res" where
  "num_r r = bind_r r (\<lambda>(x, b). Inr (Number (unat x), b))"

fun buffer_call :: "call \<Rightarrow> buffer \<Rightarrow> (answer \<times> buffer) res" where
  "buffer_call (CWrite xs) b = done_r (Write (map Some xs) b)"
| "buffer_call (CSkip n) b = done_r (Skip n b)"
| "buffer_call (CTruncate n) b = done_r (Inr (Truncate n b))"
| "buffer_call (CNext n) b = bind_r (NextString n b) (\<lambda>(bs, b). Inr (Bytes bs, b))"
| "buffer_call CNextAll b = bind_r (NextAllString b) (\<lambda>(bs, b). Inr (Bytes bs, b))"
| "buffer_call (CUnwrite n) b = done_r (UnwriteBytes n b)"
| "buffer_call CRead64 b = num_r (ReadInt64 b)"
| "buffer_call CRead32 b = num_r (ReadInt32 b)"
| "buffer_call CRead16 b = num_r (ReadInt16 b)"
| "buffer_call CRead8 b = num_r (ReadInt8 b)"
| "buffer_call CLength b = bind_r (buf_length b) (\<lambda>n. Inr (Number n, b))"
| "buffer_call CToString b = bind_r (buf_ToString b) (\<lambda>bs. Inr (Bytes bs, b))"
| "buffer_call CReset b = done_r (Inr (Reset b))"

fun run_calls :: "(call \<Rightarrow> 's \<Rightarrow> (answer \<times> 's) res) \<Rightarrow> call list \<Rightarrow> 's \<Rightarrow> (answer list \<times> 's) res" where
  "run_calls f [] s = Inr ([], s)"
| "run_calls f (k # ks) s =
     bind_r (f k s) (\<lambda>(a, s). bind_r (run_calls f ks s) (\<lambda>(as, s). Inr (a # as, s)))"

section \<open>One call\<close>

text \<open>\<open>sim r s\<close>: the same failure, or the same answer and a buffer that holds the queue.\<close>

definition sim :: "(answer \<times> buffer) res \<Rightarrow> (answer \<times> byte list) res \<Rightarrow> bool" where
  "sim r s \<longleftrightarrow> (case s of Inl e \<Rightarrow> r = Inl e | Inr (a, q) \<Rightarrow> \<exists>b. r = Inr (a, b) \<and> holds b q)"

lemma sim_simps [simp]:
  "sim r (Inl e) \<longleftrightarrow> r = Inl e"
  "sim r (Inr (a, q)) \<longleftrightarrow> (\<exists>b. r = Inr (a, b) \<and> holds b q)"
  by (simp_all add: sim_def)

text \<open>What the call writes, and what it may ask for: a bound keeps indices from wrapping.\<close>

fun written :: "call \<Rightarrow> nat" where
  "written (CWrite xs) = length xs"
| "written k = 0"

fun in_range :: "call \<Rightarrow> bool" where
  "in_range (CTruncate n) \<longleftrightarrow> n < 2 ^ 63"
| "in_range k \<longleftrightarrow> True"

lemma call_sim:
  assumes h: "holds b q" and "room b (written k)" "in_range k"
  shows "sim (buffer_call k b) (queue_call k q)"
proof (cases k)
  case (CWrite xs)
  then show ?thesis using Write_holds [OF h, of xs] assms(2) by (auto simp: done_r_def)
next
  case (CSkip n)
  then show ?thesis using Skip_holds [OF h, of n] by (auto simp: done_r_def)
next
  case (CTruncate n)
  have "read_index b + n < 2 ^ 64"
    using holds_bounds [OF h] CTruncate assms(3) by (simp add: ptrdiff_max_def)
  from Truncate_holds [OF h this] CTruncate show ?thesis by (simp add: done_r_def)
next
  case (CNext n)
  then show ?thesis using NextString_holds [OF h, of n] by auto
next
  case CNextAll
  have "mem_read (buf_data b) 0 (length q) = Inr q"
    using buf_slice [OF h order.refl] by (simp add: slice_rep_def Slice_ptr_def mem_read_def)
  then show ?thesis using CNextAll Reset_holds [OF holds_inv [OF h]]
    by (simp add: NextAllString_def NextAll_def buf_length_holds [OF h] Slice_ptr_def)
next
  case (CUnwrite n)
  then show ?thesis using UnwriteBytes_holds [OF h, of n]
    by (auto simp: done_r_def UnwriteBytes_def buf_length_holds [OF h])
next
  case CRead64
  then show ?thesis using ReadInt64_holds [OF h] Peek_short(1) [OF h]
    by (cases "length q < 8") (auto simp: num_r_def read_num_def ReadInt64_def)
next
  case CRead32
  then show ?thesis using ReadInt32_holds [OF h] Peek_short(2) [OF h]
    by (cases "length q < 4") (auto simp: num_r_def read_num_def ReadInt32_def)
next
  case CRead16
  then show ?thesis using ReadInt16_holds [OF h] Peek_short(3) [OF h]
    by (cases "length q < 2") (auto simp: num_r_def read_num_def ReadInt16_def)
next
  case CRead8
  then show ?thesis using ReadInt8_holds [OF h] Peek_short(4) [OF h]
    by (cases "length q < 1") (auto simp: num_r_def read_num_def ReadInt8_def)
next
  case CReset
  then show ?thesis using Reset_holds [OF holds_inv [OF h]] by (simp add: done_r_def)
qed (use h in \<open>simp_all add: buf_length_holds buf_ToString_holds\<close>)

text \<open>No call shrinks or moves the reserve, and only a write can grow the block.\<close>

definition framed :: "buffer \<Rightarrow> buffer \<Rightarrow> bool" where
  "framed b b' \<longleftrightarrow> capacity b' = capacity b \<and> reserved_prepend_size b' = reserved_prepend_size b"

lemma framed_simps [simp]: "framed b b" "framed b (Truncate n b)" "framed b (Reset b)"
  by (simp_all add: framed_def Truncate_def)

lemma read_frame:
  "Skip n b = Inr b' \<Longrightarrow> framed b b'" "UnwriteBytes n b = Inr b' \<Longrightarrow> framed b b'"
  "NextString n b = Inr (x, b') \<Longrightarrow> framed b b'" "NextAllString b = Inr (x, b') \<Longrightarrow> framed b b'"
  by (auto simp: framed_def Skip_def UnwriteBytes_def NextString_def Next_def NextAllString_def
      NextAll_def bind_r_eq_Inr Let_def split: if_splits)

lemma int_frame:
  "ReadInt64 b = Inr (x8, b') \<Longrightarrow> framed b b'" "ReadInt32 b = Inr (x4, b') \<Longrightarrow> framed b b'"
  "ReadInt16 b = Inr (x2, b') \<Longrightarrow> framed b b'" "ReadInt8 b = Inr (x1, b') \<Longrightarrow> framed b b'"
  by (auto simp: ReadInt64_def ReadInt32_def ReadInt16_def ReadInt8_def bind_r_eq_Inr dest: read_frame(1))

lemma call_capacity:
  assumes h: "holds b q" and "room b (written k)" "buffer_call k b = Inr (a, b')"
  shows "capacity b' \<le> 2 * capacity b + written k \<and> reserved_prepend_size b' = reserved_prepend_size b"
proof (cases "\<exists>xs. k = CWrite xs")
  case True
  then show ?thesis using Write_holds [OF h] assms(2,3)
    by (fastforce simp: done_r_def grown_def bind_r_eq_Inr)
next
  case False
  then have "framed b b'" using assms(3)
    by (cases k) (auto simp: done_r_def num_r_def bind_r_eq_Inr dest: read_frame int_frame)
  then show ?thesis by (simp add: framed_def)
qed

section \<open>Sequences of calls\<close>



end
