(* ===== verification/Md5.thy ===== *)
theory Md5
  imports Prelude
begin

text \<open>
  The \<open>MD5\<close> class (\<open>cim/crypt/md5.h\<close>, \<open>md5.cpp\<close>), which hashes passwords before they leave the
  client. The code computes on \<open>ulong\<close>, a typedef of \<open>unsigned long\<close>, whose width is 32 bits on
  Windows and 64 on the LP64 systems (macOS, Linux) the README builds for. The model is generic in
  that width: \<open>'u\<close> is the type of the bits of \<open>ulong\<close>, \<open>sizeof(ulong)\<close> its length over 8, and
  every shift, mask and \<open>memcpy\<close> is written as in the source. The four macros and the 64 steps
  are transcribed one to one. Inputs are shorter than the range of \<open>ulong\<close>, so the loop
  counter \<open>i\<close> of \<open>update\<close> is a \<open>nat\<close>.
\<close>

section \<open>State\<close>

record (overloaded) 'u md5 =
  md_state :: "'u::len word list"
  md_count :: "'u word list"
  md_buffer :: memory
  md_digest :: memory
  md_finished :: bool

definition PADDING :: "byte list" where
  "PADDING = 0x80 # replicate 63 0"

text \<open>The digits \<open>0\<close> to \<open>9\<close> and \<open>a\<close> to \<open>f\<close> in ASCII.\<close>

definition HEX :: "byte list" where
  "HEX = [48, 49, 50, 51, 52, 53, 54, 55, 56, 57, 97, 98, 99, 100, 101, 102]"

definition BUFFER_SIZE :: nat where "BUFFER_SIZE = 1024"

definition sizeof_ulong :: "'u::len itself \<Rightarrow> nat" where
  "sizeof_ulong _ = LENGTH('u) div 8"

text \<open>\<open>memcpy(dst, src, n)\<close> between arrays of \<open>ulong\<close>: it moves \<open>n / sizeof(ulong)\<close> elements.\<close>

definition memcpy_ulong :: "'u::len word list \<Rightarrow> 'u word list \<Rightarrow> nat \<Rightarrow> 'u word list" where
  "memcpy_ulong dst src n =
     (let k = n div sizeof_ulong TYPE('u) in take k src @ drop k dst)"

section \<open>The basic functions\<close>

definition F :: "'u::len word \<Rightarrow> 'u word \<Rightarrow> 'u word \<Rightarrow> 'u word" where
  "F x y z = (x AND y) OR (NOT x AND z)"
definition G :: "'u::len word \<Rightarrow> 'u word \<Rightarrow> 'u word \<Rightarrow> 'u word" where
  "G x y z = (x AND z) OR (y AND NOT z)"
definition H :: "'u::len word \<Rightarrow> 'u word \<Rightarrow> 'u word \<Rightarrow> 'u word" where
  "H x y z = x XOR y XOR z"
definition I :: "'u::len word \<Rightarrow> 'u word \<Rightarrow> 'u word \<Rightarrow> 'u word" where
  "I x y z = y XOR (x OR NOT z)"

definition ROTATE_LEFT :: "'u::len word \<Rightarrow> nat \<Rightarrow> 'u word" where
  "ROTATE_LEFT x n = push_bit n x OR drop_bit (32 - n) x"

text \<open>The macros assign to their first argument; the definitions return its new value.\<close>

definition FF :: "'u::len word \<Rightarrow> 'u word \<Rightarrow> 'u word \<Rightarrow> 'u word \<Rightarrow> 'u word \<Rightarrow> nat \<Rightarrow> 'u word \<Rightarrow> 'u word" where
  "FF a b c d x s ac =
     (let a = a + (F b c d + x + ac); a = ROTATE_LEFT a s in a + b)"

definition GG :: "'u::len word \<Rightarrow> 'u word \<Rightarrow> 'u word \<Rightarrow> 'u word \<Rightarrow> 'u word \<Rightarrow> nat \<Rightarrow> 'u word \<Rightarrow> 'u word" where
  "GG a b c d x s ac =
     (let a = a + (G b c d + x + ac); a = ROTATE_LEFT a s in a + b)"

definition HH :: "'u::len word \<Rightarrow> 'u word \<Rightarrow> 'u word \<Rightarrow> 'u word \<Rightarrow> 'u word \<Rightarrow> nat \<Rightarrow> 'u word \<Rightarrow> 'u word" where
  "HH a b c d x s ac =
     (let a = a + (H b c d + x + ac); a = ROTATE_LEFT a s in a + b)"

definition II :: "'u::len word \<Rightarrow> 'u word \<Rightarrow> 'u word \<Rightarrow> 'u word \<Rightarrow> 'u word \<Rightarrow> nat \<Rightarrow> 'u word \<Rightarrow> 'u word" where
  "II a b c d x s ac =
     (let a = a + (I b c d + x + ac); a = ROTATE_LEFT a s in a + b)"

section \<open>The block transformation\<close>

type_synonym 'u abcd = "'u word \<times> 'u word \<times> 'u word \<times> 'u word"

definition round1 :: "'u::len word list \<Rightarrow> 'u abcd \<Rightarrow> 'u abcd" where
  "round1 x = (\<lambda>(a, b, c, d).
     let a = FF a b c d (x ! 0) 7 0xd76aa478;
         d = FF d a b c (x ! 1) 12 0xe8c7b756;
         c = FF c d a b (x ! 2) 17 0x242070db;
         b = FF b c d a (x ! 3) 22 0xc1bdceee;
         a = FF a b c d (x ! 4) 7 0xf57c0faf;
         d = FF d a b c (x ! 5) 12 0x4787c62a;
         c = FF c d a b (x ! 6) 17 0xa8304613;
         b = FF b c d a (x ! 7) 22 0xfd469501;
         a = FF a b c d (x ! 8) 7 0x698098d8;
         d = FF d a b c (x ! 9) 12 0x8b44f7af;
         c = FF c d a b (x ! 10) 17 0xffff5bb1;
         b = FF b c d a (x ! 11) 22 0x895cd7be;
         a = FF a b c d (x ! 12) 7 0x6b901122;
         d = FF d a b c (x ! 13) 12 0xfd987193;
         c = FF c d a b (x ! 14) 17 0xa679438e;
         b = FF b c d a (x ! 15) 22 0x49b40821
     in (a, b, c, d))"

definition round2 :: "'u::len word list \<Rightarrow> 'u abcd \<Rightarrow> 'u abcd" where
  "round2 x = (\<lambda>(a, b, c, d).
     let a = GG a b c d (x ! 1) 5 0xf61e2562;
         d = GG d a b c (x ! 6) 9 0xc040b340;
         c = GG c d a b (x ! 11) 14 0x265e5a51;
         b = GG b c d a (x ! 0) 20 0xe9b6c7aa;
         a = GG a b c d (x ! 5) 5 0xd62f105d;
         d = GG d a b c (x ! 10) 9 0x2441453;
         c = GG c d a b (x ! 15) 14 0xd8a1e681;
         b = GG b c d a (x ! 4) 20 0xe7d3fbc8;
         a = GG a b c d (x ! 9) 5 0x21e1cde6;
         d = GG d a b c (x ! 14) 9 0xc33707d6;
         c = GG c d a b (x ! 3) 14 0xf4d50d87;
         b = GG b c d a (x ! 8) 20 0x455a14ed;
         a = GG a b c d (x ! 13) 5 0xa9e3e905;
         d = GG d a b c (x ! 2) 9 0xfcefa3f8;
         c = GG c d a b (x ! 7) 14 0x676f02d9;
         b = GG b c d a (x ! 12) 20 0x8d2a4c8a
     in (a, b, c, d))"

definition round3 :: "'u::len word list \<Rightarrow> 'u abcd \<Rightarrow> 'u abcd" where
  "round3 x = (\<lambda>(a, b, c, d).
     let a = HH a b c d (x ! 5) 4 0xfffa3942;
         d = HH d a b c (x ! 8) 11 0x8771f681;
         c = HH c d a b (x ! 11) 16 0x6d9d6122;
         b = HH b c d a (x ! 14) 23 0xfde5380c;
         a = HH a b c d (x ! 1) 4 0xa4beea44;
         d = HH d a b c (x ! 4) 11 0x4bdecfa9;
         c = HH c d a b (x ! 7) 16 0xf6bb4b60;
         b = HH b c d a (x ! 10) 23 0xbebfbc70;
         a = HH a b c d (x ! 13) 4 0x289b7ec6;
         d = HH d a b c (x ! 0) 11 0xeaa127fa;
         c = HH c d a b (x ! 3) 16 0xd4ef3085;
         b = HH b c d a (x ! 6) 23 0x4881d05;
         a = HH a b c d (x ! 9) 4 0xd9d4d039;
         d = HH d a b c (x ! 12) 11 0xe6db99e5;
         c = HH c d a b (x ! 15) 16 0x1fa27cf8;
         b = HH b c d a (x ! 2) 23 0xc4ac5665
     in (a, b, c, d))"

definition round4 :: "'u::len word list \<Rightarrow> 'u abcd \<Rightarrow> 'u abcd" where
  "round4 x = (\<lambda>(a, b, c, d).
     let a = II a b c d (x ! 0) 6 0xf4292244;
         d = II d a b c (x ! 7) 10 0x432aff97;
         c = II c d a b (x ! 14) 15 0xab9423a7;
         b = II b c d a (x ! 5) 21 0xfc93a039;
         a = II a b c d (x ! 12) 6 0x655b59c3;
         d = II d a b c (x ! 3) 10 0x8f0ccc92;
         c = II c d a b (x ! 10) 15 0xffeff47d;
         b = II b c d a (x ! 1) 21 0x85845dd1;
         a = II a b c d (x ! 8) 6 0x6fa87e4f;
         d = II d a b c (x ! 15) 10 0xfe2ce6e0;
         c = II c d a b (x ! 6) 15 0xa3014314;
         b = II b c d a (x ! 13) 21 0x4e0811a1;
         a = II a b c d (x ! 4) 6 0xf7537e82;
         d = II d a b c (x ! 11) 10 0xbd3af235;
         c = II c d a b (x ! 2) 15 0x2ad7d2bb;
         b = II b c d a (x ! 9) 21 0xeb86d391
     in (a, b, c, d))"

text \<open>\<open>encode\<close> and \<open>decode\<close> with the length in bytes, a multiple of 4.\<close>

definition md5_encode :: "'u::len word list \<Rightarrow> nat \<Rightarrow> byte list" where
  "md5_encode input len =
     concat (map (\<lambda>i. let w = input ! i in
       [ucast (w AND 0xff), ucast (drop_bit 8 w AND 0xff),
        ucast (drop_bit 16 w AND 0xff), ucast (drop_bit 24 w AND 0xff)]) [0..<len div 4])"

definition md5_decode :: "byte list \<Rightarrow> nat \<Rightarrow> 'u::len word list" where
  "md5_decode input len =
     map (\<lambda>i. let j = 4 * i in
       ucast (input ! j) OR push_bit 8 (ucast (input ! (j + 1))) OR
       push_bit 16 (ucast (input ! (j + 2))) OR push_bit 24 (ucast (input ! (j + 3)))) [0..<len div 4]"

definition transform :: "byte list \<Rightarrow> 'u::len word list \<Rightarrow> 'u word list" where
  "transform block st =
     (let x = md5_decode block 64;
          (a, b, c, d) = round4 x (round3 x (round2 x (round1 x (st ! 0, st ! 1, st ! 2, st ! 3))))
      in [st ! 0 + a, st ! 1 + b, st ! 2 + c, st ! 3 + d])"

section \<open>Member functions\<close>

definition md5_reset :: "'u::len md5 \<Rightarrow> 'u md5" where
  "md5_reset m =
     m\<lparr>md_finished := False, md_count := [0, 0],
       md_state := [0x67452301, 0xefcdab89, 0x98badcfe, 0x10325476]\<rparr>"

text \<open>\<open>MD5()\<close>: the arrays are not initialised before \<open>reset\<close>, which sets two of them.\<close>

definition MD5 :: "'u::len md5" where
  "MD5 = md5_reset \<lparr>md_state = [], md_count = [], md_buffer = replicate 64 None,
                    md_digest = replicate 16 None, md_finished = False\<rparr>"

function transform_loop :: "byte list \<Rightarrow> nat \<Rightarrow> 'u::len word list \<Rightarrow> nat \<times> 'u word list" where
  "transform_loop input i st =
     (if i + 63 < length input
      then transform_loop input (i + 64) (transform (take 64 (drop i input)) st)
      else (i, st))"
  by pat_completeness auto
termination
  by (relation "measure (\<lambda>(input, i, st). length input - i)") auto

declare transform_loop.simps [simp del]

definition md5_update :: "byte list \<Rightarrow> 'u::len md5 \<Rightarrow> 'u md5 res" where
  "md5_update input m =
     (let len = (of_nat (length input) :: 'u word);
          index = unat (drop_bit 3 (md_count m ! 0) AND 0x3f);
          c0 = md_count m ! 0 + push_bit 3 len;
          c1 = (if c0 < push_bit 3 len then md_count m ! 1 + 1 else md_count m ! 1);
          m = m\<lparr>md_finished := False, md_count := [c0, c1 + drop_bit 29 len]\<rparr>;
          partLen = 64 - index in
      if length input \<ge> partLen then
        bind_r (mem_put (md_buffer m) index (map Some (take partLen input))) (\<lambda>buf.
        bind_r (mem_read buf 0 64) (\<lambda>block.
        let (i, st) = transform_loop input partLen (transform block (md_state m)) in
        bind_r (mem_put buf 0 (map Some (drop i input))) (\<lambda>buf'.
        Inr (m\<lparr>md_state := st, md_buffer := buf'\<rparr>))))
      else
        bind_r (mem_put (md_buffer m) index (map Some input)) (\<lambda>buf'.
        Inr (m\<lparr>md_buffer := buf'\<rparr>)))"

definition md5_final :: "'u::len md5 \<Rightarrow> 'u md5 res" where
  "md5_final m =
     (let oldState = memcpy_ulong (replicate 4 0) (md_state m) 16;
          oldCount = memcpy_ulong (replicate 2 0) (md_count m) 8;
          bits = md5_encode (md_count m) 8;
          index = unat (drop_bit 3 (md_count m ! 0) AND 0x3f);
          padLen = (if index < 56 then 56 - index else 120 - index) in
      bind_r (md5_update (take padLen PADDING) m) (\<lambda>m1.
      bind_r (md5_update bits m1) (\<lambda>m2.
      Inr (m2\<lparr>md_digest := map Some (md5_encode (md_state m2) 16),
              md_state := memcpy_ulong (md_state m2) oldState 16,
              md_count := memcpy_ulong (md_count m2) oldCount 8\<rparr>))))"

definition md5_digest :: "'u::len md5 \<Rightarrow> (memory \<times> 'u md5) res" where
  "md5_digest m =
     bind_r (if \<not> md_finished m then md5_final (m\<lparr>md_finished := True\<rparr>) else Inr m) (\<lambda>m'.
     Inr (md_digest m', m'))"

definition bytesToHexString :: "byte list \<Rightarrow> byte list" where
  "bytesToHexString input =
     concat (map (\<lambda>t. [HEX ! (unat t div 16), HEX ! (unat t mod 16)]) input)"

definition md5_toString :: "'u::len md5 \<Rightarrow> (byte list \<times> 'u md5) res" where
  "md5_toString m =
     bind_r (md5_digest m) (\<lambda>(d, m').
     bind_r (mem_read d 0 16) (\<lambda>bs. Inr (bytesToHexString bs, m')))"

section \<open>Files\<close>

text \<open>
  The stream is the content still to be read. \<open>read\<close> takes up to \<open>BUFFER_SIZE\<close> bytes and sets
  the end-of-file flag when it could not take them all.
\<close>

function md5_read_loop :: "byte list \<Rightarrow> 'u::len md5 \<Rightarrow> 'u md5 res" where
  "md5_read_loop content m =
     (let chunk = take BUFFER_SIZE content; eof = (length content < BUFFER_SIZE) in
      bind_r (if length chunk > 0 then md5_update chunk m else Inr m) (\<lambda>m'.
      if eof then Inr m' else md5_read_loop (drop BUFFER_SIZE content) m'))"
  by pat_completeness auto
termination
  by (relation "measure (\<lambda>(content, m). length content)") (auto simp: BUFFER_SIZE_def)

declare md5_read_loop.simps [simp del]

definition md5_update_file :: "byte list option \<Rightarrow> 'u::len md5 \<Rightarrow> 'u md5 res" where
  "md5_update_file stream m =
     (case stream of None \<Rightarrow> Inr m | Some content \<Rightarrow> md5_read_loop content m)"

text \<open>The other constructors.\<close>

definition MD5_bytes :: "byte list \<Rightarrow> 'u::len md5 res" where
  "MD5_bytes input = md5_update input MD5"

definition MD5_string :: "byte list \<Rightarrow> 'u::len md5 res" where
  "MD5_string str = md5_update str MD5"

definition MD5_file :: "byte list option \<Rightarrow> 'u::len md5 res" where
  "MD5_file stream = md5_update_file stream MD5"

definition FileDigest :: "'u::len itself \<Rightarrow> byte list option \<Rightarrow> byte list res" where
  "FileDigest _ stream =
     (case stream of
        None \<Rightarrow> Inr []
      | Some content \<Rightarrow>
          bind_r (md5_update_file (Some content) (MD5 :: 'u md5)) (\<lambda>m.
          bind_r (md5_toString m) (\<lambda>(s, _). Inr s)))"

text \<open>The three lines every caller uses: \<open>MD5 md; md.update(str); md.toString()\<close>.\<close>

definition md5_hex :: "'u::len itself \<Rightarrow> byte list \<Rightarrow> byte list res" where
  "md5_hex _ str =
     bind_r (md5_update str (MD5 :: 'u md5)) (\<lambda>m.
     bind_r (md5_toString m) (\<lambda>(s, _). Inr s))"

end
