(* ===== verification/Md5Spec.thy ===== *)
theory Md5Spec
  imports Md5
begin

text \<open>
  The message digest of RFC 1321, stated independently of the code: one step function indexed by
  the step number, the table of constants, the padding rule, the fold over 64-byte blocks. The
  lemmas show that the code's 64 unrolled macro calls compute this compression function when
  \<open>ulong\<close> has 32 bits; they go through \<open>md5_step\<close>, one macro call as a function on the four
  registers.
\<close>

section \<open>The reference\<close>

definition rfc_S :: "nat list" where
  "rfc_S = concat (map (\<lambda>r. concat (replicate 4 r)) [[7, 12, 17, 22], [5, 9, 14, 20], [4, 11, 16, 23], [6, 10, 15, 21]])"

definition rfc_K :: "u32 list" where
  "rfc_K = [
   0xd76aa478, 0xe8c7b756, 0x242070db, 0xc1bdceee,
   0xf57c0faf, 0x4787c62a, 0xa8304613, 0xfd469501,
   0x698098d8, 0x8b44f7af, 0xffff5bb1, 0x895cd7be,
   0x6b901122, 0xfd987193, 0xa679438e, 0x49b40821,
   0xf61e2562, 0xc040b340, 0x265e5a51, 0xe9b6c7aa,
   0xd62f105d, 0x2441453, 0xd8a1e681, 0xe7d3fbc8,
   0x21e1cde6, 0xc33707d6, 0xf4d50d87, 0x455a14ed,
   0xa9e3e905, 0xfcefa3f8, 0x676f02d9, 0x8d2a4c8a,
   0xfffa3942, 0x8771f681, 0x6d9d6122, 0xfde5380c,
   0xa4beea44, 0x4bdecfa9, 0xf6bb4b60, 0xbebfbc70,
   0x289b7ec6, 0xeaa127fa, 0xd4ef3085, 0x4881d05,
   0xd9d4d039, 0xe6db99e5, 0x1fa27cf8, 0xc4ac5665,
   0xf4292244, 0x432aff97, 0xab9423a7, 0xfc93a039,
   0x655b59c3, 0x8f0ccc92, 0xffeff47d, 0x85845dd1,
   0x6fa87e4f, 0xfe2ce6e0, 0xa3014314, 0x4e0811a1,
   0xf7537e82, 0xbd3af235, 0x2ad7d2bb, 0xeb86d391]"

definition rfc_f :: "nat \<Rightarrow> u32 \<Rightarrow> u32 \<Rightarrow> u32 \<Rightarrow> u32" where
  "rfc_f i b c d =
     (if i < 16 then (b AND c) OR (NOT b AND d)
      else if i < 32 then (d AND b) OR (NOT d AND c)
      else if i < 48 then b XOR c XOR d
      else c XOR (b OR NOT d))"

definition rfc_g :: "nat \<Rightarrow> nat" where
  "rfc_g i =
     (if i < 16 then i
      else if i < 32 then (5 * i + 1) mod 16
      else if i < 48 then (3 * i + 5) mod 16
      else (7 * i) mod 16)"

definition rfc_step :: "u32 list \<Rightarrow> nat \<Rightarrow> 32 abcd \<Rightarrow> 32 abcd" where
  "rfc_step x i = (\<lambda>(a, b, c, d).
     (d, b + word_rotl (rfc_S ! i) (a + rfc_f i b c d + x ! rfc_g i + rfc_K ! i), b, c))"

definition rfc_compress :: "byte list \<Rightarrow> u32 list \<Rightarrow> u32 list" where
  "rfc_compress block st =
     (let x = map (\<lambda>i. le_word (take 4 (drop (4 * i) block))) [0..<16];
          (a, b, c, d) = fold (rfc_step x) [0..<64] (st ! 0, st ! 1, st ! 2, st ! 3)
      in [st ! 0 + a, st ! 1 + b, st ! 2 + c, st ! 3 + d])"

text \<open>The bytes appended to a message of \<open>n\<close> bytes: a one bit, zeros, the bit length.\<close>

definition rfc_padding :: "nat \<Rightarrow> byte list" where
  "rfc_padding n =
     0x80 # replicate ((119 - n mod 64) mod 64) 0 @ le_bytes (of_nat (8 * n) :: u64)"

function rfc_fold :: "(byte list \<Rightarrow> u32 list \<Rightarrow> u32 list) \<Rightarrow> u32 list \<Rightarrow> byte list \<Rightarrow> u32 list" where
  "rfc_fold f st msg =
     (if 64 \<le> length msg then rfc_fold f (f (take 64 msg) st) (drop 64 msg) else st)"
  by pat_completeness auto
termination
  by (relation "measure (\<lambda>(f, st, msg). length msg)") auto

declare rfc_fold.simps [simp del]

definition rfc_init :: "u32 list" where
  "rfc_init = [0x67452301, 0xefcdab89, 0x98badcfe, 0x10325476]"

definition rfc_digest :: "byte list \<Rightarrow> byte list" where
  "rfc_digest msg =
     concat (map le_bytes (rfc_fold rfc_compress rfc_init (msg @ rfc_padding (length msg))))"

definition hex_digit :: "nat \<Rightarrow> byte" where
  "hex_digit n = (if n < 10 then of_nat (48 + n) else of_nat (87 + n))"

definition rfc_hex :: "byte list \<Rightarrow> byte list" where
  "rfc_hex msg =
     concat (map (\<lambda>t. [hex_digit (unat t div 16), hex_digit (unat t mod 16)]) (rfc_digest msg))"

section \<open>The rounds as folds\<close>

fun md5_step :: "('u::len word \<Rightarrow> 'u word \<Rightarrow> 'u word \<Rightarrow> 'u word \<Rightarrow> 'u word \<Rightarrow> nat \<Rightarrow> 'u word \<Rightarrow> 'u word)
    \<Rightarrow> 'u word list \<Rightarrow> nat \<times> nat \<times> 'u word \<Rightarrow> 'u abcd \<Rightarrow> 'u abcd" where
  "md5_step f x (k, s, ac) (a, b, c, d) = (d, f a b c d (x ! k) s ac, b, c)"

definition table1 :: "(nat \<times> nat \<times> 'u::len word) list" where
  "table1 = [
    (0, 7, 0xd76aa478), (1, 12, 0xe8c7b756), (2, 17, 0x242070db), (3, 22, 0xc1bdceee),
    (4, 7, 0xf57c0faf), (5, 12, 0x4787c62a), (6, 17, 0xa8304613), (7, 22, 0xfd469501),
    (8, 7, 0x698098d8), (9, 12, 0x8b44f7af), (10, 17, 0xffff5bb1), (11, 22, 0x895cd7be),
    (12, 7, 0x6b901122), (13, 12, 0xfd987193), (14, 17, 0xa679438e), (15, 22, 0x49b40821)]"
definition table2 :: "(nat \<times> nat \<times> 'u::len word) list" where
  "table2 = [
    (1, 5, 0xf61e2562), (6, 9, 0xc040b340), (11, 14, 0x265e5a51), (0, 20, 0xe9b6c7aa),
    (5, 5, 0xd62f105d), (10, 9, 0x2441453), (15, 14, 0xd8a1e681), (4, 20, 0xe7d3fbc8),
    (9, 5, 0x21e1cde6), (14, 9, 0xc33707d6), (3, 14, 0xf4d50d87), (8, 20, 0x455a14ed),
    (13, 5, 0xa9e3e905), (2, 9, 0xfcefa3f8), (7, 14, 0x676f02d9), (12, 20, 0x8d2a4c8a)]"
definition table3 :: "(nat \<times> nat \<times> 'u::len word) list" where
  "table3 = [
    (5, 4, 0xfffa3942), (8, 11, 0x8771f681), (11, 16, 0x6d9d6122), (14, 23, 0xfde5380c),
    (1, 4, 0xa4beea44), (4, 11, 0x4bdecfa9), (7, 16, 0xf6bb4b60), (10, 23, 0xbebfbc70),
    (13, 4, 0x289b7ec6), (0, 11, 0xeaa127fa), (3, 16, 0xd4ef3085), (6, 23, 0x4881d05),
    (9, 4, 0xd9d4d039), (12, 11, 0xe6db99e5), (15, 16, 0x1fa27cf8), (2, 23, 0xc4ac5665)]"
definition table4 :: "(nat \<times> nat \<times> 'u::len word) list" where
  "table4 = [
    (0, 6, 0xf4292244), (7, 10, 0x432aff97), (14, 15, 0xab9423a7), (5, 21, 0xfc93a039),
    (12, 6, 0x655b59c3), (3, 10, 0x8f0ccc92), (10, 15, 0xffeff47d), (1, 21, 0x85845dd1),
    (8, 6, 0x6fa87e4f), (15, 10, 0xfe2ce6e0), (6, 15, 0xa3014314), (13, 21, 0x4e0811a1),
    (4, 6, 0xf7537e82), (11, 10, 0xbd3af235), (2, 15, 0x2ad7d2bb), (9, 21, 0xeb86d391)]"

text \<open>
  The unrolled rounds name the result of each macro call; \<open>let_eqI\<close> gives each a fresh variable,
  so that the two sides are compared without expanding the nested calls.
\<close>

lemma let_eqI: "(\<And>v. e = v \<Longrightarrow> f v = r) \<Longrightarrow> Let e f = r"
  by (simp add: Let_def)

lemma round1_fold: "round1 x (a, b, c, d) = fold (md5_step FF x) table1 (a, b, c, d)"
  unfolding round1_def table1_def prod.case
  by ((rule let_eqI)+, simp (no_asm_simp) only: fold_simps md5_step.simps)

lemma round2_fold: "round2 x (a, b, c, d) = fold (md5_step GG x) table2 (a, b, c, d)"
  unfolding round2_def table2_def prod.case
  by ((rule let_eqI)+, simp (no_asm_simp) only: fold_simps md5_step.simps)

lemma round3_fold: "round3 x (a, b, c, d) = fold (md5_step HH x) table3 (a, b, c, d)"
  unfolding round3_def table3_def prod.case
  by ((rule let_eqI)+, simp (no_asm_simp) only: fold_simps md5_step.simps)

lemma round4_fold: "round4 x (a, b, c, d) = fold (md5_step II x) table4 (a, b, c, d)"
  unfolding round4_def table4_def prod.case
  by ((rule let_eqI)+, simp (no_asm_simp) only: fold_simps md5_step.simps)

lemmas rounds_fold = round1_fold round2_fold round3_fold round4_fold

end
