(* ===== verification/Md5Stream.thy ===== *)
theory Md5Stream
  imports Md5Laws
begin

text \<open>
  \<open>md5_rep m msg\<close>: with a 32-bit \<open>ulong\<close>, \<open>m\<close> has absorbed \<open>msg\<close>. Every \<open>update\<close> extends the
  message, whatever the split into calls, and \<open>final\<close> completes it by the padding of the RFC.
\<close>

section \<open>The block fold\<close>

lemma rfc_fold_short [simp]: "length msg < 64 \<Longrightarrow> rfc_fold f st msg = st"
  by (subst rfc_fold.simps) simp

lemma rfc_fold_block:
  "length a = 64 \<Longrightarrow> rfc_fold f st (a @ b) = rfc_fold f (f a st) b"
  by (subst rfc_fold.simps) simp

lemma rfc_fold_append:
  "64 dvd length a \<Longrightarrow> rfc_fold f st (a @ b) = rfc_fold f (rfc_fold f st a) b"
proof (induction f st a rule: rfc_fold.induct)
  case (1 f st a)
  show ?case
  proof (cases "64 \<le> length a")
    case True
    have "64 dvd length (drop 64 a)" using "1.prems" True by (simp add: dvd_diff_nat)
    from "1.IH" [OF True this]
    have "rfc_fold f (f (take 64 a) st) (drop 64 a @ b)
          = rfc_fold f (rfc_fold f (f (take 64 a) st) (drop 64 a)) b" .
    moreover have "rfc_fold f st (a @ b) = rfc_fold f (f (take 64 a) st) (drop 64 a @ b)"
      using True by (subst rfc_fold.simps) simp
    moreover have "rfc_fold f st a = rfc_fold f (f (take 64 a) st) (drop 64 a)"
      using True by (subst rfc_fold.simps) simp
    ultimately show ?thesis by simp
  next
    case False
    then have "length a = 0" using "1.prems" by (metis dvd_imp_le not_gr_zero)
    then have "a = []" by simp
    then show ?thesis by simp
  qed
qed

lemma rfc_fold_cong:
  assumes "\<And>b s. length b = 64 \<Longrightarrow> f b s = g b s"
  shows "rfc_fold f st msg = rfc_fold g st msg"
  using assms
proof (induction f st msg rule: rfc_fold.induct)
  case (1 f st msg)
  show ?case
  proof (cases "64 \<le> length msg")
    case True
    have "rfc_fold f st msg = rfc_fold f (f (take 64 msg) st) (drop 64 msg)"
      using True by (subst rfc_fold.simps) simp
    also have "\<dots> = rfc_fold g (g (take 64 msg) st) (drop 64 msg)"
      using "1.IH" [OF True "1.prems"] "1.prems" [of "take 64 msg" st] True by simp
    also have "\<dots> = rfc_fold g st msg" using True by (subst (2) rfc_fold.simps) simp
    finally show ?thesis .
  qed simp
qed

definition full :: "byte list \<Rightarrow> byte list" where
  "full msg = take (64 * (length msg div 64)) msg"

definition rest :: "byte list \<Rightarrow> byte list" where
  "rest msg = drop (64 * (length msg div 64)) msg"

lemma full_rest: "full msg @ rest msg = msg"
  by (simp add: full_def rest_def)

lemma length_full [simp]: "length (full msg) = 64 * (length msg div 64)"
  by (simp add: full_def)

lemma length_rest [simp]: "length (rest msg) = length msg mod 64"
  by (simp add: rest_def minus_mult_div_eq_mod)

lemma rfc_fold_full: "rfc_fold f st (full msg) = rfc_fold f st msg"
proof -
  have "rfc_fold f st (full msg @ rest msg) = rfc_fold f (rfc_fold f st (full msg)) (rest msg)"
    by (rule rfc_fold_append) simp
  then show ?thesis by (simp add: full_rest)
qed

lemma rest_append_short:
  assumes "length msg mod 64 + length xs < 64"
  shows "rest (msg @ xs) = rest msg @ xs" "full (msg @ xs) = full msg"
proof -
  have "length (msg @ xs) = (length msg mod 64 + length xs) + 64 * (length msg div 64)" by simp
  also have "\<dots> div 64 = length msg div 64" using assms by (subst div_mult_self2) simp_all
  finally have "length (msg @ xs) div 64 = length msg div 64" .
  then show "rest (msg @ xs) = rest msg @ xs" "full (msg @ xs) = full msg"
    by (auto simp: rest_def full_def)
qed

section \<open>The loop of update\<close>

lemma transform_loop_fold:
  "transform_loop input i st =
     (i + 64 * ((length input - i) div 64), rfc_fold transform st (drop i input))"
proof (induction input i st rule: transform_loop.induct)
  case (1 input i st)
  show ?case
  proof (cases "i + 63 < length input")
    case True
    then have len: "length input - i = length input - (i + 64) + 64" by simp
    have "(length input - i) div 64 = Suc ((length input - (i + 64)) div 64)"
      unfolding len by simp
    moreover have "rfc_fold transform st (drop i input)
      = rfc_fold transform (transform (take 64 (drop i input)) st) (drop (i + 64) input)"
      using True by (subst rfc_fold.simps) (auto simp: add.commute)
    ultimately show ?thesis using "1.IH" [OF True] True
      by (subst transform_loop.simps) simp
  next
    case False
    then show ?thesis by (subst transform_loop.simps) simp
  qed
qed


section \<open>What the object stands for\<close>

definition md5_rep :: "32 md5 \<Rightarrow> byte list \<Rightarrow> bool" where
  "md5_rep m msg \<longleftrightarrow>
     length (md_buffer m) = 64 \<and>
     md_state m = rfc_fold rfc_compress rfc_init msg \<and>
     md_count m = [of_nat (8 * length msg), of_nat (8 * length msg div 2 ^ 32)] \<and>
     take (length msg mod 64) (md_buffer m) = map Some (rest msg)"

lemma md5_rep_new: "md5_rep MD5 []"
  by (simp add: md5_rep_def MD5_def md5_reset_def rest_def rfc_init_def)

lemma md5_index:
  "unat (drop_bit 3 (of_nat (8 * n) :: u32) AND 0x3f) = n mod 64"
proof -
  have m: "(0x3f :: u32) = mask 6" by (simp add: mask_eq_exp_minus_1)
  define c where "c = (of_nat (8 * n) :: u32)"
  have c: "unat c = 8 * n mod 2 ^ 32" unfolding c_def by (simp only: unat_of_nat) simp
  have "unat (drop_bit 3 c AND 0x3f) = unat c div 8 mod 64"
    unfolding m take_bit_eq_mask [symmetric]
    by (simp add: drop_bit_eq_div take_bit_eq_mod unat_div unat_mod)
  then have "unat (drop_bit 3 (of_nat (8 * n) :: u32) AND 0x3f) = (8 * n mod 2 ^ 32 div 8) mod 64"
    by (simp only: c) (simp only: c_def)
  also have "8 * n mod 2 ^ 32 div 8 = n mod 2 ^ 29"
    using mult_mod_right [of 8 n "2 ^ 29"] by simp
  also have "n mod 2 ^ 29 mod 64 = n mod 64" by (simp add: mod_mod_cancel)
  finally show ?thesis .
qed

lemma div_carry:
  fixes x y N :: nat
  assumes "0 < N"
  shows "(x + y) div N = x div N + y div N + (if (x + y) mod N < y mod N then 1 else 0)"
proof -
  define r s where "r = x mod N" and "s = y mod N"
  have rs: "r < N" "s < N" using assms by (simp_all add: r_def s_def)
  have "x + y = (r + s) + N * (x div N + y div N)"
    by (simp add: r_def s_def algebra_simps)
  then have d: "(x + y) div N = (x div N + y div N) + (r + s) div N"
    and m: "(x + y) mod N = (r + s) mod N"
    using assms by (simp_all only: div_mult_self2 mod_mult_self2)
  show ?thesis
  proof (cases "r + s < N")
    case True
    then show ?thesis using d m by (simp flip: s_def)
  next
    case False
    then have "(r + s) div N = 1" "(r + s) mod N = r + s - N"
      using rs by (auto simp: div_nat_eqI mod_if)
    moreover have "r + s - N < s" using rs False by simp
    ultimately show ?thesis using d m by (simp flip: s_def)
  qed
qed

text \<open>The two counter words are the 64-bit count of bits, carry included.\<close>

lemma md5_count_step:
  fixes n k :: nat
  assumes k: "k < 2 ^ 32"
  defines "c0 \<equiv> (of_nat (8 * n) :: u32)" and "len \<equiv> (of_nat k :: u32)"
  shows "c0 + push_bit 3 len = of_nat (8 * (n + k))"
    and "(if c0 + push_bit 3 len < push_bit 3 len then of_nat (8 * n div 2 ^ 32) + 1
          else of_nat (8 * n div 2 ^ 32)) + drop_bit 29 len
         = (of_nat (8 * (n + k) div 2 ^ 32) :: u32)"
proof -
  have push: "push_bit 3 len = of_nat (8 * k)"
    by (simp add: len_def push_bit_eq_mult mult.commute)
  show sum: "c0 + push_bit 3 len = of_nat (8 * (n + k))"
    by (simp add: push c0_def algebra_simps)
  have drop: "drop_bit 29 len = of_nat (k div 2 ^ 29)"
  proof (rule word_unat_eq_iff [THEN iffD2])
    have "unat len = k" using k by (simp add: len_def unat_of_nat)
    then have "unat (drop_bit 29 len) = k div 2 ^ 29"
      by (simp add: drop_bit_eq_div unat_div)
    moreover have "k div 2 ^ 29 < 2 ^ 32" using k by (meson div_le_dividend le_less_trans)
    ultimately show "unat (drop_bit 29 len) = unat (of_nat (k div 2 ^ 29) :: u32)"
      by (simp add: unat_of_nat)
  qed
  have less: "(of_nat (8 * (n + k)) < (of_nat (8 * k) :: u32)) \<longleftrightarrow>
      8 * (n + k) mod 2 ^ 32 < 8 * k mod 2 ^ 32"
    by (simp only: word_less_nat_alt unat_of_nat) simp
  have carry: "8 * (n + k) div 2 ^ 32 = 8 * n div 2 ^ 32 + k div 2 ^ 29
      + (if 8 * (n + k) mod 2 ^ 32 < 8 * k mod 2 ^ 32 then 1 else 0)"
    using div_carry [of "2 ^ 32" "8 * n" "8 * k"] by (simp add: distrib_left)
  show "(if c0 + push_bit 3 len < push_bit 3 len then of_nat (8 * n div 2 ^ 32) + 1
          else of_nat (8 * n div 2 ^ 32)) + drop_bit 29 len
         = (of_nat (8 * (n + k) div 2 ^ 32) :: u32)"
    unfolding sum unfolding push less drop carry by simp
qed


section \<open>update extends the message\<close>

text \<open>The bytes already buffered, completed by the head of the input, and what remains.\<close>

lemma rest_append_long:
  assumes "64 - length msg mod 64 \<le> length xs"
  defines "p \<equiv> 64 - length msg mod 64"
  shows "rest (msg @ xs) = drop (p + 64 * ((length xs - p) div 64)) xs"
proof -
  define r q k where "r = length msg mod 64" and "q = length msg div 64" and "k = length xs - p"
  have msg: "length msg = 64 * q + r" by (simp add: r_def q_def)
  have xs: "length xs = p + k" using assms by (simp add: k_def p_def)
  have p: "p + r = 64" by (simp add: p_def r_def)
  have "length (msg @ xs) = k + 64 * (q + 1)" using msg xs p by simp
  then have "length (msg @ xs) div 64 = k div 64 + (q + 1)"
    by (simp only: div_mult_self2 zero_neq_numeral not_False_eq_True)
  then have "64 * (length (msg @ xs) div 64) = length msg + (p + 64 * (k div 64))"
    using msg p by simp
  then show ?thesis by (simp add: rest_def k_def)
qed

lemma rfc_fold_append_long:
  assumes "64 - length msg mod 64 \<le> length xs"
  defines "p \<equiv> 64 - length msg mod 64"
  shows "rfc_fold f st (msg @ xs) =
         rfc_fold f (f (rest msg @ take p xs) (rfc_fold f st msg)) (drop p xs)"
proof -
  have "msg @ xs = (full msg @ rest msg) @ (take p xs @ drop p xs)" by (simp add: full_rest)
  then have "rfc_fold f st (msg @ xs)
    = rfc_fold f (rfc_fold f st (full msg)) ((rest msg @ take p xs) @ drop p xs)"
    by (simp only: append.assoc rfc_fold_append length_full dvd_triv_left)
  also have "\<dots> = rfc_fold f (f (rest msg @ take p xs) (rfc_fold f st (full msg))) (drop p xs)"
    by (rule rfc_fold_block) (use assms in \<open>simp add: p_def\<close>)
  finally show ?thesis by (simp add: rfc_fold_full)
qed

lemma rfc_fold_append_short:
  assumes "length msg mod 64 + length xs < 64"
  shows "rfc_fold f st (msg @ xs) = rfc_fold f st msg"
  using rest_append_short(2) [OF assms] rfc_fold_full [of f st "msg @ xs"] rfc_fold_full [of f st msg]
  by simp

lemma transform_fold_rfc: "rfc_fold transform st msg = rfc_fold rfc_compress st msg"
  by (rule rfc_fold_cong) (rule transform_rfc)

lemma md5_update_run:
  assumes rep: "md5_rep m msg" and len: "length xs < 2 ^ 32"
  defines "n \<equiv> length msg"
  defines "p \<equiv> 64 - n mod 64"
    and "m1 \<equiv> m\<lparr>md_finished := False,
      md_count := [of_nat (8 * (n + length xs)), of_nat (8 * (n + length xs) div 2 ^ 32)]\<rparr>"
  shows "md5_update xs m =
      (if p \<le> length xs then
        bind_r (mem_put (md_buffer m) (n mod 64) (map Some (take p xs))) (\<lambda>buf.
        bind_r (mem_read buf 0 64) (\<lambda>block.
        let (i, st) = transform_loop xs p (transform block (md_state m)) in
        bind_r (mem_put buf 0 (map Some (drop i xs))) (\<lambda>buf'.
        Inr (m1\<lparr>md_state := st, md_buffer := buf'\<rparr>))))
      else
        bind_r (mem_put (md_buffer m) (n mod 64) (map Some xs)) (\<lambda>buf'.
        Inr (m1\<lparr>md_buffer := buf'\<rparr>)))"
proof -
  have cnt: "md_count m = [of_nat (8 * n), of_nat (8 * n div 2 ^ 32)]"
    using rep by (simp add: md5_rep_def n_def)
  note count = md5_count_step [OF len, of n]
  show ?thesis
    unfolding m1_def md5_update_def Let_def cnt nth_Cons_0 nth_Cons_Suc One_nat_def md5_index
      p_def [symmetric]
    by (simp only: count(1) count(2) [unfolded count(1)]) simp
qed

lemma md5_update_long:
  assumes rep: "md5_rep m msg" and len: "length xs < 2 ^ 32"
    and long: "64 - length msg mod 64 \<le> length xs"
  shows "\<exists>m'. md5_update xs m = Inr m' \<and> md5_rep m' (msg @ xs) \<and> \<not> md_finished m' \<and>
      md_buffer m' = map Some (rest (msg @ xs)) @
        drop ((length msg + length xs) mod 64) (map Some (rest msg @ take (64 - length msg mod 64) xs))"
proof -
  define p where "p = 64 - length msg mod 64"
  let ?n = "length msg" and ?blk = "rest msg @ take p xs" and ?i = "p + 64 * ((length xs - p) div 64)"
  let ?t = "drop ((?n + length xs) mod 64) (map Some ?blk)"
  have buf: "length (md_buffer m) = 64"
    and st: "md_state m = rfc_fold rfc_compress rfc_init msg"
    and tail: "take (?n mod 64) (md_buffer m) = map Some (rest msg)"
    using rep by (auto simp: md5_rep_def)
  have blk: "length ?blk = 64" using long by (simp add: p_def)
  have put: "mem_put (md_buffer m) (?n mod 64) (map Some (take p xs)) = Inr (map Some ?blk)"
    using long buf tail by (simp add: p_def)
  have read: "mem_read (map Some ?blk) 0 64 = Inr ?blk"
    using blk by (simp add: mem_read_def flip: map_append)
  have tl: "drop ?i xs = rest (msg @ xs)"
    using rest_append_long [of msg xs] long by (simp add: p_def)
  have put': "mem_put (map Some ?blk) 0 (map Some (rest (msg @ xs)))
    = Inr (map Some (rest (msg @ xs)) @ ?t)"
    unfolding mem_put_def length_map blk by simp
  have st': "rfc_fold transform (transform ?blk (md_state m)) (drop p xs)
    = rfc_fold rfc_compress rfc_init (msg @ xs)"
    using rfc_fold_append_long [of msg xs transform rfc_init] long st
    by (simp add: p_def transform_fold_rfc)
  have t: "length ?t = 64 - (?n + length xs) mod 64"
    unfolding length_drop length_map blk ..
  define t where "t = ?t"
  have "md5_update xs m = Inr (m\<lparr>md_finished := False,
      md_count := [of_nat (8 * (?n + length xs)), of_nat (8 * (?n + length xs) div 2 ^ 32)],
      md_state := rfc_fold rfc_compress rfc_init (msg @ xs),
      md_buffer := map Some (rest (msg @ xs)) @ t\<rparr>)"
    using long unfolding md5_update_run [OF rep len] p_def [symmetric]
    by (simp only: if_True put bind_r_Inr read Let_def transform_loop_fold prod.case tl st' put' t_def)
  then show ?thesis using t unfolding t_def [symmetric] p_def [symmetric] by (simp add: md5_rep_def)
qed

lemma md5_update_short:
  assumes rep: "md5_rep m msg" and short: "length msg mod 64 + length xs < 64"
  shows "\<exists>m'. md5_update xs m = Inr m' \<and> md5_rep m' (msg @ xs) \<and> \<not> md_finished m'"
proof -
  let ?n = "length msg"
  have buf: "length (md_buffer m) = 64"
    and st: "md_state m = rfc_fold rfc_compress rfc_init msg"
    and tail: "take (?n mod 64) (md_buffer m) = map Some (rest msg)"
    using rep by (auto simp: md5_rep_def)
  have len: "length xs < 2 ^ 32" using short by simp
  have put: "mem_put (md_buffer m) (?n mod 64) (map Some xs)
    = Inr (map Some (rest (msg @ xs)) @ drop (?n mod 64 + length xs) (md_buffer m))"
    using short buf tail by (simp add: rest_append_short(1))
  have "(?n + length xs) mod 64 = ?n mod 64 + length xs"
    using arg_cong [OF rest_append_short(1) [OF short], of length] by simp
  moreover have "\<not> 64 - ?n mod 64 \<le> length xs" using short by simp
  then have "md5_update xs m = Inr (m\<lparr>md_finished := False,
      md_count := [of_nat (8 * (?n + length xs)), of_nat (8 * (?n + length xs) div 2 ^ 32)],
      md_buffer := map Some (rest (msg @ xs)) @ drop (?n mod 64 + length xs) (md_buffer m)\<rparr>)"
    unfolding md5_update_run [OF rep len] by (simp only: if_False put bind_r_Inr)
  ultimately show ?thesis
    using short buf st rfc_fold_append_short [OF short, of rfc_compress rfc_init]
    by (simp add: md5_rep_def)
qed

lemma md5_update_rep:
  assumes "md5_rep m msg" and "length xs < 2 ^ 32"
  shows "\<exists>m'. md5_update xs m = Inr m' \<and> md5_rep m' (msg @ xs) \<and> \<not> md_finished m'"
  using md5_update_long [OF assms] md5_update_short [OF assms(1), of xs]
  by (cases "64 - length msg mod 64 \<le> length xs") auto

section \<open>final and digest\<close>

lemma memcpy_ulong_all:
  fixes src :: "u32 list"
  shows "length src = k \<Longrightarrow> length dst = k \<Longrightarrow> n = 4 * k \<Longrightarrow> memcpy_ulong dst src n = src"
  by (simp add: memcpy_ulong_def sizeof_ulong_def)

lemma length_rfc_compress: "length st = 4 \<Longrightarrow> length (rfc_compress b st) = 4"
  by (simp add: rfc_compress_def split: prod.split)

lemma length_rfc_fold: "length st = 4 \<Longrightarrow> length (rfc_fold rfc_compress st msg) = 4"
proof (induction rfc_compress st msg rule: rfc_fold.induct)
  case (1 st msg)
  then show ?case by (subst rfc_fold.simps) (simp add: length_rfc_compress)
qed

lemma length_rfc_init [simp]: "length rfc_init = 4" by (simp add: rfc_init_def)

text \<open>The eight bytes \<open>final\<close> encodes from the counter are the 64-bit length of the RFC.\<close>

lemma of_nat_bit_u32:
  "bit (of_nat n :: u32) k \<longleftrightarrow> k < 32 \<and> bit n k"
  by (simp add: bit_of_nat_iff)

lemma encode_count:
  "md5_encode [of_nat n, of_nat (n div 2 ^ 32) :: u32] 8 = le_bytes (of_nat n :: u64)"
proof -
  have "md5_encode [of_nat n, of_nat (n div 2 ^ 32) :: u32] 8
        = le_bytes (of_nat n :: u32) @ le_bytes (of_nat (n div 2 ^ 32) :: u32)"
    using md5_encode_le [of "[of_nat n, of_nat (n div 2 ^ 32) :: u32]" 2] by simp
  also have "\<dots> = le_bytes (of_nat n :: u64)"
  proof (rule nth_equalityI)
    show "length (le_bytes (of_nat n :: u32) @ le_bytes (of_nat (n div 2 ^ 32) :: u32))
      = length (le_bytes (of_nat n :: u64))" by simp
    fix i assume "i < length (le_bytes (of_nat n :: u32) @ le_bytes (of_nat (n div 2 ^ 32) :: u32))"
    then have i: "i < 8" by simp
    show "(le_bytes (of_nat n :: u32) @ le_bytes (of_nat (n div 2 ^ 32) :: u32)) ! i
      = le_bytes (of_nat n :: u64) ! i"
    proof (rule bit_word_eqI)
      fix k assume k: "k < LENGTH(8)"
      show "bit ((le_bytes (of_nat n :: u32) @ le_bytes (of_nat (n div 2 ^ 32) :: u32)) ! i) k
        = bit (le_bytes (of_nat n :: u64) ! i) k"
      proof (cases "i < 4")
        case True
        then show ?thesis using k i
          by (simp add: nth_append bit_le_bytes_nth bit_of_nat_iff)
      next
        case False
        then have "32 + (8 * (i - 4) + k) = 8 * i + k" and "8 * (i - 4) + k < 32"
          using k i by auto
        moreover have "bit (n div 2 ^ 32) x \<longleftrightarrow> bit n (32 + x)" for x
          using bit_drop_bit_eq [of 32 n] by (simp add: drop_bit_eq_div fun_eq_iff)
        ultimately have "bit (of_nat (n div 2 ^ 32) :: u32) (8 * (i - 4) + k) \<longleftrightarrow> bit n (8 * i + k)"
          by (simp only: bit_of_nat_iff) simp
        then show ?thesis using False k i
          by (simp add: nth_append bit_le_bytes_nth bit_of_nat_iff)
      qed
    qed
  qed
  finally show ?thesis .
qed

lemma take_PADDING: "0 < k \<Longrightarrow> k \<le> 64 \<Longrightarrow> take k PADDING = 0x80 # replicate (k - 1) 0"
  by (cases k) (simp_all add: PADDING_def min_def)

lemma length_PADDING [simp]: "length PADDING = 64"
  by (simp add: PADDING_def)

lemma padding_split:
  fixes n :: nat
  defines "i \<equiv> n mod 64"
  defines "k \<equiv> if i < 56 then 56 - i else 120 - i"
  shows "take k PADDING @ le_bytes (of_nat (8 * n) :: u64) = rfc_padding n"
    and "64 dvd n + k + 8"
proof -
  have i: "i < 64" by (simp add: i_def)
  then have k: "0 < k" "k \<le> 64" by (auto simp: k_def)
  have "k - 1 = (119 - i) mod 64"
    using i by (auto simp: k_def mod_if)
  then show "take k PADDING @ le_bytes (of_nat (8 * n) :: u64) = rfc_padding n"
    by (simp add: take_PADDING k rfc_padding_def i_def)
  have "n + k + 8 = 64 * (n div 64) + (i + k + 8)" by (simp add: i_def)
  moreover have "i + k + 8 = 64 \<or> i + k + 8 = 128" using i by (auto simp: k_def)
  ultimately have "n + k + 8 = 64 * (n div 64 + 1) \<or> n + k + 8 = 64 * (n div 64 + 2)" by auto
  then show "64 dvd n + k + 8" by (metis dvd_triv_left)
qed

text \<open>\<open>final\<close> leaves the digest and restores the state and the counter, but not the buffer.\<close>

text \<open>The padding \<open>final\<close> chooses leaves 8 bytes of the last block, which the bit count fills.\<close>

definition pad_length :: "nat \<Rightarrow> nat" where
  "pad_length n = (if n mod 64 < 56 then 56 - n mod 64 else 120 - n mod 64)"

lemma padded_length: "pad_length n \<le> 64" "(n + pad_length n) mod 64 = 56"
proof -
  show "pad_length n \<le> 64" by (auto simp: pad_length_def)
  have "64 dvd n + pad_length n + 8" using padding_split(2) [of n] by (simp add: pad_length_def)
  then obtain c where "n + pad_length n + 8 = 64 * c" by (rule dvdE)
  then have "n + pad_length n = 56 + 64 * (c - 1)" by (cases c) simp_all
  then show "(n + pad_length n) mod 64 = 56" by (simp only: mod_mult_self2) simp
qed

lemma md5_final_rep:
  assumes rep: "md5_rep m msg"
  shows "\<exists>m'. md5_final m = Inr m' \<and> md_digest m' = map Some (rfc_digest msg) \<and>
      \<not> md_finished m' \<and> md_state m' = md_state m \<and> md_count m' = md_count m \<and>
      md_buffer m' = map Some (rest (msg @ take
        (if length msg mod 64 < 56 then 56 - length msg mod 64 else 120 - length msg mod 64) PADDING)
        @ le_bytes (of_nat (8 * length msg) :: u64))"
proof -
  let ?n = "length msg"
  define k where "k = pad_length ?n"
  let ?bits = "le_bytes (of_nat (8 * ?n) :: u64)"
  have st: "md_state m = rfc_fold rfc_compress rfc_init msg"
    and cnt: "md_count m = [of_nat (8 * ?n), of_nat (8 * ?n div 2 ^ 32)]"
    using rep by (simp_all add: md5_rep_def)
  have k64: "k \<le> 64" using padded_length(1) by (simp add: k_def)
  then have "length (take k PADDING) < 2 ^ 32" by simp
  from md5_update_rep [OF rep this] obtain m1 where
    m1: "md5_update (take k PADDING) m = Inr m1" "md5_rep m1 (msg @ take k PADDING)" by blast
  have m56: "length (msg @ take k PADDING) mod 64 = 56"
    using k64 padded_length(2) [of ?n] by (simp add: k_def)
  have "length ?bits < 2 ^ 32" "64 - length (msg @ take k PADDING) mod 64 \<le> length ?bits"
    unfolding m56 by simp_all
  from md5_update_long [OF m1(2) this] obtain m2 where
    m2: "md5_update ?bits m1 = Inr m2" "md5_rep m2 ((msg @ take k PADDING) @ ?bits)"
      "\<not> md_finished m2" and
    buf2: "md_buffer m2 = map Some (rest ((msg @ take k PADDING) @ ?bits)) @
        drop ((length (msg @ take k PADDING) + length ?bits) mod 64)
          (map Some (rest (msg @ take k PADDING) @
            take (64 - length (msg @ take k PADDING) mod 64) ?bits))" by (elim exE conjE) (rule that)
  have "(length (msg @ take k PADDING) + length ?bits) mod 64 = 0"
    unfolding mod_add_left_eq [of "length (msg @ take k PADDING)" 64, symmetric] m56 by simp
  moreover from this have "rest ((msg @ take k PADDING) @ ?bits) = []"
    by (simp only: length_0_conv [symmetric] length_rest length_append)
  ultimately have buf: "md_buffer m2 = map Some (rest (msg @ take k PADDING) @ ?bits)"
    unfolding buf2 m56 by simp
  have all: "(msg @ take k PADDING) @ ?bits = msg @ rfc_padding ?n"
    using padding_split(1) [of ?n] by (simp add: k_def pad_length_def)
  have st2: "md_state m2 = rfc_fold rfc_compress rfc_init (msg @ rfc_padding ?n)"
    using m2(2) unfolding all by (simp add: md5_rep_def)
  have l4: "length (md_state m2) = 4" "length (md_state m) = 4"
    by (simp_all add: st st2 length_rfc_fold)
  have l2: "length (md_count m2) = 2" "length (md_count m) = 2"
    using m2(2) cnt by (simp_all add: md5_rep_def)
  have "md5_final m = Inr (m2\<lparr>md_digest := map Some (md5_encode (md_state m2) 16),
      md_state := md_state m, md_count := md_count m\<rparr>)"
    unfolding md5_final_def Let_def cnt nth_Cons_0 md5_index pad_length_def [symmetric] k_def [symmetric] encode_count
      m1(1) bind_r_Inr m2(1)
    by (simp add: memcpy_ulong_all l4 l2 flip: cnt)
  moreover have "md5_encode (md_state m2) 16 = rfc_digest msg"
    using md5_encode_le [OF l4(1)] by (simp add: st2 rfc_digest_def)
  ultimately show ?thesis using m2(3) buf by (simp flip: pad_length_def k_def)
qed

text \<open>What the buffer holds then: the padding may have overwritten the tail of the message.\<close>

definition spoilt :: "byte list \<Rightarrow> byte list" where
  "spoilt msg = full msg @
     take (length msg mod 64) (replicate 56 0 @ le_bytes (of_nat (8 * length msg) :: u64))"

lemma rest_padding:
  fixes msg
  defines "i \<equiv> length msg mod 64"
  shows "i < 56 \<Longrightarrow> rest (msg @ take (56 - i) PADDING) = rest msg @ take (56 - i) PADDING"
    and "\<not> i < 56 \<Longrightarrow> rest (msg @ take (120 - i) PADDING) = replicate 56 0"
proof -
  have i: "i < 64" by (simp add: i_def)
  show "rest (msg @ take (56 - i) PADDING) = rest msg @ take (56 - i) PADDING" if "i < 56"
    by (rule rest_append_short) (use that in \<open>simp flip: i_def\<close>)
  show "rest (msg @ take (120 - i) PADDING) = replicate 56 0" if "\<not> i < 56"
  proof -
    have "64 - i \<le> length (take (120 - i) PADDING)" using that i by simp
    from rest_append_long [of msg, folded i_def, OF this]
    have "rest (msg @ take (120 - i) PADDING) = drop (64 - i) (take (120 - i) PADDING)"
      using that i by simp
    also have "\<dots> = take 56 (drop (64 - i) PADDING)"
      using that i by (simp add: drop_take)
    also have "\<dots> = replicate 56 0"
      using that i by (cases "64 - i") (auto simp: PADDING_def)
    finally show ?thesis .
  qed
qed

lemma length_rfc_digest [simp]: "length (rfc_digest msg) = 16"
proof -
  have "length (concat (map le_bytes (xs :: u32 list))) = 4 * length xs" for xs
    by (induction xs) simp_all
  then show ?thesis by (simp add: rfc_digest_def length_rfc_fold)
qed

lemma HEX_digit: "n < 16 \<Longrightarrow> HEX ! n = hex_digit n"
  by (auto simp: HEX_def hex_digit_def numeral_eq_Suc less_Suc_eq)

lemma bytesToHexString_rfc: "bytesToHexString (rfc_digest msg) = rfc_hex msg"
proof -
  have "unat t div 16 < 16" for t :: byte
    using unsigned_less [of t, where ?'a = nat] by (simp add: less_mult_imp_div_less)
  then show ?thesis by (simp add: bytesToHexString_def rfc_hex_def HEX_digit)
qed

lemma md5_rep_finished [simp]: "md5_rep (m\<lparr>md_finished := b\<rparr>) msg = md5_rep m msg"
  by (simp add: md5_rep_def)

lemma md5_toString_rep:
  assumes rep: "md5_rep m msg" and fin: "\<not> md_finished m"
  shows "\<exists>m'. md5_toString m = Inr (rfc_hex msg, m') \<and> \<not> md_finished m' \<and>
      md5_rep m' (if length msg mod 64 < 56 then msg else spoilt msg)"
proof -
  let ?n = "length msg"
  have "md5_rep (m\<lparr>md_finished := True\<rparr>) msg" using rep by simp
  from md5_final_rep [OF this] obtain m' where
    m': "md5_final (m\<lparr>md_finished := True\<rparr>) = Inr m'" "md_digest m' = map Some (rfc_digest msg)"
      "\<not> md_finished m'" "md_state m' = md_state m" "md_count m' = md_count m"
    and buf: "md_buffer m' = map Some (rest (msg @ take
        (if ?n mod 64 < 56 then 56 - ?n mod 64 else 120 - ?n mod 64) PADDING)
        @ le_bytes (of_nat (8 * ?n) :: u64))" by auto
  have "md5_rep m' (if ?n mod 64 < 56 then msg else spoilt msg)"
  proof (cases "?n mod 64 < 56")
    case True
    then have "length (rest msg @ take (56 - ?n mod 64) PADDING) = 56" by simp
    then have "take (?n mod 64) (md_buffer m') = map Some (rest msg)"
      and "length (md_buffer m') = 64"
      using True buf by (simp_all add: rest_padding(1) take_map)
    then show ?thesis using rep True m' by (simp add: md5_rep_def)
  next
    case False
    let ?t = "take (?n mod 64) (replicate 56 0 @ le_bytes (of_nat (8 * ?n) :: u64))"
    have t: "length ?t = ?n mod 64" by simp
    have "rfc_fold rfc_compress rfc_init (full msg @ ?t) = rfc_fold rfc_compress rfc_init msg"
      using rfc_fold_append [of "full msg" rfc_compress rfc_init ?t]
      by (simp add: rfc_fold_full del: take_append)
    moreover have "length (full msg @ ?t) = ?n" unfolding length_append t by simp
    moreover have "rest (full msg @ ?t) = ?t"
      using t by (simp add: rest_def del: take_append)
    ultimately show ?thesis using False rep buf m'
      by (simp add: md5_rep_def spoilt_def rest_padding(2) del: take_append length_append)
        (simp add: take_map)
  qed
  with m' fin show ?thesis
    by (auto simp: md5_toString_def md5_digest_def mem_read_def bytesToHexString_rfc)
qed

section \<open>The callers\<close>

lemma seq_update_rep:
  assumes "md5_rep m msg" "\<forall>x\<in>set xss. length x < 2 ^ 32" "\<not> md_finished m"
  shows "\<exists>m'. seq_r md5_update xss m = Inr m' \<and> md5_rep m' (msg @ concat xss) \<and> \<not> md_finished m'"
  using assms
proof (induction xss arbitrary: m msg)
  case (Cons x xss)
  then obtain m1 where "md5_update x m = Inr m1" "md5_rep m1 (msg @ x)" "\<not> md_finished m1"
    using md5_update_rep [of m msg x] by auto
  with Cons.IH [of m1 "msg @ x"] Cons.prems show ?case by simp
qed simp

lemma md5_read_loop_rep:
  assumes "md5_rep m msg" "\<not> md_finished m"
  shows "\<exists>m'. md5_read_loop content m = Inr m' \<and> md5_rep m' (msg @ content) \<and> \<not> md_finished m'"
  using assms
proof (induction content m arbitrary: msg rule: md5_read_loop.induct)
  case (1 content m)
  let ?c = "take BUFFER_SIZE content"
  have "length ?c < 2 ^ 32" by (simp add: BUFFER_SIZE_def)
  from md5_update_rep [OF "1.prems"(1) this] obtain m1 where
    m1: "(if length ?c > 0 then md5_update ?c m else Inr m) = Inr m1"
      "md5_rep m1 (msg @ ?c)" "\<not> md_finished m1"
    using "1.prems" by (cases "?c = []") auto
  have loop: "md5_read_loop content m =
      (if length content < BUFFER_SIZE then Inr m1 else md5_read_loop (drop BUFFER_SIZE content) m1)"
    by (subst md5_read_loop.simps) (simp only: Let_def m1(1) bind_r_Inr)
  show ?case
  proof (cases "length content < BUFFER_SIZE")
    case False
    from "1.IH" [OF refl refl m1(1) False m1(2,3)] show ?thesis using False by (simp add: loop)
  qed (use m1 in \<open>simp add: loop\<close>)
qed

lemma md5_new_not_finished [simp]: "\<not> md_finished MD5"
  by (simp add: MD5_def md5_reset_def)

text \<open>An object constructed with its input has the digest of that input.\<close>

lemma MD5_constructed:
  "length str < 2 ^ 32 \<Longrightarrow>
     bind_r (MD5_string str :: 32 md5 res) (\<lambda>m. map_sum id fst (md5_toString m)) = Inr (rfc_hex str)"
  "length str < 2 ^ 32 \<Longrightarrow>
     bind_r (MD5_bytes str :: 32 md5 res) (\<lambda>m. map_sum id fst (md5_toString m)) = Inr (rfc_hex str)"
  "bind_r (MD5_file stream :: 32 md5 res) (\<lambda>m. map_sum id fst (md5_toString m)) =
     Inr (rfc_hex (case stream of None \<Rightarrow> [] | Some content \<Rightarrow> content))"
proof -
  show str: "bind_r (MD5_string str :: 32 md5 res) (\<lambda>m. map_sum id fst (md5_toString m)) = Inr (rfc_hex str)"
    if "length str < 2 ^ 32"
  proof -
    from md5_update_rep [OF md5_rep_new that] obtain m where
      "md5_update str MD5 = Inr m" "md5_rep m ([] @ str)" "\<not> md_finished m" by blast
    with md5_toString_rep [OF this(2,3)] show ?thesis by (auto simp: MD5_string_def)
  qed
  show "bind_r (MD5_bytes str :: 32 md5 res) (\<lambda>m. map_sum id fst (md5_toString m)) = Inr (rfc_hex str)"
    if "length str < 2 ^ 32"
    using str [OF that] by (simp add: MD5_bytes_def MD5_string_def)
  have content: "bind_r (md5_read_loop content (MD5 :: 32 md5)) (\<lambda>m. map_sum id fst (md5_toString m)) =
      Inr (rfc_hex content)" for content
  proof -
    from md5_read_loop_rep [OF md5_rep_new md5_new_not_finished] obtain m where
      "md5_read_loop content MD5 = Inr m" "md5_rep m ([] @ content)" "\<not> md_finished m" by blast
    with md5_toString_rep [OF this(2,3)] show ?thesis by auto
  qed
  show "bind_r (MD5_file stream :: 32 md5 res) (\<lambda>m. map_sum id fst (md5_toString m)) =
     Inr (rfc_hex (case stream of None \<Rightarrow> [] | Some content \<Rightarrow> content))"
    using content md5_toString_rep [OF md5_rep_new md5_new_not_finished]
    by (cases stream) (auto simp: MD5_file_def md5_update_file_def)
qed

text \<open>
  C6. For 32-bit \<open>ulong\<close>, any split of a message into calls of \<open>update\<close> gives the digest of
  RFC 1321 of the whole message, in lowercase hexadecimal: no call fails, and every byte read by
  \<open>digest\<close> has been initialised.
\<close>

theorem md5_chunks_rfc:
  assumes "\<forall>x\<in>set xss. length x < 2 ^ 32"
  shows "bind_r (seq_r md5_update xss (MD5 :: 32 md5)) (\<lambda>m. map_sum id fst (md5_toString m))
         = Inr (rfc_hex (concat xss))"
proof -
  from seq_update_rep [OF md5_rep_new assms md5_new_not_finished] obtain m where
    m: "seq_r md5_update xss MD5 = Inr m" "md5_rep m (concat xss)" "\<not> md_finished m" by auto
  with md5_toString_rep [OF m(2,3)] show ?thesis by auto
qed

theorem md5_chunks_rfc_witness:
  "bind_r (seq_r md5_update [[97], [98, 99]] (MD5 :: 32 md5)) (\<lambda>m. map_sum id fst (md5_toString m))
   = Inr (rfc_hex [97, 98, 99])"
  using md5_chunks_rfc [of "[[97], [98, 99]]"] by simp


end
