(* ===== verification/Md5Eval.thy ===== *)
theory Md5Eval
  imports Md5Stream
begin

text \<open>
  The code run by the kernel on the message \<open>abc\<close>, for both widths of \<open>ulong\<close>. With 32 bits it gives
  the digest RFC 1321 lists in its test suite; with the 64 bits of \<open>unsigned long\<close> on macOS and
  Linux, the additions carry out of the low 32 bits and \<open>ROTATE_LEFT\<close> does not rotate, so the
  result is another string. One lemma evaluates one round of 16 steps.
\<close>

definition abc_block :: "byte list" where
  "abc_block = [97, 98, 99, 0x80] @ replicate 52 0 @ [24, 0, 0, 0, 0, 0, 0, 0]"

definition abc_x :: "'u::len word list" where
  "abc_x = [0x80636261, 0, 0, 0, 0, 0, 0, 0, 0, 0, 0, 0, 0, 0, 24, 0]"

lemma abc_block_list:
  "abc_block = [97, 98, 99, 128, 0, 0, 0, 0, 0, 0, 0, 0, 0, 0, 0, 0, 0, 0, 0, 0, 0, 0, 0, 0, 0, 0, 0, 0, 0, 0, 0, 0, 0, 0, 0, 0, 0, 0, 0, 0, 0, 0, 0, 0, 0, 0, 0, 0, 0, 0, 0, 0, 0, 0, 0, 0, 24, 0, 0, 0, 0, 0, 0, 0]"
  by code_simp

lemma length_abc_block [simp]: "length abc_block = 64"
  by (simp add: abc_block_def)

lemma abc_put_pad:
  "mem_put (map Some [97, 98, 99] @ replicate 61 None) 3 (map Some (take 53 PADDING)) =
   Inr (map Some (take 56 abc_block) @ replicate 8 None)"
  by (simp add: take_PADDING abc_block_def)

lemma abc_put_bits:
  "mem_put (map Some (take 56 abc_block) @ replicate 8 None) 56
      (map Some [24, 0, 0, 0, 0, 0, 0, 0]) = Inr (map Some abc_block)"
  by (simp add: abc_block_def)

lemma abc_read: "mem_read (map Some abc_block) 0 64 = Inr abc_block"
  by (simp add: mem_read_def)

lemmas round_eval = abc_x_def FF_def GG_def HH_def II_def F_def G_def H_def I_def ROTATE_LEFT_def
  table1_def table2_def table3_def table4_def Let_def

section \<open>Width 32\<close>

lemma abc32_round1:
  "fold (md5_step FF abc_x) table1 (0x67452301, 0xefcdab89, 0x98badcfe, 0x10325476)
   = ((0xdda9b9a6, 0x72aff2e0, 0xe396856b, 0xa1051895) :: 32 abcd)"
  by (simp add: round_eval)

lemma abc32_round2:
  "fold (md5_step GG abc_x) table2 (0xdda9b9a6, 0x72aff2e0, 0xe396856b, 0xa1051895)
   = ((0x790a77fb, 0x726342d3, 0xa62884aa, 0x9f47e4f8) :: 32 abcd)"
  by (simp add: round_eval)

lemma abc32_round3:
  "fold (md5_step HH abc_x) table3 (0x790a77fb, 0x726342d3, 0xa62884aa, 0x9f47e4f8)
   = ((0x7f2e507b, 0x7beb9700, 0x8fae6399, 0x99d9679d) :: 32 abcd)"
  by (simp add: round_eval)

lemma abc32_round4:
  "fold (md5_step II abc_x) table4 (0x7f2e507b, 0x7beb9700, 0x8fae6399, 0x99d9679d)
   = ((0x310ade8f, 0xc08226b3, 0xe484b9d8, 0x624d8cb2) :: 32 abcd)"
  by (simp add: round_eval)

lemma abc32_transform:
  "transform abc_block [0x67452301, 0xefcdab89, 0x98badcfe, 0x10325476] = ([0x98500190, 0xb04fd23c, 0x7d3f96d6, 0x727fe128] :: 32 word list)"
proof -
  have "md5_decode abc_block 64 = (abc_x :: 32 word list)"
    unfolding abc_x_def abc_block_list md5_decode_def by (simp add: upt_rec)
  then show ?thesis
    by (simp add: transform_def rounds_fold abc32_round1 abc32_round2 abc32_round3 abc32_round4)
qed

section \<open>Width 64\<close>

lemma abc64_round1:
  "fold (md5_step FF abc_x) table1 (0x67452301, 0xefcdab89, 0x98badcfe, 0x10325476)
   = ((0xf7877db54f74a196, 0x1585c2709ca3da2a, 0x99c606721ce9284e, 0xd5690ce32f6c37c2) :: 64 abcd)"
  by (simp add: round_eval)

lemma abc64_round2:
  "fold (md5_step GG abc_x) table2 (0xf7877db54f74a196, 0x1585c2709ca3da2a, 0x99c606721ce9284e, 0xd5690ce32f6c37c2)
   = ((0xa3287199fbbac56a, 0x1b2e4a6e70d53e04, 0x44ec8b6f71039f38, 0xa8714c58b107c028) :: 64 abcd)"
  by (simp add: round_eval)

lemma abc64_round3:
  "fold (md5_step HH abc_x) table3 (0xa3287199fbbac56a, 0x1b2e4a6e70d53e04, 0x44ec8b6f71039f38, 0xa8714c58b107c028)
   = ((0x7c1ee3e3e5858741, 0x325e97c8ac9cd394, 0x28e2d7e3a12398ef, 0x53038ce7164fbeb) :: 64 abcd)"
  by (simp add: round_eval)

lemma abc64_round4:
  "fold (md5_step II abc_x) table4 (0x7c1ee3e3e5858741, 0x325e97c8ac9cd394, 0x28e2d7e3a12398ef, 0x53038ce7164fbeb)
   = ((0xaafc81980e977678, 0xc69e4c8d9c972f5f, 0x956d55969f264a69, 0x6ba4ed97f346634f) :: 64 abcd)"
  by (simp add: round_eval)

lemma abc64_transform:
  "transform abc_block [0x67452301, 0xefcdab89, 0x98badcfe, 0x10325476] = ([0xaafc819875dc9979, 0xc69e4c8e8c64dae8, 0x956d559737e12767, 0x6ba4ed980378b7c5] :: 64 word list)"
proof -
  have "md5_decode abc_block 64 = (abc_x :: 64 word list)"
    unfolding abc_x_def abc_block_list md5_decode_def by (simp add: upt_rec)
  then show ?thesis
    by (simp add: transform_def rounds_fold abc64_round1 abc64_round2 abc64_round3 abc64_round4)
qed

lemma abc32_absorb:
  "md5_update [97, 98, 99] (MD5 :: 32 md5) = Inr
    \<lparr>md_state = [0x67452301, 0xefcdab89, 0x98badcfe, 0x10325476], md_count = [24, 0], md_buffer = map Some [97, 98, 99] @ replicate 61 None,
    md_digest = replicate 16 None, md_finished = False\<rparr>"
  by (simp add: md5_update_def MD5_def md5_reset_def Let_def)

lemma abc32_pad:
  "md5_update (take 53 PADDING) (\<lparr>md_state = [0x67452301, 0xefcdab89, 0x98badcfe, 0x10325476], md_count = [24, 0], md_buffer = map Some [97, 98, 99] @ replicate 61 None,
    md_digest = replicate 16 None, md_finished = True\<rparr> :: 32 md5) = Inr
    \<lparr>md_state = [0x67452301, 0xefcdab89, 0x98badcfe, 0x10325476], md_count = [448, 0], md_buffer = map Some (take 56 abc_block) @ replicate 8 None,
    md_digest = replicate 16 None, md_finished = False\<rparr>"
  by (simp add: md5_update_def Let_def abc_put_pad [simplified] min_def)

lemma abc32_bits:
  "md5_update [24, 0, 0, 0, 0, 0, 0, 0] (\<lparr>md_state = [0x67452301, 0xefcdab89, 0x98badcfe, 0x10325476], md_count = [448, 0], md_buffer = map Some (take 56 abc_block) @ replicate 8 None,
    md_digest = replicate 16 None, md_finished = False\<rparr> :: 32 md5) = Inr
    \<lparr>md_state = [0x98500190, 0xb04fd23c, 0x7d3f96d6, 0x727fe128], md_count = [512, 0], md_buffer = map Some abc_block,
    md_digest = replicate 16 None, md_finished = False\<rparr>"
  by (simp add: md5_update_def Let_def abc_put_bits [simplified] abc_read abc32_transform
      transform_loop.simps [of "[24, 0, 0, 0, 0, 0, 0, 0]"])

lemma abc32_encode:
  "md5_encode [24, 0 :: 32 word] 8 = [24, 0, 0, 0, 0, 0, 0, 0]"
  "md5_encode ([0x98500190, 0xb04fd23c, 0x7d3f96d6, 0x727fe128] :: 32 word list) 16
   = [144, 1, 80, 152, 60, 210, 79, 176, 214, 150, 63, 125, 40, 225, 127, 114]"
  by (simp_all add: md5_encode_def Let_def upt_rec)

lemma abc32_hex:
  "md5_hex TYPE(32) [97, 98, 99] = Inr (bytesToHexString
     [144, 1, 80, 152, 60, 210, 79, 176, 214, 150, 63, 125, 40, 225, 127, 114])"
  unfolding md5_hex_def abc32_absorb bind_r_Inr md5_toString_def md5_digest_def md5_final_def
  by (simp add: Let_def abc32_pad [simplified] abc32_bits [simplified] abc32_encode mem_read_def
      mem_values_def)

lemma abc64_absorb:
  "md5_update [97, 98, 99] (MD5 :: 64 md5) = Inr
    \<lparr>md_state = [0x67452301, 0xefcdab89, 0x98badcfe, 0x10325476], md_count = [24, 0], md_buffer = map Some [97, 98, 99] @ replicate 61 None,
    md_digest = replicate 16 None, md_finished = False\<rparr>"
  by (simp add: md5_update_def MD5_def md5_reset_def Let_def)

lemma abc64_pad:
  "md5_update (take 53 PADDING) (\<lparr>md_state = [0x67452301, 0xefcdab89, 0x98badcfe, 0x10325476], md_count = [24, 0], md_buffer = map Some [97, 98, 99] @ replicate 61 None,
    md_digest = replicate 16 None, md_finished = True\<rparr> :: 64 md5) = Inr
    \<lparr>md_state = [0x67452301, 0xefcdab89, 0x98badcfe, 0x10325476], md_count = [448, 0], md_buffer = map Some (take 56 abc_block) @ replicate 8 None,
    md_digest = replicate 16 None, md_finished = False\<rparr>"
  by (simp add: md5_update_def Let_def abc_put_pad [simplified] min_def)

lemma abc64_bits:
  "md5_update [24, 0, 0, 0, 0, 0, 0, 0] (\<lparr>md_state = [0x67452301, 0xefcdab89, 0x98badcfe, 0x10325476], md_count = [448, 0], md_buffer = map Some (take 56 abc_block) @ replicate 8 None,
    md_digest = replicate 16 None, md_finished = False\<rparr> :: 64 md5) = Inr
    \<lparr>md_state = [0xaafc819875dc9979, 0xc69e4c8e8c64dae8, 0x956d559737e12767, 0x6ba4ed980378b7c5], md_count = [512, 0], md_buffer = map Some abc_block,
    md_digest = replicate 16 None, md_finished = False\<rparr>"
  by (simp add: md5_update_def Let_def abc_put_bits [simplified] abc_read abc64_transform
      transform_loop.simps [of "[24, 0, 0, 0, 0, 0, 0, 0]"])

lemma abc64_encode:
  "md5_encode [24, 0 :: 64 word] 8 = [24, 0, 0, 0, 0, 0, 0, 0]"
  "md5_encode ([0xaafc819875dc9979, 0xc69e4c8e8c64dae8, 0x956d559737e12767, 0x6ba4ed980378b7c5] :: 64 word list) 16
   = [121, 153, 220, 117, 232, 218, 100, 140, 103, 39, 225, 55, 197, 183, 120, 3]"
  by (simp_all add: md5_encode_def Let_def upt_rec)

lemma abc64_hex:
  "md5_hex TYPE(64) [97, 98, 99] = Inr (bytesToHexString
     [121, 153, 220, 117, 232, 218, 100, 140, 103, 39, 225, 55, 197, 183, 120, 3])"
  unfolding md5_hex_def abc64_absorb bind_r_Inr md5_toString_def md5_digest_def md5_final_def
  by (simp add: Let_def abc64_pad [simplified] abc64_bits [simplified] abc64_encode mem_read_def
      mem_values_def)

section \<open>What the two runs show\<close>

lemma md5_hex_rfc: "length str < 2 ^ 32 \<Longrightarrow> md5_hex TYPE(32) str = Inr (rfc_hex str)"
  using md5_update_rep [OF md5_rep_new, of str] md5_toString_rep
  by (force simp: md5_hex_def)

lemma md5_abc_texts:
  "md5_hex TYPE(32) [97, 98, 99] = Inr (ascii ''900150983cd24fb0d6963f7d28e17f72'')"
  "md5_hex TYPE(64) [97, 98, 99] = Inr (ascii ''7999dc75e8da648c6727e137c5b77803'')"
  unfolding abc32_hex abc64_hex by (simp_all add: bytesToHexString_def HEX_def ascii_def)




end
