(* ===== verification/EventLoop.thy ===== *)
theory EventLoop
  imports Prelude
begin

text \<open>
  \<open>cim::base::EventLoop\<close> (\<open>cim/base/event_loop.h\<close>, \<open>event_loop.cpp\<close>): the one libuv loop of the
  process and its timers. A timer is a block the code allocates and frees itself; \<open>loop_handles\<close>
  are the handles the loop has linked in (\<open>uv_timer_init\<close> links them, only \<open>uv_close\<close> would
  unlink them). libuv's part of \<open>run\<close> is the parameter \<open>uv_run\<close>, a thread that was started and has
  not run yet is counted in \<open>pending_runs\<close>.
\<close>

section \<open>State\<close>

record uv_timer =
  timer_active :: bool
  timer_cb :: nat
  timer_timeout :: nat
  timer_repeat :: nat

record evloop =
  loop_is_run :: bool
  g_default_timer :: "nat option"
  timers :: "nat \<Rightarrow> uv_timer option"
  next_timer :: nat
  loop_handles :: "nat list"
  loop_stop :: bool
  pending_runs :: nat

definition kIdleTick :: nat where "kIdleTick = 10 * 1000"

text \<open>The callback ids of \<open>event_loop.cpp\<close>'s own empty \<open>onTimer\<close>.\<close>

definition idle_cb :: nat where "idle_cb = 0"

section \<open>libuv timers\<close>

definition malloc_timer :: "'a evloop_scheme \<Rightarrow> nat \<times> 'a evloop_scheme" where
  "malloc_timer w =
     (next_timer w,
      w\<lparr>timers := (timers w)(next_timer w \<mapsto>
          \<lparr>timer_active = False, timer_cb = 0, timer_timeout = 0, timer_repeat = 0\<rparr>),
        next_timer := Suc (next_timer w)\<rparr>)"

definition uv_timer_init :: "nat \<Rightarrow> 'a evloop_scheme \<Rightarrow> 'a evloop_scheme" where
  "uv_timer_init t w = w\<lparr>loop_handles := t # loop_handles w\<rparr>"

definition uv_timer_start :: "nat \<Rightarrow> nat \<Rightarrow> nat \<Rightarrow> nat \<Rightarrow> 'a evloop_scheme \<Rightarrow> 'a evloop_scheme res" where
  "uv_timer_start t cb timeout repeat w =
     (case timers w t of None \<Rightarrow> Inl NullDeref
      | Some _ \<Rightarrow> Inr (w\<lparr>timers := (timers w)(t \<mapsto>
          \<lparr>timer_active = True, timer_cb = cb, timer_timeout = timeout, timer_repeat = repeat\<rparr>)\<rparr>))"

definition uv_timer_stop :: "nat \<Rightarrow> 'a evloop_scheme \<Rightarrow> 'a evloop_scheme res" where
  "uv_timer_stop t w =
     (case timers w t of None \<Rightarrow> Inl NullDeref
      | Some u \<Rightarrow> Inr (w\<lparr>timers := (timers w)(t \<mapsto> u\<lparr>timer_active := False\<rparr>)\<rparr>))"

definition free_timer :: "nat \<Rightarrow> 'a evloop_scheme \<Rightarrow> 'a evloop_scheme res" where
  "free_timer t w =
     (case timers w t of None \<Rightarrow> Inl DoubleFree
      | Some _ \<Rightarrow> Inr (w\<lparr>timers := (timers w)(t := None)\<rparr>))"

section \<open>The class\<close>

definition EventLoop_run ::
    "('a evloop_scheme \<Rightarrow> 'a evloop_scheme res) \<Rightarrow> 'a evloop_scheme \<Rightarrow> 'a evloop_scheme res" where
  "EventLoop_run uv_run w =
     (let w = w\<lparr>loop_is_run := True\<rparr>;
          (t, w) = malloc_timer w;
          w = w\<lparr>g_default_timer := Some t\<rparr>;
          w = uv_timer_init t w in
      bind_r (uv_timer_start t idle_cb 0 kIdleTick w) (\<lambda>w.
      bind_r (uv_run w) (\<lambda>w.
      Inr (w\<lparr>loop_is_run := False\<rparr>))))"

definition EventLoop_stop :: "'a evloop_scheme \<Rightarrow> 'a evloop_scheme res" where
  "EventLoop_stop w =
     bind_r (case g_default_timer w of None \<Rightarrow> Inr w
             | Some t \<Rightarrow> bind_r (uv_timer_stop t w) (free_timer t)) (\<lambda>w.
     Inr (w\<lparr>loop_stop := True\<rparr>))"

definition runInThread :: "'a evloop_scheme \<Rightarrow> 'a evloop_scheme" where
  "runInThread w = w\<lparr>pending_runs := Suc (pending_runs w)\<rparr>"

definition registerTimer ::
    "nat \<Rightarrow> nat \<Rightarrow> nat \<Rightarrow> 'a evloop_scheme \<Rightarrow> (nat \<times> 'a evloop_scheme) res" where
  "registerTimer cb repeat timeout w =
     (let (t, w) = malloc_timer w; w = uv_timer_init t w in
      bind_r (uv_timer_start t cb timeout repeat w) (\<lambda>w. Inr (t, w)))"

definition removeTimer :: "nat option \<Rightarrow> 'a evloop_scheme \<Rightarrow> 'a evloop_scheme res" where
  "removeTimer timer w =
     (case timer of None \<Rightarrow> Inr w
      | Some t \<Rightarrow> bind_r (uv_timer_stop t w) (free_timer t))"

section \<open>Timers\<close>

definition timers_inv :: "'a evloop_scheme \<Rightarrow> bool" where
  "timers_inv w \<longleftrightarrow> (\<forall>t. timers w t \<noteq> None \<longrightarrow> t < next_timer w)"

definition evloop0 :: evloop where
  "evloop0 = \<lparr>loop_is_run = False, g_default_timer = None, timers = Map.empty, next_timer = 0,
              loop_handles = [], loop_stop = False, pending_runs = 0\<rparr>"

lemma registerTimer_eq:
  "registerTimer cb repeat timeout w =
     Inr (next_timer w, w\<lparr>timers := (timers w)(next_timer w \<mapsto>
            \<lparr>timer_active = True, timer_cb = cb, timer_timeout = timeout, timer_repeat = repeat\<rparr>),
          next_timer := Suc (next_timer w), loop_handles := next_timer w # loop_handles w\<rparr>)"
  by (simp add: registerTimer_def malloc_timer_def uv_timer_init_def uv_timer_start_def Let_def)



text \<open>
  \<open>stop\<close> frees the idle timer but keeps the pointer, so calling it twice in one run uses
  and would free the block again.
\<close>

theorem stop_twice:
  assumes "g_default_timer w = Some t" "timers w t \<noteq> None"
  shows "\<exists>w'. EventLoop_stop w = Inr w' \<and> timers w' t = None \<and> g_default_timer w' = Some t \<and>
              EventLoop_stop w' = Inl NullDeref"
  using assms by (auto simp: EventLoop_stop_def uv_timer_stop_def free_timer_def)

theorem stop_twice_witness:
  "\<exists>w w'. EventLoop_run Inr evloop0 = Inr w \<and> EventLoop_stop w = Inr w' \<and>
          EventLoop_stop w' = Inl NullDeref"
proof -
  obtain w where w: "EventLoop_run Inr evloop0 = Inr w" "g_default_timer w = Some 0"
      "timers w 0 \<noteq> None"
    by (simp add: EventLoop_run_def evloop0_def malloc_timer_def uv_timer_init_def
        uv_timer_start_def Let_def)
  from stop_twice [OF w(2,3)] w(1) show ?thesis by blast
qed

end
