(* ===== verification/TcpClient.thy ===== *)
theory TcpClient
  imports EventLoop
begin

text \<open>
  \<open>cim::base::TcpClient\<close> (\<open>cim/base/tcp_client.h\<close>, \<open>tcp_client.cpp\<close>), with the registry
  \<open>g_conn_map\<close> from sockets to clients. The record \<open>net\<close> extends the event loop's: \<open>objs\<close> are the
  live objects, \<open>held\<close> the \<open>shared_ptr\<close>s outside the registry (one entry each), \<open>handles\<close> the libuv
  handles. An object is destroyed when its last \<open>shared_ptr\<close> goes, and its destructor runs
  \<open>close\<close>. What libuv and the operating system answer is the parameter \<open>uv_env\<close>, indexed by the
  handle or the call, so that they may answer anything. User callbacks are values (ids) in the
  state and functions in \<open>net_cb\<close>.
\<close>

section \<open>State\<close>

datatype ConnectionStatus = kDefault | kConnecting | kDisConnected | kConnectOk

record tcp =
  tcp_handle :: "nat option"
  sock_fd :: int
  connect_status :: ConnectionStatus
  tcp_connection_cb :: "nat option"
  message_cb :: "nat option"
  server_ip :: "byte list"
  server_port :: "16 word"

record uv_handle =
  h_fd :: "int option"
  h_closing :: bool
  h_reading :: bool

record net = evloop +
  objs :: "nat \<Rightarrow> tcp option"
  next_obj :: nat
  held :: "nat list"
  g_conn_map :: "(int \<times> nat) list"
  handles :: "nat \<Rightarrow> uv_handle option"
  next_handle :: nat
  read_bufs :: "nat list"
  next_buf :: nat
  sent :: "(int \<times> byte list) list"

record uv_env =
  uv_tcp_init :: "nat \<Rightarrow> int"
  uv_ip4_addr :: "byte list \<Rightarrow> u16 \<Rightarrow> int"
  uv_tcp_connect :: "nat \<Rightarrow> int \<times> int option"
  sys_send :: "nat \<Rightarrow> int \<Rightarrow> byte list \<Rightarrow> int"

record 'w net_cb =
  on_connection :: "nat \<Rightarrow> nat \<Rightarrow> ConnectionStatus \<Rightarrow> 'w \<Rightarrow> 'w res"
  on_message :: "nat \<Rightarrow> nat \<Rightarrow> byte list \<Rightarrow> 'w \<Rightarrow> 'w res"

definition kInvalidSocket :: int where "kInvalidSocket = -1"

section \<open>Shared pointers and the registry\<close>

definition referenced :: "nat \<Rightarrow> 'a net_scheme \<Rightarrow> bool" where
  "referenced i w \<longleftrightarrow> i \<in> set (held w) \<or> i \<in> snd ` set (g_conn_map w)"

definition hold :: "nat \<Rightarrow> 'a net_scheme \<Rightarrow> 'a net_scheme" where
  "hold i w = w\<lparr>held := i # held w\<rparr>"

definition unregister :: "int \<Rightarrow> 'a net_scheme \<Rightarrow> 'a net_scheme" where
  "unregister fd w = w\<lparr>g_conn_map := filter (\<lambda>e. fst e \<noteq> fd) (g_conn_map w)\<rparr>"

definition set_tcp :: "nat \<Rightarrow> (tcp \<Rightarrow> tcp) \<Rightarrow> 'a net_scheme \<Rightarrow> 'a net_scheme res" where
  "set_tcp i f w =
     (case objs w i of None \<Rightarrow> Inl NullDeref
      | Some t \<Rightarrow> Inr (w\<lparr>objs := (objs w)(i \<mapsto> f t)\<rparr>))"

definition uv_close :: "nat \<Rightarrow> 'a net_scheme \<Rightarrow> 'a net_scheme" where
  "uv_close h w =
     w\<lparr>handles := (handles w)(h := map_option (\<lambda>u. u\<lparr>h_closing := True\<rparr>) (handles w h))\<rparr>"

text \<open>
  \<open>close\<close>. Erasing the entry drops the \<open>shared_ptr\<close> in it: if it was the last one of that object,
  the object's destructor closes it in turn. Each nesting has erased an entry.
\<close>

lemma filter_shorter: "map_of m k = Some v \<Longrightarrow> length (filter (\<lambda>e. fst e \<noteq> k) m) < length m"
  by (induction m) (auto split: if_splits intro: le_imp_less_Suc)

function TcpClient_close :: "nat \<Rightarrow> 'a net_scheme \<Rightarrow> 'a net_scheme res" where
  "TcpClient_close i w =
     (case objs w i of None \<Rightarrow> Inl NullDeref
      | Some t \<Rightarrow>
        let w1 = (case tcp_handle t of None \<Rightarrow> w
                  | Some h \<Rightarrow> (uv_close h w)\<lparr>objs := (objs w)(i \<mapsto> t\<lparr>tcp_handle := None\<rparr>)\<rparr>) in
        bind_r
          (if sock_fd t = kInvalidSocket then Inr w1
           else case map_of (g_conn_map w) (sock_fd t) of None \<Rightarrow> Inr w1
             | Some j \<Rightarrow>
               if referenced j (unregister (sock_fd t) w1) then Inr (unregister (sock_fd t) w1)
               else bind_r (TcpClient_close j (unregister (sock_fd t) w1)) (\<lambda>w2.
                    Inr (w2\<lparr>objs := (objs w2)(j := None)\<rparr>)))
          (set_tcp i (\<lambda>t. t\<lparr>connect_status := kDisConnected\<rparr>)))"
  by pat_completeness auto
termination
  by (relation "measure (\<lambda>(i, w). length (g_conn_map w))")
    (auto simp: unregister_def uv_close_def split: option.split dest: filter_shorter)

declare TcpClient_close.simps [simp del]

definition TcpClient_destroy :: "nat \<Rightarrow> 'a net_scheme \<Rightarrow> 'a net_scheme res" where
  "TcpClient_destroy i w =
     bind_r (TcpClient_close i w) (\<lambda>w. Inr (w\<lparr>objs := (objs w)(i := None)\<rparr>))"

definition drop_ref :: "nat \<Rightarrow> 'a net_scheme \<Rightarrow> 'a net_scheme res" where
  "drop_ref i w = (if referenced i w then Inr w else TcpClient_destroy i w)"

definition release :: "nat \<Rightarrow> 'a net_scheme \<Rightarrow> 'a net_scheme res" where
  "release i w = drop_ref i (w\<lparr>held := remove1 i (held w)\<rparr>)"

text \<open>\<open>g_conn_map[fd] = shared_from_this()\<close>\<close>

definition register :: "int \<Rightarrow> nat \<Rightarrow> 'a net_scheme \<Rightarrow> 'a net_scheme res" where
  "register fd i w =
     (let w' = (unregister fd w)\<lparr>g_conn_map := (fd, i) # g_conn_map (unregister fd w)\<rparr> in
      case map_of (g_conn_map w) fd of None \<Rightarrow> Inr w' | Some j \<Rightarrow> drop_ref j w')"

section \<open>The class\<close>

text \<open>\<open>std::make_shared<TcpClient>()\<close>; the pointer returned is one entry of \<open>held\<close>.\<close>

definition TcpClient_new :: "'a net_scheme \<Rightarrow> nat \<times> 'a net_scheme" where
  "TcpClient_new w =
     (let i = next_obj w in
      (i, w\<lparr>objs := (objs w)(i \<mapsto>
              \<lparr>tcp_handle = None, sock_fd = 0, connect_status = kDefault, tcp_connection_cb = None,
               message_cb = None, server_ip = [], server_port = 0\<rparr>),
            next_obj := Suc i, held := i # held w\<rparr>))"

definition malloc_handle :: "'a net_scheme \<Rightarrow> nat \<times> 'a net_scheme" where
  "malloc_handle w =
     (next_handle w,
      w\<lparr>handles := (handles w)(next_handle w \<mapsto> \<lparr>h_fd = None, h_closing = False, h_reading = False\<rparr>),
        next_handle := Suc (next_handle w)\<rparr>)"

definition attach_fd :: "nat \<Rightarrow> int option \<Rightarrow> 'a net_scheme \<Rightarrow> 'a net_scheme" where
  "attach_fd h fd w =
     w\<lparr>handles := (handles w)(h := map_option (\<lambda>u. u\<lparr>h_fd := fd\<rparr>) (handles w h))\<rparr>"

text \<open>
  \<open>uv_fileno\<close>: the descriptor of a handle, an error (\<open>None\<close>) when it has none or has been closed.
\<close>

definition uv_fileno :: "nat \<Rightarrow> 'a net_scheme \<Rightarrow> int option" where
  "uv_fileno h w =
     (case handles w h of None \<Rightarrow> None | Some u \<Rightarrow> if h_closing u then None else h_fd u)"

definition TcpClient_connect ::
    "uv_env \<Rightarrow> nat \<Rightarrow> byte list \<Rightarrow> u16 \<Rightarrow> 'a net_scheme \<Rightarrow> (bool \<times> 'a net_scheme) res" where
  "TcpClient_connect env i serverIp port w =
     bind_r (TcpClient_close i w) (\<lambda>w.
     bind_r (set_tcp i (\<lambda>t. t\<lparr>server_ip := serverIp, server_port := port\<rparr>) w) (\<lambda>w.
     bind_r (assert_r (loop_is_run w)) (\<lambda>_.
     let (h, w) = malloc_handle w in
     bind_r (set_tcp i (\<lambda>t. t\<lparr>tcp_handle := Some h\<rparr>) w) (\<lambda>w.
     let ret = uv_tcp_init env h in
     if ret = kInvalidSocket then Inr (False, w) else
     let ret = uv_ip4_addr env serverIp port in
     if ret = kInvalidSocket then Inr (False, w) else
     bind_r (set_tcp i (\<lambda>t. t\<lparr>connect_status := kConnecting\<rparr>) w) (\<lambda>w.
     let (ret, fd) = uv_tcp_connect env h; w = attach_fd h fd w in
     if ret = 0 then
       bind_r (case uv_fileno h w of None \<Rightarrow> Inr w
               | Some fd \<Rightarrow> set_tcp i (\<lambda>t. t\<lparr>sock_fd := fd\<rparr>) w) (\<lambda>w.
       case objs w i of None \<Rightarrow> Inl NullDeref
       | Some t \<Rightarrow> bind_r (register (sock_fd t) i w) (\<lambda>w. Inr (True, w)))
     else bind_r (TcpClient_close i w) (\<lambda>w. Inr (False, w)))))))"

definition TcpClient_send ::
    "uv_env \<Rightarrow> nat \<Rightarrow> byte list \<Rightarrow> 'a net_scheme \<Rightarrow> (int \<times> 'a net_scheme) res" where
  "TcpClient_send env i buff w =
     (case objs w i of None \<Rightarrow> Inl NullDeref
      | Some t \<Rightarrow>
        bind_r (assert_r (connect_status t = kConnectOk)) (\<lambda>_.
        Inr (sys_send env (length (sent w)) (sock_fd t) buff,
             w\<lparr>sent := sent w @ [(sock_fd t, buff)]\<rparr>)))"

definition TcpClient_setConnectionCallback :: "nat \<Rightarrow> nat option \<Rightarrow> 'a net_scheme \<Rightarrow> 'a net_scheme res" where
  "TcpClient_setConnectionCallback i cb = set_tcp i (\<lambda>t. t\<lparr>tcp_connection_cb := cb\<rparr>)"

definition setMessageCallback :: "nat \<Rightarrow> nat option \<Rightarrow> 'a net_scheme \<Rightarrow> 'a net_scheme res" where
  "setMessageCallback i cb = set_tcp i (\<lambda>t. t\<lparr>message_cb := cb\<rparr>)"

definition setConnectionStatus ::
    "'a net_scheme net_cb \<Rightarrow> nat \<Rightarrow> ConnectionStatus \<Rightarrow> 'a net_scheme \<Rightarrow> 'a net_scheme res" where
  "setConnectionStatus cbs i status w =
     bind_r (set_tcp i (\<lambda>t. t\<lparr>connect_status := status\<rparr>) w) (\<lambda>w.
     case objs w i of None \<Rightarrow> Inl NullDeref
     | Some t \<Rightarrow>
       (case tcp_connection_cb t of None \<Rightarrow> Inr w
        | Some c \<Rightarrow> on_connection cbs c i (connect_status t) w))"

text \<open>
  \<open>findTcpClient\<close> asks for the descriptor inside an \<open>assert\<close>: with \<open>NDEBUG\<close> the call is not compiled
  and \<open>sockFd\<close> stays invalid.
\<close>

definition findTcpClient :: "bool \<Rightarrow> nat \<Rightarrow> 'a net_scheme \<Rightarrow> nat option res" where
  "findTcpClient ndebug h w =
     (if ndebug then Inr (map_of (g_conn_map w) kInvalidSocket)
      else case uv_fileno h w of None \<Rightarrow> Inl AssertFailed
        | Some sockFd \<Rightarrow> Inr (map_of (g_conn_map w) sockFd))"

text \<open>\<open>std::to_string\<close> of an \<open>int16_t\<close>.\<close>

fun digits :: "nat \<Rightarrow> byte list" where
  "digits n = (if n < 10 then [of_nat (48 + n)] else digits (n div 10) @ [of_nat (48 + n mod 10)])"

declare digits.simps [simp del]

definition to_string :: "int \<Rightarrow> byte list" where
  "to_string k = (if k < 0 then 45 # digits (nat (- k)) else digits (nat k))"

definition remoteAddr :: "tcp \<Rightarrow> byte list" where
  "remoteAddr t = server_ip t @ [58] @ to_string (sint (server_port t))"

definition uv_read_start :: "nat \<Rightarrow> 'a net_scheme \<Rightarrow> 'a net_scheme" where
  "uv_read_start h w =
     w\<lparr>handles := (handles w)(h := map_option (\<lambda>u. u\<lparr>h_reading := True\<rparr>) (handles w h))\<rparr>"

text \<open>The handlers hold a \<open>shared_ptr\<close> of their own while they run.\<close>

definition onConnect ::
    "bool \<Rightarrow> 'a net_scheme net_cb \<Rightarrow> nat \<Rightarrow> int \<Rightarrow> 'a net_scheme \<Rightarrow> 'a net_scheme res" where
  "onConnect ndebug cbs h status w =
     (if status = 0 then
        bind_r (findTcpClient ndebug h w) (\<lambda>c.
        bind_r (assert_r (ndebug \<or> c \<noteq> None)) (\<lambda>_.
        bind_r (case c of None \<Rightarrow> Inr w
                | Some i \<Rightarrow>
                  bind_r (setConnectionStatus cbs i kConnectOk (hold i w)) (release i)) (\<lambda>w.
        Inr (uv_read_start h w))))
      else
        bind_r (findTcpClient ndebug h w) (\<lambda>c.
        case c of None \<Rightarrow> Inr w
        | Some i \<Rightarrow>
          bind_r (TcpClient_close i (hold i w)) (\<lambda>w.
          bind_r (setConnectionStatus cbs i kDisConnected w) (release i))))"

definition alloc_buffer :: "'a net_scheme \<Rightarrow> nat \<times> 'a net_scheme" where
  "alloc_buffer w =
     (next_buf w, w\<lparr>read_bufs := next_buf w # read_bufs w, next_buf := Suc (next_buf w)\<rparr>)"

definition free_buf :: "nat \<Rightarrow> 'a net_scheme \<Rightarrow> 'a net_scheme" where
  "free_buf b w = w\<lparr>read_bufs := removeAll b (read_bufs w)\<rparr>"

text \<open>\<open>onRead(client, nread, buf)\<close>: \<open>bs\<close> are the first \<open>nread\<close> bytes behind \<open>buf->base\<close>.\<close>

definition onRead ::
    "bool \<Rightarrow> 'a net_scheme net_cb \<Rightarrow> nat \<Rightarrow> int \<Rightarrow> nat \<Rightarrow> byte list \<Rightarrow> 'a net_scheme \<Rightarrow> 'a net_scheme res"
  where
  "onRead ndebug cbs h nread b bs w =
     (if nread > 0 then
        bind_r (findTcpClient ndebug h w) (\<lambda>c.
        case c of None \<Rightarrow> Inr w
        | Some i \<Rightarrow>
          (case objs w i of None \<Rightarrow> Inl NullDeref
           | Some t \<Rightarrow>
             bind_r (case message_cb t of None \<Rightarrow> Inr (hold i w)
                     | Some m \<Rightarrow> on_message cbs m i bs (hold i w)) (release i)))
      else
        bind_r (if nread < 0 then
                  bind_r (findTcpClient ndebug h w) (\<lambda>c.
                  case c of None \<Rightarrow> Inr w
                  | Some i \<Rightarrow>
                    bind_r (TcpClient_close i (hold i w)) (\<lambda>w.
                    bind_r (setConnectionStatus cbs i kDisConnected w) (release i)))
                else Inr w) (\<lambda>w.
        Inr (free_buf b w)))"

text \<open>
  \<open>ping\<close>: \<open>fd\<close> and \<open>ret\<close> are what \<open>socket\<close> and \<open>connect\<close> answer; the address is in network order.
\<close>

definition ping :: "int \<Rightarrow> (int \<Rightarrow> byte list \<Rightarrow> u16 \<Rightarrow> int) \<Rightarrow> byte list \<Rightarrow> u16 \<Rightarrow> bool" where
  "ping fd sys_connect serverIp port =
     (if fd = -1 then False
      else (let ret = sys_connect fd serverIp (htons port) in ret \<noteq> -1))"

end
