(* ===== verification/TcpLaws.thy ===== *)
theory TcpLaws
  imports TcpClient
begin

text \<open>
  The invariant of the registry: sockets are registered once, every registered or held client is
  alive, and an entry's socket is its client's. \<open>close\<close>, \<open>connect\<close>, releasing and the handlers keep
  it.
\<close>

section \<open>The invariant\<close>

definition conn_ok :: "'a net_scheme \<Rightarrow> bool" where
  "conn_ok w \<longleftrightarrow>
     distinct (map fst (g_conn_map w)) \<and>
     (\<forall>(fd, i) \<in> set (g_conn_map w). \<exists>t. objs w i = Some t \<and> sock_fd t = fd) \<and>
     (\<forall>i \<in> set (held w). objs w i \<noteq> None) \<and>
     (\<forall>i t. objs w i = Some t \<longrightarrow> i < next_obj w \<and> 0 \<le> sock_fd t)"

definition owned :: "nat \<Rightarrow> 'a net_scheme \<Rightarrow> bool" where
  "owned i w \<longleftrightarrow> i \<in> set (held w) \<or> i \<notin> snd ` set (g_conn_map w)"

lemma conn_okD:
  assumes "conn_ok w"
  shows "distinct (map fst (g_conn_map w))"
    and "map_of (g_conn_map w) fd = Some i \<Longrightarrow> \<exists>t. objs w i = Some t \<and> sock_fd t = fd"
    and "i \<in> set (held w) \<Longrightarrow> \<exists>t. objs w i = Some t"
    and "(fd, i) \<in> set (g_conn_map w) \<Longrightarrow> objs w i = Some t \<Longrightarrow> fd = sock_fd t"
  using assms by (auto simp: conn_ok_def dest: map_of_SomeD)

lemma unregister_simps [simp]:
  "objs (unregister fd w) = objs w" "held (unregister fd w) = held w"
  "next_obj (unregister fd w) = next_obj w" "handles (unregister fd w) = handles w"
  "g_conn_map (unregister fd w) = filter (\<lambda>e. fst e \<noteq> fd) (g_conn_map w)"
  "next_handle (unregister fd w) = next_handle w" "read_bufs (unregister fd w) = read_bufs w"
  "loop_is_run (unregister fd w) = loop_is_run w" "net.more (unregister fd w) = net.more w"
  by (simp_all add: unregister_def)

lemma uv_close_simps [simp]:
  "objs (uv_close h w) = objs w" "held (uv_close h w) = held w"
  "next_obj (uv_close h w) = next_obj w" "g_conn_map (uv_close h w) = g_conn_map w"
  "loop_is_run (uv_close h w) = loop_is_run w" "next_handle (uv_close h w) = next_handle w"
  "read_bufs (uv_close h w) = read_bufs w" "net.more (uv_close h w) = net.more w"
  by (simp_all add: uv_close_def)

lemma uv_fileno_cong: "handles w' = handles w \<Longrightarrow> uv_fileno h w' = uv_fileno h w"
  by (simp add: uv_fileno_def)

lemma uv_fileno_objs [simp]:
  "uv_fileno h (w\<lparr>objs := f\<rparr>) = uv_fileno h w" "uv_fileno h (unregister fd w) = uv_fileno h w"
  by (simp_all add: uv_fileno_def)

lemma uv_fileno_closed:
  "uv_fileno h (uv_close h w) = None" "uv_fileno h w = None \<Longrightarrow> uv_fileno h (uv_close g w) = None"
  by (auto simp: uv_fileno_def uv_close_def split: option.splits if_splits)

lemma map_of_filter_fst [simp]:
  "map_of (filter (\<lambda>e. fst e \<noteq> k) m) l = (if l = k then None else map_of m l)"
  by (induction m) auto

section \<open>close\<close>

text \<open>What \<open>close\<close> leaves behind: the client off line, its socket unregistered, the others as they
  were, except that a client registered under the same socket and held by nobody is gone.\<close>

definition closed :: "nat \<Rightarrow> tcp \<Rightarrow> 'a net_scheme \<Rightarrow> 'a net_scheme \<Rightarrow> bool" where
  "closed i t w w' \<longleftrightarrow>
     objs w' i = Some (t\<lparr>tcp_handle := None, connect_status := kDisConnected\<rparr>) \<and>
     g_conn_map w' = (if sock_fd t = kInvalidSocket then g_conn_map w
                      else filter (\<lambda>e. fst e \<noteq> sock_fd t) (g_conn_map w)) \<and>
     held w' = held w \<and> next_obj w' = next_obj w \<and> loop_is_run w' = loop_is_run w \<and>
     next_handle w' = next_handle w \<and> read_bufs w' = read_bufs w \<and> net.more w' = net.more w \<and>
     (\<forall>h. tcp_handle t = Some h \<or> uv_fileno h w = None \<longrightarrow> uv_fileno h w' = None) \<and>
     (\<forall>k. k \<noteq> i \<longrightarrow> objs w' k = objs w k \<or>
        objs w' k = None \<and> sock_fd t \<noteq> kInvalidSocket \<and>
        map_of (g_conn_map w) (sock_fd t) = Some k \<and> k \<notin> set (held w))"

lemma close_free:
  assumes "objs w i = Some t" "sock_fd t = kInvalidSocket \<or> map_of (g_conn_map w) (sock_fd t) = None"
  shows "\<exists>w'. TcpClient_close i w = Inr w' \<and> closed i t w w' \<and> (\<forall>k. k \<noteq> i \<longrightarrow> objs w' k = objs w k)"
proof -
  have f: "filter (\<lambda>e. fst e \<noteq> k) m = m" if "map_of m k = None" for k and m :: "(int \<times> nat) list"
    using that by (auto simp: filter_id_conv map_of_eq_None_iff)
  show ?thesis using assms f
    by (subst TcpClient_close.simps)
      (auto simp: set_tcp_def closed_def Let_def uv_fileno_closed split: option.split)
qed

lemma close_owned:
  assumes ok: "conn_ok w" and t: "objs w i = Some t" and own: "owned i w"
  shows "\<exists>w'. TcpClient_close i w = Inr w' \<and> closed i t w w'"
proof (cases "sock_fd t = kInvalidSocket \<or> map_of (g_conn_map w) (sock_fd t) = None")
  case True
  then show ?thesis using close_free [OF t] by blast
next
  case False
  then obtain j where j: "map_of (g_conn_map w) (sock_fd t) = Some j"
    and fd: "sock_fd t \<noteq> kInvalidSocket" by auto
  define w1 where "w1 = (case tcp_handle t of None \<Rightarrow> w
     | Some h \<Rightarrow> (uv_close h w)\<lparr>objs := (objs w)(i \<mapsto> t\<lparr>tcp_handle := None\<rparr>)\<rparr>)"
  let ?u = "unregister (sock_fd t) w1"
  have w1: "objs w1 i = Some (t\<lparr>tcp_handle := None\<rparr>)" "held w1 = held w" "next_obj w1 = next_obj w"
    "g_conn_map w1 = g_conn_map w" "k \<noteq> i \<Longrightarrow> objs w1 k = objs w k" "loop_is_run w1 = loop_is_run w"
    "next_handle w1 = next_handle w" "read_bufs w1 = read_bufs w" "net.more w1 = net.more w"
    "tcp_handle t = Some h \<or> uv_fileno h w = None \<Longrightarrow> uv_fileno h w1 = None" for k h
    using t by (auto simp: w1_def uv_fileno_closed split: option.split)
  have run: "TcpClient_close i w = bind_r
      (if referenced j ?u then Inr ?u
       else bind_r (TcpClient_close j ?u) (\<lambda>w2. Inr (w2\<lparr>objs := (objs w2)(j := None)\<rparr>)))
      (set_tcp i (\<lambda>t. t\<lparr>connect_status := kDisConnected\<rparr>))"
    using t j fd by (subst TcpClient_close.simps) (simp add: w1_def Let_def)
  show ?thesis
  proof (cases "referenced j ?u")
    case True
    then show ?thesis using w1 fd by (auto simp: run set_tcp_def closed_def)
  next
    case False
    obtain tj where tj: "objs w j = Some tj" "sock_fd tj = sock_fd t"
      using conn_okD(2) [OF ok j] by auto
    have ji: "j \<noteq> i"
    proof
      assume "j = i"
      moreover from map_of_SomeD [OF j] have "j \<in> snd ` set (g_conn_map w)" by force
      ultimately show False using False own w1(2) by (simp add: referenced_def owned_def)
    qed
    have "objs ?u j = Some tj" using w1(5) [OF ji] tj(1) by simp
    from close_free [OF this] obtain w2 where
      w2: "TcpClient_close j ?u = Inr w2" "closed j tj ?u w2" "\<forall>k. k \<noteq> j \<longrightarrow> objs w2 k = objs ?u k"
      using tj(2) by auto
    have notheld: "j \<notin> set (held w)" using False w1(2) by (auto simp: referenced_def)
    show ?thesis using False w2 w1 ji j fd tj(2) notheld
      by (auto simp: run set_tcp_def closed_def)
  qed
qed

lemma closed_ok:
  assumes ok: "conn_ok w" and t: "objs w i = Some t" and c: "closed i t w w'"
  shows "conn_ok w'"
proof -
  have g: "set (g_conn_map w') \<subseteq> set (g_conn_map w)" "distinct (map fst (g_conn_map w'))"
    using c ok by (auto simp: closed_def conn_ok_def distinct_map inj_on_def)
  have reg: "\<exists>t'. objs w' k = Some t' \<and> sock_fd t' = fd" if "(fd, k) \<in> set (g_conn_map w')" for fd k
  proof (cases "k = i")
    case True
    with that g(1) conn_okD(4) [OF ok _ t] c show ?thesis by (auto simp: closed_def)
  next
    case False
    have m: "(fd, k) \<in> set (g_conn_map w)" using that g(1) by auto
    then obtain t' where t': "objs w k = Some t'" "sock_fd t' = fd"
      using ok by (auto simp: conn_ok_def)
    have "map_of (g_conn_map w) (sock_fd t) = Some k \<Longrightarrow> sock_fd t = fd"
      using conn_okD(2) [OF ok, of "sock_fd t" k] t' by auto
    then show ?thesis using False c t' that
      by (auto simp: closed_def split: if_splits)
  qed
  show ?thesis
    unfolding conn_ok_def
  proof (intro conjI ballI allI impI)
    show "distinct (map fst (g_conn_map w'))" by (rule g(2))
    show "case e of (fd, i) \<Rightarrow> \<exists>t. objs w' i = Some t \<and> sock_fd t = fd"
      if "e \<in> set (g_conn_map w')" for e using reg that by (cases e) auto
    show "objs w' k \<noteq> None" if "k \<in> set (held w')" for k
      using that c conn_okD(3) [OF ok, of k] by (cases "k = i") (auto simp: closed_def)
    show "k < next_obj w'" "0 \<le> sock_fd u" if "objs w' k = Some u" for k u
      using that c ok t by (cases "k = i"; fastforce simp: closed_def conn_ok_def)+
  qed
qed

lemma close_ok:
  assumes "conn_ok w" "objs w i = Some t" "owned i w"
  shows "\<exists>w'. TcpClient_close i w = Inr w' \<and> closed i t w w' \<and> conn_ok w'"
  using close_owned [OF assms] closed_ok [OF assms(1,2)] by blast

section \<open>Destruction\<close>

lemma conn_ok_forget:
  assumes "conn_ok w" "i \<notin> set (held w)" "i \<notin> snd ` set (g_conn_map w)"
  shows "conn_ok (w\<lparr>objs := (objs w)(i := None)\<rparr>)"
  using assms by (fastforce simp: conn_ok_def image_iff)

lemma closed_sub:
  "closed i t w w' \<Longrightarrow> set (g_conn_map w') \<subseteq> set (g_conn_map w)"
  by (auto simp: closed_def)

lemma drop_ref_ok:
  assumes ok: "conn_ok w" and i: "objs w i = Some t"
  shows "\<exists>w'. drop_ref i w = Inr w' \<and> conn_ok w' \<and> held w' = held w \<and> next_obj w' = next_obj w \<and>
      loop_is_run w' = loop_is_run w \<and> (\<forall>k. k \<noteq> i \<longrightarrow> k \<in> set (held w) \<longrightarrow> objs w' k = objs w k) \<and>
      (referenced i w \<longrightarrow> w' = w) \<and> net.more w' = net.more w \<and>
      set (g_conn_map w') \<subseteq> set (g_conn_map w) \<and>
      (\<forall>fd. fd \<noteq> sock_fd t \<longrightarrow> map_of (g_conn_map w') fd = map_of (g_conn_map w) fd)"
proof (cases "referenced i w")
  case True
  then show ?thesis using ok by (simp add: drop_ref_def)
next
  case False
  then have "owned i w" by (simp add: owned_def referenced_def)
  from close_ok [OF ok i this] obtain w' where
    w': "TcpClient_close i w = Inr w'" "closed i t w w'" "conn_ok w'" by blast
  have "i \<notin> set (held w')" "i \<notin> snd ` set (g_conn_map w')"
    using False w'(2) closed_sub [OF w'(2)] by (auto simp: referenced_def closed_def)
  from conn_ok_forget [OF w'(3) this] w'(2) closed_sub [OF w'(2)] show ?thesis
    using False by (auto simp: drop_ref_def TcpClient_destroy_def w'(1) closed_def)
qed

lemma conn_ok_release: "conn_ok w \<Longrightarrow> conn_ok (w\<lparr>held := remove1 i (held w)\<rparr>)"
  using set_remove1_subset [of i "held w"] by (fastforce simp: conn_ok_def)

lemma release_ok:
  assumes "conn_ok w" "objs w i = Some t"
  shows "\<exists>w'. release i w = Inr w' \<and> conn_ok w' \<and> held w' = remove1 i (held w) \<and>
      net.more w' = net.more w \<and> set (g_conn_map w') \<subseteq> set (g_conn_map w) \<and>
      loop_is_run w' = loop_is_run w"
  using drop_ref_ok [OF conn_ok_release [OF assms(1), of i], of i t] assms(2)
  by (auto simp: release_def)

lemma hold_ok: "conn_ok w \<Longrightarrow> objs w i = Some t \<Longrightarrow> conn_ok (hold i w)"
  by (auto simp: conn_ok_def hold_def)

lemma TcpClient_new_ok:
  assumes ok: "conn_ok w"
  shows "conn_ok (snd (TcpClient_new w))" "objs w (fst (TcpClient_new w)) = None"
    "held (snd (TcpClient_new w)) = fst (TcpClient_new w) # held w"
proof -
  have None: "objs w (next_obj w) = None"
    using ok by (cases "objs w (next_obj w)") (auto simp: conn_ok_def)
  then show "objs w (fst (TcpClient_new w)) = None" by (simp add: TcpClient_new_def Let_def)
  show "held (snd (TcpClient_new w)) = fst (TcpClient_new w) # held w"
    by (simp add: TcpClient_new_def Let_def)
  have fresh: "k \<noteq> next_obj w" if "objs w k = Some t" for k t
    using that None by auto
  show "conn_ok (snd (TcpClient_new w))"
    unfolding conn_ok_def
  proof (intro conjI ballI allI impI)
    show "distinct (map fst (g_conn_map (snd (TcpClient_new w))))"
      using ok by (simp add: TcpClient_new_def Let_def conn_ok_def)
    show "case e of (fd, i) \<Rightarrow> \<exists>t. objs (snd (TcpClient_new w)) i = Some t \<and> sock_fd t = fd"
      if "e \<in> set (g_conn_map (snd (TcpClient_new w)))" for e
      using ok that None by (fastforce simp: TcpClient_new_def Let_def conn_ok_def)
    show "objs (snd (TcpClient_new w)) k \<noteq> None" if "k \<in> set (held (snd (TcpClient_new w)))" for k
      using ok that by (auto simp: TcpClient_new_def Let_def conn_ok_def)
    show "k < next_obj (snd (TcpClient_new w))" "0 \<le> sock_fd t"
      if "objs (snd (TcpClient_new w)) k = Some t" for k t
      using ok that by (auto simp: TcpClient_new_def Let_def conn_ok_def less_Suc_eq split: if_splits)
  qed
qed

section \<open>Registration and connect\<close>

lemma register_ok:
  assumes ok: "conn_ok w" and i: "objs w i = Some t" "i \<in> set (held w)"
  shows "\<exists>w'. register (sock_fd t) i w = Inr w' \<and> conn_ok w' \<and> held w' = held w \<and>
      objs w' i = Some t \<and> net.more w' = net.more w \<and>
      set (g_conn_map w') \<subseteq> insert (sock_fd t, i) (set (g_conn_map w)) \<and>
      (map_of (g_conn_map w) (sock_fd t) \<in> {None, Some i} \<longrightarrow>
       map_of (g_conn_map w') (sock_fd t) = Some i)"
proof -
  let ?fd = "sock_fd t"
  let ?w = "(unregister ?fd w)\<lparr>g_conn_map := (?fd, i) # g_conn_map (unregister ?fd w)\<rparr>"
  have "distinct (map fst (filter (\<lambda>e. fst e \<noteq> ?fd) (g_conn_map w)))"
    using ok by (auto simp: conn_ok_def distinct_map inj_on_def)
  then have ok': "conn_ok ?w"
    using ok i by (auto simp: conn_ok_def)
  show ?thesis
  proof (cases "map_of (g_conn_map w) ?fd")
    case None
    then show ?thesis using ok' i by (auto simp: register_def Let_def)
  next
    case (Some j)
    obtain u where u: "objs ?w j = Some u" using conn_okD(2) [OF ok Some] by auto
    from drop_ref_ok [OF ok' u] obtain w' where
      w': "drop_ref j ?w = Inr w'" "conn_ok w'" "held w' = held w"
        "j \<noteq> i \<longrightarrow> objs w' i = Some t" "referenced j ?w \<longrightarrow> w' = ?w" "net.more w' = net.more w"
        "set (g_conn_map w') \<subseteq> set (g_conn_map ?w)"
      using i by auto
    have "referenced j ?w" if "j = i" using i that by (simp add: referenced_def)
    then show ?thesis using w' Some i by (auto simp: register_def Let_def)
  qed
qed

lemma set_tcp_ok:
  assumes "conn_ok w" "objs w i = Some t" "sock_fd (f t) = sock_fd t"
  shows "set_tcp i f w = Inr (w\<lparr>objs := (objs w)(i \<mapsto> f t)\<rparr>)"
    and "conn_ok (w\<lparr>objs := (objs w)(i \<mapsto> f t)\<rparr>)"
  using assms by (auto simp: set_tcp_def conn_ok_def)

lemma net_simps [simp]:
  "objs (attach_fd h fd w) = objs w" "held (attach_fd h fd w) = held w"
  "g_conn_map (attach_fd h fd w) = g_conn_map w" "next_obj (attach_fd h fd w) = next_obj w"
  "objs (snd (malloc_handle w)) = objs w" "held (snd (malloc_handle w)) = held w"
  "g_conn_map (snd (malloc_handle w)) = g_conn_map w"
  "next_obj (snd (malloc_handle w)) = next_obj w"
  "objs (hold i w) = objs w" "held (hold i w) = i # held w" "g_conn_map (hold i w) = g_conn_map w"
  "next_obj (hold i w) = next_obj w"
  "objs (uv_read_start h w) = objs w" "held (uv_read_start h w) = held w"
  "g_conn_map (uv_read_start h w) = g_conn_map w" "next_obj (uv_read_start h w) = next_obj w"
  "objs (free_buf b w) = objs w" "held (free_buf b w) = held w"
  "g_conn_map (free_buf b w) = g_conn_map w" "next_obj (free_buf b w) = next_obj w"
  "net.more (attach_fd h fd w) = net.more w" "net.more (snd (malloc_handle w)) = net.more w"
  "net.more (hold i w) = net.more w" "net.more (uv_read_start h w) = net.more w"
  "net.more (free_buf b w) = net.more w"
  by (simp_all add: attach_fd_def malloc_handle_def hold_def uv_read_start_def free_buf_def)

lemma conn_ok_cong:
  "objs w' = objs w \<Longrightarrow> held w' = held w \<Longrightarrow> g_conn_map w' = g_conn_map w \<Longrightarrow>
   next_obj w' = next_obj w \<Longrightarrow> conn_ok w \<Longrightarrow> conn_ok w'"
  by (simp add: conn_ok_def)

definition env_ok :: "uv_env \<Rightarrow> bool" where
  "env_ok env \<longleftrightarrow> (\<forall>h fd. snd (uv_tcp_connect env h) = Some fd \<longrightarrow> 0 \<le> fd)"

text \<open>What \<open>connect\<close> has after it closed the client: it is in no registry entry.\<close>

lemma close_unregisters:
  assumes ok: "conn_ok w" and i: "objs w i = Some t" "i \<in> set (held w)"
  obtains w1 where "TcpClient_close i w = Inr w1" "closed i t w w1" "conn_ok w1" "0 \<le> sock_fd t"
    "i \<notin> snd ` set (g_conn_map w1)"
proof -
  have "owned i w" using i by (simp add: owned_def)
  from close_ok [OF ok i(1) this] obtain w1 where
    c: "TcpClient_close i w = Inr w1" "closed i t w w1" "conn_ok w1" by blast
  have fd: "0 \<le> sock_fd t" using ok i by (auto simp: conn_ok_def)
  then have erased: "map_of (g_conn_map w1) (sock_fd t) = None"
    using c(2) by (auto simp: closed_def kInvalidSocket_def)
  have "k \<noteq> i" if "(fd, k) \<in> set (g_conn_map w1)" for fd k
  proof
    assume "k = i"
    with conn_okD(4) [OF c(3) that] c(2) have "fd = sock_fd t" by (simp add: closed_def)
    with that erased show False by (auto simp: map_of_eq_None_iff image_iff)
  qed
  then have "i \<notin> snd ` set (g_conn_map w1)" by fastforce
  with c fd that show thesis by blast
qed

text \<open>
  From then on every state has the same other clients as \<open>w\<close>, and no new registry entry but for
  client \<open>i\<close>.
\<close>

definition connecting :: "nat \<Rightarrow> 'a net_scheme \<Rightarrow> 'a net_scheme \<Rightarrow> bool" where
  "connecting i w v \<longleftrightarrow> conn_ok v \<and> held v = held w \<and> objs v i \<noteq> None \<and> net.more v = net.more w \<and>
     (\<forall>e \<in> set (g_conn_map v). e \<in> set (g_conn_map w) \<or> snd e = i)"

lemma connecting_update:
  assumes "conn_ok w1" "closed i t w w1" "i \<notin> snd ` set (g_conn_map w1)"
    and "objs v = (objs w1)(i \<mapsto> u)" "held v = held w1" "g_conn_map v = g_conn_map w1"
      "next_obj v = next_obj w1" "0 \<le> sock_fd u" "net.more v = net.more w1"
  shows "connecting i w v"
proof -
  have w1: "objs w1 i \<noteq> None" "held w1 = held w" "net.more w1 = net.more w"
    using assms(2) by (auto simp: closed_def)
  have "conn_ok v" using assms(1,3-8) w1(1) by (auto simp: conn_ok_def image_iff)
  then show ?thesis using closed_sub [OF assms(2)] w1 assms(4-6,9) by (auto simp: connecting_def)
qed

lemma connecting_register:
  assumes "connecting i w v" "objs v i = Some u" "i \<in> set (held w)"
  shows "\<exists>w'. register (sock_fd u) i v = Inr w' \<and> connecting i w w'"
  using register_ok [of v i u] assms by (fastforce simp: connecting_def)

lemma connecting_close:
  assumes v: "connecting i w v" "objs v i = Some u" "i \<in> set (held w)"
  shows "\<exists>w'. TcpClient_close i v = Inr w' \<and> connecting i w w'"
proof -
  have "owned i v" using v by (simp add: owned_def connecting_def)
  from close_ok [OF _ v(2) this] v(1) obtain w' where
    w': "TcpClient_close i v = Inr w'" "closed i u v w'" "conn_ok w'" by (auto simp: connecting_def)
  then show ?thesis using v(1) closed_sub [OF w'(2)] by (auto simp: closed_def connecting_def)
qed

lemma connect_ok:
  assumes ok: "conn_ok w" and i: "objs w i = Some t" "i \<in> set (held w)" and env: "env_ok env"
  shows "case TcpClient_connect env i ip port w of
      Inl e \<Rightarrow> e = AssertFailed \<and> \<not> loop_is_run w
    | Inr (r, w') \<Rightarrow> conn_ok w' \<and> held w' = held w \<and> loop_is_run w \<and> objs w' i \<noteq> None \<and>
        net.more w' = net.more w \<and> (\<forall>e \<in> set (g_conn_map w'). e \<in> set (g_conn_map w) \<or> snd e = i)"
proof (rule close_unregisters [OF ok i])
  fix w1 assume c: "TcpClient_close i w = Inr w1" "closed i t w w1" "conn_ok w1" "0 \<le> sock_fd t"
    "i \<notin> snd ` set (g_conn_map w1)"
  define t1 where "t1 = t\<lparr>tcp_handle := None, connect_status := kDisConnected\<rparr>"
  have t1: "objs w1 i = Some t1" "loop_is_run w1 = loop_is_run w" using c(2) by (simp_all add: closed_def t1_def)
  note upd = connecting_update [OF c(3,2,5)]
  show ?thesis
  proof (cases "loop_is_run w")
    case False
    then show ?thesis using t1 by (simp add: TcpClient_connect_def c(1) set_tcp_def)
  next
    case True
    define h where "h = next_handle w1"
    define t2 where "t2 = t1\<lparr>server_ip := ip, server_port := port, tcp_handle := Some h\<rparr>"
    define t3 where "t3 = t2\<lparr>connect_status := kConnecting\<rparr>"
    define w2 where "w2 = snd (malloc_handle w1)\<lparr>objs := (objs w1)(i \<mapsto> t2)\<rparr>"
    define w3 where "w3 = attach_fd h (snd (uv_tcp_connect env h)) (w2\<lparr>objs := (objs w1)(i \<mapsto> t3)\<rparr>)"
    have o3: "objs w3 i = Some t3" by (simp add: w3_def)
    have v2: "connecting i w w2" by (rule upd [of _ t2]) (use c(4) in \<open>simp_all add: w2_def t2_def t1_def\<close>)
    have v3: "connecting i w w3"
      by (rule upd [of _ t3]) (use c(4) in \<open>simp_all add: w3_def w2_def t3_def t2_def t1_def\<close>)
    have run: "TcpClient_connect env i ip port w =
        (if uv_tcp_init env h = kInvalidSocket \<or> uv_ip4_addr env ip port = kInvalidSocket
         then Inr (False, w2)
         else if fst (uv_tcp_connect env h) = 0 then
           bind_r (case uv_fileno h w3 of None \<Rightarrow> Inr w3
                   | Some fd \<Rightarrow> set_tcp i (\<lambda>t. t\<lparr>sock_fd := fd\<rparr>) w3) (\<lambda>w.
           case objs w i of None \<Rightarrow> Inl NullDeref
           | Some t \<Rightarrow> bind_r (register (sock_fd t) i w) (\<lambda>w. Inr (True, w)))
         else bind_r (TcpClient_close i w3) (\<lambda>w. Inr (False, w)))"
      using True t1
      by (simp add: TcpClient_connect_def c(1) set_tcp_def malloc_handle_def h_def w3_def w2_def
          t3_def t2_def attach_fd_def Let_def cong: option.case_cong split: prod.split)
    have "case TcpClient_connect env i ip port w of Inl e \<Rightarrow> False | Inr (r, w') \<Rightarrow> connecting i w w'"
    proof (cases "uv_fileno h w3")
      case None
      from connecting_register [OF v3 o3 i(2)] o3 connecting_close [OF v3 o3 i(2)] v2 show ?thesis
        by (auto simp: run None)
    next
      case (Some fd)
      let ?t4 = "t3\<lparr>sock_fd := fd\<rparr>" and ?w4 = "w3\<lparr>objs := (objs w3)(i \<mapsto> t3\<lparr>sock_fd := fd\<rparr>)\<rparr>"
      have "snd (uv_tcp_connect env h) = Some fd"
        using Some by (simp add: uv_fileno_def w3_def w2_def malloc_handle_def h_def attach_fd_def)
      then have "0 \<le> fd" using env by (metis env_ok_def)
      then have v4: "connecting i w ?w4" by (intro upd [of _ ?t4]) (simp_all add: w3_def w2_def)
      from connecting_register [OF v4 _ i(2), of ?t4] connecting_close [OF v3 o3 i(2)] v2 o3 show ?thesis
        by (auto simp: run Some set_tcp_def)
    qed
    then show ?thesis using True by (auto simp: connecting_def split: sum.splits)
  qed
qed

section \<open>The handlers\<close>

definition mem_fault :: "fault \<Rightarrow> bool" where
  "mem_fault e \<longleftrightarrow> e \<in> {NullDeref, DoubleFree, OutOfBounds, Indeterminate}"

definition safe :: "('b \<Rightarrow> bool) \<Rightarrow> 'b res \<Rightarrow> bool" where
  "safe P r \<longleftrightarrow> (case r of Inl e \<Rightarrow> \<not> mem_fault e | Inr v \<Rightarrow> P v)"

lemma safe_simps [simp]:
  "safe P (Inr v) \<longleftrightarrow> P v" "safe P (Inl e) \<longleftrightarrow> \<not> mem_fault e"
  "\<not> mem_fault AssertFailed"
  by (simp_all add: safe_def mem_fault_def)

lemma safe_bind:
  "safe P r \<Longrightarrow> (\<And>v. P v \<Longrightarrow> safe Q (f v)) \<Longrightarrow> safe Q (bind_r r f)"
  by (cases r) auto

text \<open>
  What is asked of a callback: from a good state in which the client it is told about is held, it
  makes no memory fault and leaves a good state in which that client still is held.
\<close>

definition cbs_ok :: "'a net_scheme net_cb \<Rightarrow> bool" where
  "cbs_ok cbs \<longleftrightarrow>
     (\<forall>c i w. conn_ok w \<longrightarrow> i \<in> set (held w) \<longrightarrow>
        (\<forall>st. safe (\<lambda>w'. conn_ok w' \<and> i \<in> set (held w')) (on_connection cbs c i st w)) \<and>
        (\<forall>bs. safe (\<lambda>w'. conn_ok w' \<and> i \<in> set (held w')) (on_message cbs c i bs w)))"

lemma found_live:
  assumes "conn_ok w" "findTcpClient nd h w = Inr (Some i)"
  shows "\<exists>t. objs w i = Some t"
  using conn_okD(2) [OF assms(1)] assms(2)
  by (auto simp: findTcpClient_def split: if_splits option.splits)

lemma setConnectionStatus_ok:
  assumes "cbs_ok cbs" "conn_ok w" "i \<in> set (held w)"
  shows "safe (\<lambda>w'. conn_ok w' \<and> i \<in> set (held w')) (setConnectionStatus cbs i st w)"
proof -
  obtain t where t: "objs w i = Some t" using conn_okD(3) [OF assms(2,3)] by blast
  from set_tcp_ok [OF assms(2) t, of "\<lambda>t. t\<lparr>connect_status := st\<rparr>"] assms show ?thesis
    by (simp add: setConnectionStatus_def cbs_ok_def split: option.split)
qed

lemma release_safe: "conn_ok w \<and> i \<in> set (held w) \<Longrightarrow> safe conn_ok (release i w)"
  using release_ok [of w i] conn_okD(3) [of w i] by fastforce

lemma lost_ok:
  assumes "cbs_ok cbs" "conn_ok w" "objs w i = Some t"
  shows "safe conn_ok (bind_r (TcpClient_close i (hold i w)) (\<lambda>w.
           bind_r (setConnectionStatus cbs i kDisConnected w) (release i)))"
proof -
  have "owned i (hold i w)" by (simp add: owned_def)
  from close_ok [OF hold_ok [OF assms(2,3)] _ this] assms(3) obtain w1 where
    "TcpClient_close i (hold i w) = Inr w1" "closed i t (hold i w) w1" "conn_ok w1" by auto
  then show ?thesis
    using safe_bind [OF setConnectionStatus_ok [OF assms(1), of w1 i kDisConnected] release_safe]
    by (simp add: closed_def)
qed

lemma onConnect_ok:
  assumes "cbs_ok cbs" "conn_ok w"
  shows "safe conn_ok (onConnect nd cbs h status w)"
proof (cases "findTcpClient nd h w")
  case (Inl e)
  then have "e = AssertFailed"
    by (auto simp: findTcpClient_def split: if_splits option.splits)
  then show ?thesis using Inl by (simp add: onConnect_def)
next
  case (Inr c)
  show ?thesis
  proof (cases c)
    case None
    then show ?thesis using Inr assms(2) conn_ok_cong [of "uv_read_start h w" w]
      by (auto simp: onConnect_def bind_r_require)
  next
    case (Some i)
    obtain t where t: "objs w i = Some t" using found_live [OF assms(2)] Inr Some by blast
    have "safe conn_ok (bind_r (setConnectionStatus cbs i kConnectOk (hold i w)) (release i))"
      by (rule safe_bind [OF setConnectionStatus_ok [OF assms(1) hold_ok [OF assms(2) t]] release_safe]) auto
    then have "safe conn_ok (bind_r (bind_r (setConnectionStatus cbs i kConnectOk (hold i w)) (release i))
        (\<lambda>w. Inr (uv_read_start h w)))"
      by (rule safe_bind) (auto intro: conn_ok_cong)
    then show ?thesis using lost_ok [OF assms t] Inr Some by (simp add: onConnect_def)
  qed
qed

lemma onRead_ok:
  assumes "cbs_ok cbs" "conn_ok w"
  shows "safe conn_ok (onRead nd cbs h nread b bs w)"
proof (cases "findTcpClient nd h w")
  case (Inl e)
  then have "e = AssertFailed"
    by (auto simp: findTcpClient_def split: if_splits option.splits)
  then show ?thesis using Inl assms(2) by (auto simp: onRead_def intro: conn_ok_cong)
next
  case (Inr c)
  have free: "safe conn_ok r \<Longrightarrow> safe conn_ok (bind_r r (\<lambda>w. Inr (free_buf b w)))"
    for r :: "'a net_scheme res"
    by (erule safe_bind) (auto intro: conn_ok_cong)
  show ?thesis
  proof (cases c)
    case None
    then show ?thesis using Inr assms(2) free [of "Inr w"] by (auto simp: onRead_def)
  next
    case (Some i)
    obtain t where t: "objs w i = Some t" using found_live [OF assms(2)] Inr Some by blast
    have "safe (\<lambda>w'. conn_ok w' \<and> i \<in> set (held w'))
       (case message_cb t of None \<Rightarrow> Inr (hold i w) | Some m \<Rightarrow> on_message cbs m i bs (hold i w))"
      using assms(1) hold_ok [OF assms(2) t] by (simp add: cbs_ok_def split: option.split)
    from safe_bind [OF this release_safe] free [OF lost_ok [OF assms t]] free [of "Inr w"]
    show ?thesis using Inr Some t assms(2) by (auto simp: onRead_def)
  qed
qed

section \<open>Every run\<close>

text \<open>
  One step of the network layer: a call of the client's public members by its owner, an owner
  dropping its pointer, an event the loop delivers.
\<close>

inductive net_step :: "bool \<Rightarrow> uv_env \<Rightarrow> 'a net_scheme net_cb \<Rightarrow> 'a net_scheme \<Rightarrow> 'a net_scheme \<Rightarrow> bool"
  for nd env cbs where
  new: "net_step nd env cbs w (snd (TcpClient_new w))"
| connect: "i \<in> set (held w) \<Longrightarrow> TcpClient_connect env i ip port w = Inr (r, w') \<Longrightarrow>
    net_step nd env cbs w w'"
| close: "i \<in> set (held w) \<Longrightarrow> TcpClient_close i w = Inr w' \<Longrightarrow> net_step nd env cbs w w'"
| send: "i \<in> set (held w) \<Longrightarrow> TcpClient_send env i bs w = Inr (n, w') \<Longrightarrow> net_step nd env cbs w w'"
| set_connection_cb: "i \<in> set (held w) \<Longrightarrow> TcpClient_setConnectionCallback i c w = Inr w' \<Longrightarrow>
    net_step nd env cbs w w'"
| set_message_cb: "i \<in> set (held w) \<Longrightarrow> setMessageCallback i c w = Inr w' \<Longrightarrow>
    net_step nd env cbs w w'"
| drop: "i \<in> set (held w) \<Longrightarrow> release i w = Inr w' \<Longrightarrow> net_step nd env cbs w w'"
| connected: "onConnect nd cbs h status w = Inr w' \<Longrightarrow> net_step nd env cbs w w'"
| alloc: "net_step nd env cbs w (snd (alloc_buffer w))"
| read: "onRead nd cbs h nread b bs w = Inr w' \<Longrightarrow> net_step nd env cbs w w'"

lemma net_step_ok:
  assumes "cbs_ok cbs" "env_ok env" "net_step nd env cbs w w'" "conn_ok w"
  shows "conn_ok w'"
  using assms(3,4)
proof cases
  case new
  then show ?thesis using TcpClient_new_ok(1) [OF assms(4)] by simp
next
  case (connect i ip port r)
  then show ?thesis using connect_ok [OF assms(4) _ _ assms(2), of i _ ip port] conn_okD(3) [OF assms(4)]
    by fastforce
next
  case (close i)
  then obtain t where "objs w i = Some t" using conn_okD(3) [OF assms(4)] by blast
  from close_ok [OF assms(4) this] close show ?thesis by (auto simp: owned_def)
next
  case (send i bs n)
  then show ?thesis using assms(4)
    by (auto simp: TcpClient_send_def bind_r_require conn_ok_def split: option.splits if_splits)
next
  case (set_connection_cb i c)
  then obtain t where "objs w i = Some t" using conn_okD(3) [OF assms(4)] by blast
  from set_tcp_ok [OF assms(4) this, of "\<lambda>t. t\<lparr>tcp_connection_cb := c\<rparr>"] set_connection_cb
  show ?thesis by (auto simp: TcpClient_setConnectionCallback_def)
next
  case (set_message_cb i c)
  then obtain t where "objs w i = Some t" using conn_okD(3) [OF assms(4)] by blast
  from set_tcp_ok [OF assms(4) this, of "\<lambda>t. t\<lparr>message_cb := c\<rparr>"] set_message_cb
  show ?thesis by (auto simp: setMessageCallback_def)
next
  case (drop i)
  then show ?thesis using release_safe [of w i] assms(4) by (metis safe_simps(1))
next
  case (connected h status)
  then show ?thesis using onConnect_ok [OF assms(1,4)] by (metis safe_simps(1))
next
  case alloc
  then show ?thesis using assms(4) by (auto simp: alloc_buffer_def intro: conn_ok_cong)
next
  case (read h nread b bs)
  then show ?thesis using onRead_ok [OF assms(1,4)] by (metis safe_simps(1))
qed

end
