(* ===== verification/TcpProps.thy ===== *)
theory TcpProps
  imports TcpLaws
begin

text \<open>
  Properties of \<open>TcpClient\<close>: memory safety of the registry in every run, what the handlers do, and
  the cases the code does not handle: a cancelled connect, a stale \<open>close\<close>, a release build, ports
  above 32767, the buffers of successful reads.
\<close>

definition net0 :: net where
  "net0 = \<lparr>loop_is_run = True, g_default_timer = None, timers = Map.empty, next_timer = 0,
           loop_handles = [], loop_stop = False, pending_runs = 0,
           objs = Map.empty, next_obj = 0, held = [], g_conn_map = [], handles = Map.empty,
           next_handle = 0, read_bufs = [], next_buf = 0, sent = []\<rparr>"

text \<open>Callbacks that do nothing, and an environment in which every connect succeeds with socket 7.\<close>

definition no_cbs :: "'w net_cb" where
  "no_cbs = \<lparr>on_connection = (\<lambda>_ _ _. Inr), on_message = (\<lambda>_ _ _. Inr)\<rparr>"

definition env7 :: uv_env where
  "env7 = \<lparr>uv_tcp_init = (\<lambda>_. 0), uv_ip4_addr = (\<lambda>_ _. 0), uv_tcp_connect = (\<lambda>_. (0, Some 7)),
           sys_send = (\<lambda>_ _ bs. int (length bs))\<rparr>"

lemma net0_ok: "conn_ok net0"
  by (simp add: conn_ok_def net0_def)

lemma no_cbs_ok: "cbs_ok no_cbs"
  by (simp add: cbs_ok_def no_cbs_def)

lemma env7_ok: "env_ok env7"
  by (simp add: env_ok_def env7_def)

lemma net_reach_ok:
  assumes "cbs_ok cbs" "env_ok env" "(net_step nd env cbs)\<^sup>*\<^sup>* w0 w" "conn_ok w0"
  shows "conn_ok w"
  using assms(3,4) by (induction rule: rtranclp_induct) (auto intro: net_step_ok [OF assms(1,2)])

text \<open>
  C8. Memory safety of the registry: whatever is created, connected, closed, dropped and
  delivered, in whatever order, every registered socket belongs to a live client that has this
  socket, and no handler dereferences a destroyed client; at worst an assertion stops it.
\<close>

theorem registry_safe:
  assumes "cbs_ok cbs" "env_ok env" "(net_step nd env cbs)\<^sup>*\<^sup>* net0 w"
  shows "(\<forall>fd i. (fd, i) \<in> set (g_conn_map w) \<longrightarrow> (\<exists>t. objs w i = Some t \<and> sock_fd t = fd)) \<and>
         distinct (map fst (g_conn_map w)) \<and>
         (\<forall>h status e. onConnect nd cbs h status w = Inl e \<longrightarrow> e \<noteq> NullDeref \<and> e \<noteq> DoubleFree) \<and>
         (\<forall>h n b bs e. onRead nd cbs h n b bs w = Inl e \<longrightarrow> e \<noteq> NullDeref \<and> e \<noteq> DoubleFree)"
proof -
  have ok: "conn_ok w" by (rule net_reach_ok [OF assms net0_ok])
  have "e \<noteq> NullDeref \<and> e \<noteq> DoubleFree" if "safe conn_ok r" "r = Inl e" for r :: "net res" and e
    using that by (auto simp: mem_fault_def)
  then have "onConnect nd cbs h status w = Inl e \<Longrightarrow> e \<noteq> NullDeref \<and> e \<noteq> DoubleFree"
    and "onRead nd cbs h n b bs w = Inl e \<Longrightarrow> e \<noteq> NullDeref \<and> e \<noteq> DoubleFree" for h status e n b bs
    using onConnect_ok [OF assms(1) ok] onRead_ok [OF assms(1) ok] by blast+
  moreover have "\<exists>t. objs w i = Some t \<and> sock_fd t = fd" if "(fd, i) \<in> set (g_conn_map w)" for fd i
    using that ok by (auto simp: conn_ok_def)
  ultimately show ?thesis using ok by (simp add: conn_ok_def)
qed

theorem registry_safe_witness:
  "\<exists>w r. TcpClient_connect env7 0 [] 80 (snd (TcpClient_new net0)) = Inr (r, w) \<and>
     (\<forall>fd i. (fd, i) \<in> set (g_conn_map w) \<longrightarrow> (\<exists>t. objs w i = Some t \<and> sock_fd t = fd))"
proof -
  let ?w = "snd (TcpClient_new net0)"
  have held: "0 \<in> set (held ?w)" by (simp add: TcpClient_new_def net0_def Let_def)
  have run: "loop_is_run ?w" by (simp add: TcpClient_new_def net0_def Let_def)
  have "\<exists>t. objs ?w 0 = Some t" by (simp add: TcpClient_new_def net0_def Let_def)
  then obtain r w where c: "TcpClient_connect env7 0 [] 80 ?w = Inr (r, w)"
    using connect_ok [OF TcpClient_new_ok(1) [OF net0_ok] _ held env7_ok, of _ "[]" 80] run
    by (auto split: sum.splits)
  have "(net_step False env7 no_cbs)\<^sup>*\<^sup>* net0 ?w" by (rule r_into_rtranclp, rule net_step.new)
  then have "(net_step False env7 no_cbs)\<^sup>*\<^sup>* net0 w"
    using net_step.connect [OF held c] by (rule rtranclp.rtrancl_into_rtrancl)
  from registry_safe [OF no_cbs_ok env7_ok this] c show ?thesis by blast
qed

section \<open>Connecting\<close>

lemma connect_result:
  assumes ok: "conn_ok w" and i: "objs w i = Some t" "i \<in> set (held w)" and run: "loop_is_run w"
    and uv: "uv_tcp_init env h \<noteq> kInvalidSocket" "uv_ip4_addr env ip port \<noteq> kInvalidSocket"
      "uv_tcp_connect env h = (0, Some fd)" "h = next_handle w"
    and fresh: "map_of (g_conn_map w) fd \<in> {None, Some i}"
  shows "\<exists>w'. TcpClient_connect env i ip port w = Inr (True, w') \<and>
     objs w' i = Some (t\<lparr>tcp_handle := Some h, sock_fd := fd, connect_status := kConnecting,
                         server_ip := ip, server_port := port\<rparr>) \<and>
     map_of (g_conn_map w') fd = Some i \<and> held w' = held w \<and>
     handles w' h = Some \<lparr>h_fd = Some fd, h_closing = False, h_reading = False\<rparr> \<and>
     next_handle w' = Suc h \<and> loop_is_run w' \<and>
     (\<forall>k \<in> set (held w). k \<noteq> i \<longrightarrow> objs w' k = objs w k)"
proof -
  have "owned i w" using i by (simp add: owned_def)
  from close_ok [OF ok i(1) this] obtain w1 where
    c: "TcpClient_close i w = Inr w1" "closed i t w w1" "conn_ok w1" by blast
  have "0 \<le> sock_fd t" using ok i by (auto simp: conn_ok_def)
  then have g: "g_conn_map w1 = filter (\<lambda>e. fst e \<noteq> sock_fd t) (g_conn_map w)"
    using c(2) by (auto simp: closed_def kInvalidSocket_def)
  have "map_of (g_conn_map w1) fd = None"
  proof (cases "map_of (g_conn_map w) fd")
    case (Some k)
    then have "fd = sock_fd t" using fresh conn_okD(2) [OF ok, of fd i] i by auto
    then show ?thesis by (simp add: g)
  qed (simp add: g)
  then show ?thesis
    using c i run uv
    by (auto simp: TcpClient_connect_def closed_def set_tcp_def malloc_handle_def attach_fd_def
        uv_fileno_def register_def Let_def)
qed

text \<open>
  A connect that libuv accepted with a socket not in use ends connected: the completion event
  finds this client through its socket, marks it, runs its callback, and only then starts reading.
\<close>

theorem connect_completes:
  assumes "conn_ok w" "objs w i = Some t" "i \<in> set (held w)" "loop_is_run w"
    and "uv_tcp_init env h \<noteq> kInvalidSocket" "uv_ip4_addr env ip port \<noteq> kInvalidSocket"
      "uv_tcp_connect env h = (0, Some fd)" "h = next_handle w"
    and "map_of (g_conn_map w) fd \<in> {None, Some i}"
  shows "\<exists>w1 w2. TcpClient_connect env i ip port w = Inr (True, w1) \<and>
     onConnect False no_cbs h 0 w1 = Inr w2 \<and>
     map_option connect_status (objs w1 i) = Some kConnecting \<and>
     map_option connect_status (objs w2 i) = Some kConnectOk \<and>
     map_option h_reading (handles w1 h) = Some False \<and>
     map_option h_reading (handles w2 h) = Some True"
proof -
  from connect_result [OF assms] obtain w1 where
    w1: "TcpClient_connect env i ip port w = Inr (True, w1)" "map_of (g_conn_map w1) fd = Some i"
      "held w1 = held w" "handles w1 h = Some \<lparr>h_fd = Some fd, h_closing = False, h_reading = False\<rparr>"
      "objs w1 i = Some (t\<lparr>tcp_handle := Some h, sock_fd := fd, connect_status := kConnecting,
                         server_ip := ip, server_port := port\<rparr>)" by blast
  have "referenced i w1" using w1(3) assms(3) by (simp add: referenced_def)
  then show ?thesis using w1 assms(3)
    by (auto simp: onConnect_def findTcpClient_def uv_fileno_def setConnectionStatus_def set_tcp_def
        no_cbs_def hold_def release_def drop_ref_def referenced_def uv_read_start_def
        split: option.split)
qed

lemma two_clients:
  "\<exists>w t. conn_ok w \<and> held w = [Suc 0, 0] \<and> g_conn_map w = [] \<and> loop_is_run w \<and>
     next_handle w = 0 \<and> objs w 0 = Some t \<and>
     (net_step False env7 no_cbs)\<^sup>*\<^sup>* net0 w"
proof -
  let ?a = "snd (TcpClient_new net0)"
  let ?b = "snd (TcpClient_new ?a)"
  have "(net_step False env7 no_cbs)\<^sup>*\<^sup>* net0 ?b"
    by (meson net_step.new r_into_rtranclp rtranclp_trans)
  moreover have "conn_ok ?b" using TcpClient_new_ok(1) [OF TcpClient_new_ok(1) [OF net0_ok]] .
  ultimately show ?thesis
    by (intro exI [of _ ?b]) (simp add: TcpClient_new_def net0_def Let_def)
qed

theorem connect_completes_witness:
  "\<exists>(w :: net) w1 w2. TcpClient_connect env7 0 [] 80 w = Inr (True, w1) \<and>
     onConnect False no_cbs 0 0 w1 = Inr w2 \<and> map_option connect_status (objs w2 0) = Some kConnectOk"
proof -
  from two_clients obtain w :: net and t where
    w: "conn_ok w" "held w = [Suc 0, 0]" "g_conn_map w = []" "loop_is_run w" "next_handle w = 0"
      "objs w 0 = Some t" by blast
  have "\<exists>w1 w2. TcpClient_connect env7 0 [] 80 w = Inr (True, w1) \<and>
      onConnect False no_cbs 0 0 w1 = Inr w2 \<and>
      map_option connect_status (objs w1 0) = Some kConnecting \<and>
      map_option connect_status (objs w2 0) = Some kConnectOk \<and>
      map_option h_reading (handles w1 0) = Some False \<and>
      map_option h_reading (handles w2 0) = Some True"
    by (rule connect_completes [where fd = 7])
      (use w in \<open>simp_all add: env7_def kInvalidSocket_def\<close>)
  then show ?thesis by blast
qed

text \<open>
  Errors of libuv are negative codes, but \<open>connect\<close> compares with \<open>-1\<close>: unless libuv returns
  exactly this code, an address it could not parse and a handle it could not initialise change
  nothing in what \<open>connect\<close> does.
\<close>

theorem connect_ignores_errors:
  assumes "\<And>h. uv_tcp_init env h \<noteq> -1" "\<And>a p. uv_ip4_addr env a p \<noteq> -1"
  shows "TcpClient_connect env i ip port w =
         TcpClient_connect (env\<lparr>uv_tcp_init := (\<lambda>_. 0), uv_ip4_addr := (\<lambda>_ _. 0)\<rparr>) i ip port w"
  using assms by (simp add: TcpClient_connect_def kInvalidSocket_def)

theorem connect_ignores_errors_witness:
  "TcpClient_connect (env7\<lparr>uv_ip4_addr := (\<lambda>_ _. -22)\<rparr>) 0 (ascii ''not an ip'') 80 net0 =
   TcpClient_connect env7 0 (ascii ''not an ip'') 80 net0"
  using connect_ignores_errors [of "env7\<lparr>uv_ip4_addr := (\<lambda>_ _. -22)\<rparr>" 0 "ascii ''not an ip''" 80 net0]
  by (simp add: env7_def)

section \<open>Closing\<close>

text \<open>
  C37. Closing a client whose connect is pending dooms the process: libuv then reports the
  cancelled connect on the closed handle, which has no descriptor any more, and the
  \<open>assert(uv_fileno(...) == 0)\<close> of \<open>findTcpClient\<close> fails, whatever the status.
\<close>

theorem cancelled_connect_asserts:
  assumes "conn_ok w" "objs w i = Some t" "i \<in> set (held w)" "tcp_handle t = Some h"
  shows "\<exists>w'. TcpClient_close i w = Inr w' \<and> onConnect False cbs h status w' = Inl AssertFailed"
proof -
  have "owned i w" using assms(3) by (simp add: owned_def)
  from close_ok [OF assms(1,2) this] obtain w' where
    "TcpClient_close i w = Inr w'" "closed i t w w'" by blast
  then show ?thesis using assms(4)
    by (auto simp: onConnect_def findTcpClient_def closed_def)
qed

theorem cancelled_connect_asserts_witness:
  "\<exists>(w :: net) w1 w2. TcpClient_connect env7 0 [] 80 w = Inr (True, w1) \<and> TcpClient_close 0 w1 = Inr w2 \<and>
     onConnect False no_cbs 0 (-125) w2 = Inl AssertFailed"
proof -
  from two_clients obtain w :: net and t where
    w: "conn_ok w" "held w = [Suc 0, 0]" "g_conn_map w = []" "loop_is_run w" "next_handle w = 0"
      "objs w 0 = Some t" by blast
  have "\<exists>w1. TcpClient_connect env7 0 [] 80 w = Inr (True, w1) \<and>
      objs w1 0 = Some (t\<lparr>tcp_handle := Some 0, sock_fd := 7, connect_status := kConnecting,
                         server_ip := [], server_port := 80\<rparr>) \<and>
      map_of (g_conn_map w1) 7 = Some 0 \<and> held w1 = held w \<and>
      handles w1 0 = Some \<lparr>h_fd = Some 7, h_closing = False, h_reading = False\<rparr> \<and>
      next_handle w1 = Suc 0 \<and> loop_is_run w1 \<and> (\<forall>k \<in> set (held w). k \<noteq> 0 \<longrightarrow> objs w1 k = objs w k)"
    by (rule connect_result) (use w in \<open>simp_all add: env7_def kInvalidSocket_def\<close>)
  then obtain w1 u where c: "TcpClient_connect env7 0 [] 80 w = Inr (True, w1)"
    and u: "objs w1 0 = Some u" "tcp_handle u = Some 0" "held w1 = held w" by auto
  have "conn_ok w1"
    using connect_ok [OF w(1,6) _ env7_ok, of "[]" 80] c w(2) by simp
  from cancelled_connect_asserts [OF this u(1) _ u(2), of no_cbs "-125"] c u(3) w(2)
  show ?thesis by auto
qed

text \<open>
  C38. A client keeps its socket number after \<open>close\<close>. If the system gives the number to another
  client, closing the first one again (its destructor does) unregisters the second: its connect
  completion then fails an assertion, and what it reads is dropped.
\<close>

theorem stale_close_steals:
  assumes "conn_ok w" "objs w i = Some t" "i \<in> set (held w)"
    and "objs w j = Some u" "j \<in> set (held w)" "i \<noteq> j" "sock_fd t = sock_fd u"
  shows "\<exists>w'. TcpClient_close i w = Inr w' \<and> objs w' j = Some u \<and>
     (\<forall>h cbs. uv_fileno h w' = Some (sock_fd u) \<longrightarrow>
        onConnect False cbs h 0 w' = Inl AssertFailed \<and>
        (\<forall>n b bs. 0 < n \<longrightarrow> onRead False cbs h n b bs w' = Inr w'))"
proof -
  have "owned i w" using assms(3) by (simp add: owned_def)
  from close_ok [OF assms(1,2) this] obtain w' where
    w': "TcpClient_close i w = Inr w'" "closed i t w w'" by blast
  have "0 \<le> sock_fd t" using assms(1,2) by (auto simp: conn_ok_def)
  then have "map_of (g_conn_map w') (sock_fd u) = None"
    using w'(2) assms(7) by (auto simp: closed_def kInvalidSocket_def)
  moreover have "objs w' j = Some u" using w'(2) assms(4-6) by (auto simp: closed_def)
  ultimately show ?thesis using w'(1)
    by (auto simp: onConnect_def onRead_def findTcpClient_def)
qed

theorem stale_close_steals_witness:
  "\<exists>w0 w1 w2 w3 w4. (net_step False env7 no_cbs)\<^sup>*\<^sup>* net0 w0 \<and>
     TcpClient_connect env7 0 [] 80 w0 = Inr (True, w1) \<and> TcpClient_close 0 w1 = Inr w2 \<and>
     TcpClient_connect env7 1 [] 80 w2 = Inr (True, w3) \<and> TcpClient_close 0 w3 = Inr w4 \<and>
     uv_fileno 1 w4 = Some 7 \<and> onConnect False no_cbs 1 0 w4 = Inl AssertFailed"
proof -
  from two_clients obtain w0 t0 where
    w0: "conn_ok w0" "held w0 = [Suc 0, 0]" "g_conn_map w0 = []" "loop_is_run w0" "next_handle w0 = 0"
      "objs w0 0 = Some t0" "(net_step False env7 no_cbs)\<^sup>*\<^sup>* net0 w0" by blast
  have uv: "uv_tcp_init env7 h \<noteq> kInvalidSocket" "uv_ip4_addr env7 a p \<noteq> kInvalidSocket"
    "uv_tcp_connect env7 h = (0, Some 7)" for h a p
    by (simp_all add: env7_def kInvalidSocket_def)
  from connect_result [OF w0(1,6) _ w0(4) uv w0(5) [symmetric], of "[]" 80] w0(2,3) obtain w1 t1 where
    w1: "TcpClient_connect env7 0 [] 80 w0 = Inr (True, w1)" "objs w1 0 = Some t1" "sock_fd t1 = 7"
      "held w1 = [Suc 0, 0]" "next_handle w1 = Suc 0" "loop_is_run w1" by auto
  have ok1: "conn_ok w1" using connect_ok [OF w0(1,6) _ env7_ok, of "[]" 80] w1(1) w0(2) by simp
  have "owned 0 w1" using w1(4) by (simp add: owned_def)
  from close_ok [OF ok1 w1(2) this] obtain w2 where
    w2: "TcpClient_close 0 w1 = Inr w2" "closed 0 t1 w1 w2" "conn_ok w2" by blast
  have h2: "held w2 = [Suc 0, 0]" "loop_is_run w2" "next_handle w2 = Suc 0"
    "map_of (g_conn_map w2) 7 = None"
    using w2(2) w1 by (auto simp: closed_def kInvalidSocket_def)
  obtain u2 where u2: "objs w2 (Suc 0) = Some u2" using conn_okD(3) [OF w2(3)] h2(1) by auto
  from connect_result [OF w2(3) u2 _ h2(2) uv h2(3) [symmetric], of "[]" 80] h2 obtain w3 u3 where
    w3: "TcpClient_connect env7 1 [] 80 w2 = Inr (True, w3)" "objs w3 (Suc 0) = Some u3"
      "sock_fd u3 = 7" "held w3 = [Suc 0, 0]" "objs w3 0 = objs w2 0"
      "handles w3 (Suc 0) = Some \<lparr>h_fd = Some 7, h_closing = False, h_reading = False\<rparr>"
      "map_of (g_conn_map w3) 7 = Some (Suc 0)" by auto
  have ok3: "conn_ok w3" using connect_ok [OF w2(3) u2 _ env7_ok, of "[]" 80] w3(1) h2(1) by simp
  have t3: "objs w3 0 = Some (t1\<lparr>tcp_handle := None, connect_status := kDisConnected\<rparr>)"
    using w3(5) w2(2) by (simp add: closed_def)
  from stale_close_steals [OF ok3 t3 _ w3(2)] w3(3,4) w1(3) obtain w4 where
    w4: "TcpClient_close 0 w3 = Inr w4"
      "\<forall>h cbs. uv_fileno h w4 = Some 7 \<longrightarrow> onConnect False cbs h 0 w4 = Inl AssertFailed" by auto
  have "referenced (Suc 0) (unregister 7 w3)" using w3(4) by (simp add: referenced_def)
  then have "TcpClient_close 0 w3 = set_tcp 0 (\<lambda>t. t\<lparr>connect_status := kDisConnected\<rparr>) (unregister 7 w3)"
    using t3 w3(7) w1(3) by (subst TcpClient_close.simps) (simp add: kInvalidSocket_def)
  with w4(1) t3 have "handles w4 = handles w3" by (auto simp: set_tcp_def)
  then have "uv_fileno 1 w4 = Some 7" using w3(6) by (simp add: uv_fileno_def)
  with w4 w0(7) w1(1) w2(1) w3(1) show ?thesis by blast
qed

section \<open>A release build\<close>

text \<open>
  With \<open>NDEBUG\<close> the descriptor is never asked for, so no client is ever found: a completed
  connect tells nobody, whatever is read is dropped, a lost connection goes unnoticed.
\<close>

theorem ndebug_deaf:
  assumes "conn_ok w"
  shows "findTcpClient True h w = Inr None \<and>
     onConnect True cbs h 0 w = Inr (uv_read_start h w) \<and>
     (status \<noteq> 0 \<longrightarrow> onConnect True cbs h status w = Inr w) \<and>
     (0 < n \<longrightarrow> onRead True cbs h n b bs w = Inr w) \<and>
     (n \<le> 0 \<longrightarrow> onRead True cbs h n b bs w = Inr (free_buf b w))"
proof -
  have "map_of (g_conn_map w) kInvalidSocket = None"
  proof (cases "map_of (g_conn_map w) kInvalidSocket")
    case (Some i)
    from conn_okD(2) [OF assms Some] obtain t where "objs w i = Some t" "sock_fd t = kInvalidSocket"
      by blast
    then show ?thesis using assms by (fastforce simp: conn_ok_def kInvalidSocket_def)
  qed simp
  then show ?thesis by (simp add: onConnect_def onRead_def findTcpClient_def)
qed

theorem ndebug_deaf_witness:
  "findTcpClient True 0 net0 = Inr None \<and> onRead True no_cbs 0 5 0 [1, 2, 3, 4, 5] net0 = Inr net0"
  using ndebug_deaf [OF net0_ok] by simp

section \<open>Addresses and buffers\<close>

text \<open>
  The port is kept in an \<open>int16_t\<close>: \<open>remoteAddr\<close> prints ports up to 32767 as they are and
  every higher one as a negative number.
\<close>

theorem remoteAddr_port:
  assumes "p < 2 ^ 16"
  shows "remoteAddr (t\<lparr>server_ip := ip, server_port := of_nat p\<rparr>) =
    (if p < 2 ^ 15 then ip @ [58] @ digits p else ip @ [58, 45] @ digits (2 ^ 16 - p))"
proof -
  have "sint (of_nat p :: u16) = (int p + 2 ^ 15) mod 2 ^ 16 - 2 ^ 15"
    using sint_sbintrunc' [of "int p", where 'a = 16]
    by (simp add: signed_take_bit_eq_take_bit_shift take_bit_eq_mod)
  also have "\<dots> = (if p < 2 ^ 15 then int p else int p - 2 ^ 16)"
  proof (cases "p < 2 ^ 15")
    case True
    then show ?thesis by simp
  next
    case False
    then have "(int p + 2 ^ 15) mod 2 ^ 16 = (int p - 2 ^ 15) mod 2 ^ 16"
      by (simp add: mod_eq_dvd_iff)
    then show ?thesis using assms False by simp
  qed
  finally show ?thesis
    using assms by (auto simp: remoteAddr_def to_string_def nat_diff_distrib)
qed

theorem remoteAddr_port_witness:
  "remoteAddr \<lparr>tcp_handle = None, sock_fd = 0, connect_status = kDefault, tcp_connection_cb = None,
     message_cb = None, server_ip = [49], server_port = of_nat 40000\<rparr> = [49, 58, 45] @ digits 25536"
  using remoteAddr_port [where p = 40000 and t = "\<lparr>tcp_handle = None, sock_fd = 0, connect_status = kDefault,
     tcp_connection_cb = None, message_cb = None, server_ip = [], server_port = 0\<rparr>" and ip = "[49]"]
  by simp

lemma close_bufs: "TcpClient_close i w = Inr w' \<Longrightarrow> read_bufs w' = read_bufs w"
proof (induction i w arbitrary: w' rule: TcpClient_close.induct)
  case (1 i w)
  from "1.prems" obtain t where t: "objs w i = Some t"
    by (subst (asm) TcpClient_close.simps) (auto split: option.splits)
  define w1 where "w1 = (case tcp_handle t of None \<Rightarrow> w
     | Some h \<Rightarrow> (uv_close h w)\<lparr>objs := (objs w)(i \<mapsto> t\<lparr>tcp_handle := None\<rparr>)\<rparr>)"
  let ?u = "unregister (sock_fd t) w1"
  have b: "read_bufs w1 = read_bufs w" by (simp add: w1_def split: option.split)
  have set: "read_bufs x' = read_bufs x" if "set_tcp i f x = Inr x'" for f and x x' :: "'a net_scheme"
    using that by (auto simp: set_tcp_def split: option.splits)
  from "1.prems" t have r: "bind_r
      (if sock_fd t = kInvalidSocket then Inr w1
       else case map_of (g_conn_map w) (sock_fd t) of None \<Rightarrow> Inr w1
         | Some j \<Rightarrow> if referenced j ?u then Inr ?u
           else bind_r (TcpClient_close j ?u) (\<lambda>w2. Inr (w2\<lparr>objs := (objs w2)(j := None)\<rparr>)))
      (set_tcp i (\<lambda>t. t\<lparr>connect_status := kDisConnected\<rparr>)) = Inr w'"
    unfolding w1_def by (subst (asm) TcpClient_close.simps) (simp add: Let_def split del: if_split)
  have IH: "read_bufs y = read_bufs ?u" if "sock_fd t \<noteq> kInvalidSocket"
    "map_of (g_conn_map w) (sock_fd t) = Some j" "\<not> referenced j ?u" "TcpClient_close j ?u = Inr y" for j y
    by (rule "1.IH" [OF t w1_def that(1,2,3,4)])
  show ?case
    using r b by (auto simp: bind_r_eq_Inr dest!: set IH split: if_splits option.splits)
qed

lemma release_bufs: "release i w = Inr w' \<Longrightarrow> read_bufs w' = read_bufs w"
  by (auto simp: release_def drop_ref_def TcpClient_destroy_def bind_r_eq_Inr dest!: close_bufs
      split: if_splits)

lemma onRead_bufs:
  assumes "onRead False cbs h n b bs w = Inr w'" "0 < n"
    "\<And>c i bs w w'. on_message cbs c i bs w = Inr w' \<Longrightarrow> read_bufs w' = read_bufs w"
  shows "read_bufs w' = read_bufs w"
proof (cases "findTcpClient False h w")
  case (Inr c)
  show ?thesis
  proof (cases c)
    case (Some i)
    with Inr assms(1,2) obtain t v where "objs w i = Some t" "release i v = Inr w'"
      "(case message_cb t of None \<Rightarrow> Inr (hold i w)
        | Some m \<Rightarrow> on_message cbs m i bs (hold i w)) = Inr v"
      by (auto simp: onRead_def bind_r_eq_Inr split: option.splits)
    then show ?thesis
      by (auto simp: hold_def dest!: release_bufs assms(3) split: option.splits)
  qed (use Inr assms in \<open>simp add: onRead_def\<close>)
qed (use assms in \<open>simp add: onRead_def\<close>)

definition read_event :: "'a net_scheme net_cb \<Rightarrow> nat \<Rightarrow> byte list \<Rightarrow> 'a net_scheme \<Rightarrow> 'a net_scheme res" where
  "read_event cbs h bs w =
     (let (b, w) = alloc_buffer w in onRead False cbs h (int (length bs)) b bs w)"

text \<open>
  The loop's \<open>alloc_buffer\<close> allocates the block of every read, and \<open>onRead\<close> frees it only when
  nothing was read: each read that delivered bytes leaves one block allocated.
\<close>

theorem read_leak:
  assumes "\<And>c i bs w w'. on_message cbs c i bs w = Inr w' \<Longrightarrow> read_bufs w' = read_bufs w"
    and "seq_r (read_event cbs h) bss w = Inr w'" "[] \<notin> set bss"
  shows "length (read_bufs w') = length (read_bufs w) + length bss"
  using assms(2,3)
proof (induction bss arbitrary: w)
  case (Cons bs bss)
  from Cons.prems obtain w1 where w1: "read_event cbs h bs w = Inr w1"
    "seq_r (read_event cbs h) bss w1 = Inr w'" "[] \<notin> set bss" "bs \<noteq> []"
    by (auto simp: bind_r_eq_Inr)
  from onRead_bufs [OF _ _ assms(1)] w1(1,4)
  have "length (read_bufs w1) = Suc (length (read_bufs w))"
    by (fastforce simp: read_event_def alloc_buffer_def)
  then show ?case using Cons.IH [OF w1(2,3)] by simp
qed simp

theorem read_leak_witness:
  "\<exists>w'. seq_r (read_event no_cbs 0) [[1], [2, 3]] (net0\<lparr>handles := [0 \<mapsto>
       \<lparr>h_fd = Some 7, h_closing = False, h_reading = True\<rparr>]\<rparr>) = Inr w' \<and> length (read_bufs w') = 2"
proof -
  let ?w = "net0\<lparr>handles := [0 \<mapsto> \<lparr>h_fd = Some 7, h_closing = False, h_reading = True\<rparr>]\<rparr>"
  obtain w' where w': "seq_r (read_event no_cbs 0) [[1], [2, 3]] ?w = Inr w'"
    by (simp add: read_event_def alloc_buffer_def onRead_def findTcpClient_def uv_fileno_def net0_def)
  have "length (read_bufs w') = length (read_bufs ?w) + length [[1 :: byte], [2, 3]]"
    by (rule read_leak [OF _ w']) (simp_all add: no_cbs_def)
  with w' show ?thesis by (simp add: net0_def)
qed

end
