(* ===== verification/Wire.thy ===== *)
theory Wire
  imports Prelude
begin

text \<open>
  The part of the protobuf runtime the generated classes of \<open>cim/pb\<close> call. The runtime is a
  library outside the repository, so it is a parameter: the record \<open>pb_runtime\<close> has one function
  per entry point the generated code uses, and the locale \<open>wire\<close> states what the documented wire
  format promises of them: what was written is what is read, sizes are the lengths of what is
  written, every read consumes. The instance \<open>leb_runtime\<close> is that wire format (base-128 varints,
  length-delimited strings) and discharges the laws. The loop every \<open>_InternalParse\<close> consists of
  is \<open>parse_loop\<close>, over the message's \<open>switch\<close>.
\<close>

section \<open>The runtime as a parameter\<close>

text \<open>
  A reader takes the bytes from the parse position to the limit and returns the value and the
  bytes after it, or \<open>None\<close> for a null pointer. A writer returns the bytes it puts at the target,
  its own tag included.
\<close>

record pb_runtime =
  ReadTag :: "byte list \<Rightarrow> (u32 \<times> byte list) option"
  ReadVarint32 :: "byte list \<Rightarrow> (u32 \<times> byte list) option"
  ReadVarint64 :: "byte list \<Rightarrow> (u64 \<times> byte list) option"
  InlineGreedyStringParser :: "byte list \<Rightarrow> (byte list \<times> byte list) option"
  UnknownFieldParse :: "u32 \<Rightarrow> byte list \<Rightarrow> (byte list \<times> byte list) option"
  VerifyUTF8 :: "byte list \<Rightarrow> bool"
  WriteUInt32 :: "nat \<Rightarrow> u32 \<Rightarrow> byte list"
  WriteInt32 :: "nat \<Rightarrow> u32 \<Rightarrow> byte list"
  WriteUInt64 :: "nat \<Rightarrow> u64 \<Rightarrow> byte list"
  WriteEnum :: "nat \<Rightarrow> u32 \<Rightarrow> byte list"
  WriteLengthDelimited :: "nat \<Rightarrow> byte list \<Rightarrow> byte list"
  UInt32Size :: "u32 \<Rightarrow> nat"
  Int32Size :: "u32 \<Rightarrow> nat"
  UInt64Size :: "u64 \<Rightarrow> nat"
  EnumSize :: "u32 \<Rightarrow> nat"
  LengthDelimitedSize :: "nat \<Rightarrow> nat"

section \<open>The parse loop\<close>

text \<open>
  The \<open>switch\<close> of a message: \<open>Unusual\<close> is \<open>goto handle_unusual\<close>, \<open>Failure\<close> is \<open>goto failure\<close>.
\<close>

datatype 'm field_result = Unusual | Failure | Continue 'm "byte list"

fun parse_loop :: "pb_runtime \<Rightarrow> (u32 \<Rightarrow> byte list \<Rightarrow> 'm \<Rightarrow> 'm field_result) \<Rightarrow>
    (byte list \<Rightarrow> 'm \<Rightarrow> 'm) \<Rightarrow> nat \<Rightarrow> byte list \<Rightarrow> 'm \<Rightarrow> ('m \<times> bool) option" where
  "parse_loop R switch unknown 0 bs m = None"
| "parse_loop R switch unknown (Suc k) bs m =
     (if bs = [] then Some (m, True) else
      case ReadTag R bs of None \<Rightarrow> None
      | Some (tag, p) \<Rightarrow>
        (case switch tag p m of
           Continue m' q \<Rightarrow> parse_loop R switch unknown k q m'
         | Failure \<Rightarrow> None
         | Unusual \<Rightarrow>
           if tag AND 7 = 4 \<or> tag = 0 then Some (m, False) else
           case UnknownFieldParse R tag p of None \<Rightarrow> None
           | Some (raw, q) \<Rightarrow> parse_loop R switch unknown k q (unknown raw m)))"

text \<open>
  The flag is \<open>ParseContext::EndedAtLimit\<close>: the loop used up its bytes, and did not stop at an
  end-group or zero tag (\<open>SetLastTag\<close>). \<open>ParseFromArray\<close> and the parser of a nested message succeed
  only then. Every round consumes, so one more round than bytes is enough.
\<close>

definition parse_all :: "pb_runtime \<Rightarrow> (u32 \<Rightarrow> byte list \<Rightarrow> 'm \<Rightarrow> 'm field_result) \<Rightarrow>
    (byte list \<Rightarrow> 'm \<Rightarrow> 'm) \<Rightarrow> byte list \<Rightarrow> 'm \<Rightarrow> 'm option" where
  "parse_all R switch unknown bs m =
     (case parse_loop R switch unknown (Suc (length bs)) bs m of
        Some (m', ended) \<Rightarrow> if ended then Some m' else None
      | None \<Rightarrow> None)"

text \<open>\<open>ParseContext::ParseMessage\<close>: a nested message is length-delimited, and merged into the
  message at hand.\<close>

definition ParseMessage :: "pb_runtime \<Rightarrow> (u32 \<Rightarrow> byte list \<Rightarrow> 'm \<Rightarrow> 'm field_result) \<Rightarrow>
    (byte list \<Rightarrow> 'm \<Rightarrow> 'm) \<Rightarrow> byte list \<Rightarrow> 'm \<Rightarrow> ('m \<times> byte list) option" where
  "ParseMessage R switch unknown p m =
     (case InlineGreedyStringParser R p of None \<Rightarrow> None
      | Some (bs, q) \<Rightarrow> map_option (\<lambda>m'. (m', q)) (parse_all R switch unknown bs m))"

section \<open>The laws of the wire format\<close>

definition tag_of :: "nat \<Rightarrow> nat \<Rightarrow> u32" where
  "tag_of n t = of_nat (8 * n + t)"

locale wire =
  fixes R :: pb_runtime
  assumes uint32: "1 \<le> n \<Longrightarrow> n < 16 \<Longrightarrow>
      \<exists>p. ReadTag R (WriteUInt32 R n v @ q) = Some (tag_of n 0, p) \<and> ReadVarint32 R p = Some (v, q) \<and>
          length (WriteUInt32 R n v) = 1 + UInt32Size R v"
    and int32: "1 \<le> n \<Longrightarrow> n < 16 \<Longrightarrow>
      \<exists>p. ReadTag R (WriteInt32 R n v @ q) = Some (tag_of n 0, p) \<and>
          ReadVarint64 R p = Some (scast v, q) \<and> length (WriteInt32 R n v) = 1 + Int32Size R v"
    and uint64: "1 \<le> n \<Longrightarrow> n < 16 \<Longrightarrow>
      \<exists>p. ReadTag R (WriteUInt64 R n w @ q) = Some (tag_of n 0, p) \<and> ReadVarint64 R p = Some (w, q) \<and>
          length (WriteUInt64 R n w) = 1 + UInt64Size R w"
    and enum: "1 \<le> n \<Longrightarrow> n < 16 \<Longrightarrow>
      \<exists>p. ReadTag R (WriteEnum R n v @ q) = Some (tag_of n 0, p) \<and>
          ReadVarint64 R p = Some (scast v, q) \<and> length (WriteEnum R n v) = 1 + EnumSize R v"
    and delimited: "1 \<le> n \<Longrightarrow> n < 16 \<Longrightarrow> length s < 2 ^ 31 \<Longrightarrow>
      \<exists>p. ReadTag R (WriteLengthDelimited R n s @ q) = Some (tag_of n 2, p) \<and>
          InlineGreedyStringParser R p = Some (s, q)"
    and delimited_size: "1 \<le> n \<Longrightarrow> n < 16 \<Longrightarrow>
      length (WriteLengthDelimited R n s) = 1 + LengthDelimitedSize R (length s)"
    and size_bounds: "UInt32Size R v \<le> 10" "Int32Size R v \<le> 10" "UInt64Size R w \<le> 10"
      "EnumSize R v \<le> 10" "k < 2 ^ 31 \<Longrightarrow> LengthDelimitedSize R k \<le> k + 10"
    and zero_tag: "ReadTag R (0 # q) = Some (0, q)"
begin

lemma written_sizes [simp]:
  assumes "1 \<le> n" "n < 16"
  shows "length (WriteUInt32 R n v) = 1 + UInt32Size R v"
    and "length (WriteInt32 R n v) = 1 + Int32Size R v"
    and "length (WriteUInt64 R n w) = 1 + UInt64Size R w"
    and "length (WriteEnum R n v) = 1 + EnumSize R v"
    and "length (WriteLengthDelimited R n s) = 1 + LengthDelimitedSize R (length s)"
  using uint32 [OF assms] int32 [OF assms] uint64 [OF assms] enum [OF assms]
    delimited_size [OF assms] by blast+

lemma written_nonempty [simp]:
  assumes "1 \<le> n" "n < 16"
  shows "WriteUInt32 R n v \<noteq> []" "WriteInt32 R n v \<noteq> []" "WriteUInt64 R n w \<noteq> []"
    "WriteEnum R n v \<noteq> []" "WriteLengthDelimited R n s \<noteq> []"
  using written_sizes [OF assms] by (metis add_is_0 list.size(3) one_neq_zero)+

text \<open>
  \<open>parsed_to\<close>: with at least one round per byte and one more, the loop has this outcome; \<open>parsed\<close>:
  the outcome is a message, and the bytes are used up.
\<close>

definition parsed_to :: "(u32 \<Rightarrow> byte list \<Rightarrow> 'm \<Rightarrow> 'm field_result) \<Rightarrow> (byte list \<Rightarrow> 'm \<Rightarrow> 'm) \<Rightarrow>
    byte list \<Rightarrow> 'm \<Rightarrow> ('m \<times> bool) option \<Rightarrow> bool" where
  "parsed_to switch unknown bs m out \<longleftrightarrow>
     (\<forall>k > length bs. parse_loop R switch unknown k bs m = out)"

abbreviation parsed :: "(u32 \<Rightarrow> byte list \<Rightarrow> 'm \<Rightarrow> 'm field_result) \<Rightarrow> (byte list \<Rightarrow> 'm \<Rightarrow> 'm) \<Rightarrow>
    byte list \<Rightarrow> 'm \<Rightarrow> 'm \<Rightarrow> bool" where
  "parsed switch unknown bs m r \<equiv> parsed_to switch unknown bs m (Some (r, True))"

lemma parsed_to_all:
  "parsed_to switch unknown bs m out \<Longrightarrow>
     parse_all R switch unknown bs m = (case out of Some (r, True) \<Rightarrow> Some r | _ \<Rightarrow> None)"
  using spec [of _ "Suc (length bs)"]
  unfolding parsed_to_def parse_all_def
  by (simp del: parse_loop.simps split: option.split prod.split bool.split)

lemma parsed_all: "parsed switch unknown bs m r \<Longrightarrow> parse_all R switch unknown bs m = Some r"
  using parsed_to_all by fastforce

lemma parsed_Nil: "parsed switch unknown [] m m"
  unfolding parsed_to_def
proof (intro allI impI)
  fix k :: nat assume "length ([] :: byte list) < k"
  then show "parse_loop R switch unknown k [] m = Some (m, True)" by (cases k) auto
qed

text \<open>A zero byte where a tag is expected ends the message, and the parse.\<close>

lemma parsed_stop:
  assumes "switch 0 q m = Unusual"
  shows "parsed_to switch unknown (0 # q) m (Some (m, False))"
  unfolding parsed_to_def
proof (intro allI impI)
  fix k assume "length (0 # q) < k"
  then show "parse_loop R switch unknown k (0 # q) m = Some (m, False)"
    using assms by (cases k) (auto simp: zero_tag)
qed

lemma parsed_round:
  assumes "ReadTag R (w @ q) = Some (tag, p)" "switch tag p m = Continue m' q" "w \<noteq> []"
    and "parsed_to switch unknown q m' r"
  shows "parsed_to switch unknown (w @ q) m r"
  unfolding parsed_to_def
proof (intro allI impI)
  fix k assume k: "length (w @ q) < k"
  then obtain j where "k = Suc j" by (cases k) auto
  moreover from this have "length q < j" using k assms(3) by (cases w) auto
  ultimately show "parse_loop R switch unknown k (w @ q) m = r"
    using assms by (auto simp: parsed_to_def)
qed

text \<open>
  One lemma per kind of field: what was written is read again, and a field with its default value
  is not written. The premise on the \<open>switch\<close> comes before those on the new state, which it
  determines, so that \<open>parse_steps\<close> can be applied one after the other to a serialised message.
\<close>

lemma parsed_piece:
  assumes "\<exists>p. ReadTag R (w @ q) = Some (t, p) \<and> rd p = Some (x, q)" "w \<noteq> []"
    and "\<And>p. rd p = Some (x, q) \<Longrightarrow> switch t p m = Continue m' q"
    and "\<not> c \<Longrightarrow> m' = m" "parsed_to switch unknown q m' r"
  shows "parsed_to switch unknown ((if c then w else []) @ q) m r"
proof (cases c)
  case True
  from assms(1) obtain p where "ReadTag R (w @ q) = Some (t, p)" "switch t p m = Continue m' q"
    using assms(3) by blast
  from parsed_round [OF this assms(2,5)] True show ?thesis by simp
qed (use assms(4,5) in simp)

lemma parsed_uint32:
  assumes "1 \<le> n" "n < 16"
    and "\<And>p. ReadVarint32 R p = Some (v, q) \<Longrightarrow> switch (tag_of n 0) p m = Continue m' q"
    and "v = 0 \<Longrightarrow> m' = m" "parsed_to switch unknown q m' r"
  shows "parsed_to switch unknown ((if v \<noteq> 0 then WriteUInt32 R n v else []) @ q) m r"
  by (rule parsed_piece [where t = "tag_of n 0" and rd = "ReadVarint32 R" and x = "v"])
    (use assms uint32 [OF assms(1,2), of v q] written_nonempty [OF assms(1,2)] in auto)

lemma parsed_int32:
  assumes "1 \<le> n" "n < 16"
    and "\<And>p. ReadVarint64 R p = Some (scast v, q) \<Longrightarrow> switch (tag_of n 0) p m = Continue m' q"
    and "v = 0 \<Longrightarrow> m' = m" "parsed_to switch unknown q m' r"
  shows "parsed_to switch unknown ((if v \<noteq> 0 then WriteInt32 R n v else []) @ q) m r"
  by (rule parsed_piece [where t = "tag_of n 0" and rd = "ReadVarint64 R" and x = "scast v"])
    (use assms int32 [OF assms(1,2), of v q] written_nonempty [OF assms(1,2)] in auto)

lemma parsed_uint64:
  assumes "1 \<le> n" "n < 16"
    and "\<And>p. ReadVarint64 R p = Some (v, q) \<Longrightarrow> switch (tag_of n 0) p m = Continue m' q"
    and "v = 0 \<Longrightarrow> m' = m" "parsed_to switch unknown q m' r"
  shows "parsed_to switch unknown ((if v \<noteq> 0 then WriteUInt64 R n v else []) @ q) m r"
  by (rule parsed_piece [where t = "tag_of n 0" and rd = "ReadVarint64 R" and x = "v"])
    (use assms uint64 [OF assms(1,2), of v q] written_nonempty [OF assms(1,2)] in auto)

lemma parsed_enum:
  assumes "1 \<le> n" "n < 16"
    and "\<And>p. ReadVarint64 R p = Some (scast v, q) \<Longrightarrow> switch (tag_of n 0) p m = Continue m' q"
    and "v = 0 \<Longrightarrow> m' = m" "parsed_to switch unknown q m' r"
  shows "parsed_to switch unknown ((if v \<noteq> 0 then WriteEnum R n v else []) @ q) m r"
  by (rule parsed_piece [where t = "tag_of n 0" and rd = "ReadVarint64 R" and x = "scast v"])
    (use assms enum [OF assms(1,2), of v q] written_nonempty [OF assms(1,2)] in auto)

lemma parsed_string:
  assumes "1 \<le> n" "n < 16" "length s < 2 ^ 31"
    and "\<And>p. InlineGreedyStringParser R p = Some (s, q) \<Longrightarrow> switch (tag_of n 2) p m = Continue m' q"
    and "length s = 0 \<Longrightarrow> m' = m" "parsed_to switch unknown q m' r"
  shows "parsed_to switch unknown ((if length s > 0 then WriteLengthDelimited R n s else []) @ q) m r"
  by (rule parsed_piece [where t = "tag_of n 2" and rd = "InlineGreedyStringParser R" and x = "s"])
    (use assms delimited [OF assms(1,2,3), of q] written_nonempty [OF assms(1,2)] in auto)

lemma parsed_message:
  assumes "1 \<le> n" "n < 16" "length s < 2 ^ 31"
    and "\<And>p. InlineGreedyStringParser R p = Some (s, q) \<Longrightarrow> switch (tag_of n 2) p m = Continue m' q"
    and "parsed_to switch unknown q m' r"
  shows "parsed_to switch unknown (WriteLengthDelimited R n s @ q) m r"
  using parsed_piece [of "WriteLengthDelimited R n s" q "tag_of n 2" "InlineGreedyStringParser R" s switch m m' True]
    delimited [OF assms(1-3), of q] written_nonempty [OF assms(1,2)] assms(4,5) by auto

lemmas parse_steps = parsed_uint32 parsed_int32 parsed_uint64 parsed_enum parsed_string parsed_message parsed_Nil

end

lemma if_default [simp]:
  "(if v \<noteq> d then v else d) = v" "(if s \<noteq> [] then s else []) = s"
  by auto

lemma piece_length: "length (if c then w else []) = (if c then length w else 0)"
  by simp

text \<open>An enum field keeps the low 32 bits of the varint it was sign-extended to.\<close>

lemma enum_truncate [simp]: "(ucast (scast v :: u64) :: u32) = (v :: u32)"
  by (rule bit_word_eqI) (simp add: bit_simps)

end
