(* ===== verification/WireFormat.thy ===== *)
theory WireFormat
  imports Wire
begin

text \<open>
  The documented protobuf wire format as an instance of \<open>pb_runtime\<close>: base-128 varints, low group
  first, with the high bit set on all but the last byte; tags \<open>field * 8 + wire type\<close>; strings and
  nested messages preceded by their length. \<open>leb: wire leb_runtime\<close> discharges the laws of
  \<open>wire\<close>.
\<close>

section \<open>Varints\<close>

function leb :: "nat \<Rightarrow> byte list" where
  "leb n = (if n < 128 then [of_nat n] else of_nat (n mod 128 + 128) # leb (n div 128))"
  by pat_completeness auto
termination
  by (relation "measure id") auto

declare leb.simps [simp del]

fun unleb :: "nat \<Rightarrow> byte list \<Rightarrow> (nat \<times> byte list) option" where
  "unleb 0 bs = None"
| "unleb (Suc k) [] = None"
| "unleb (Suc k) (b # bs) =
     (if b < 128 then Some (unat b, bs)
      else map_option (\<lambda>(v, r). (unat b - 128 + 128 * v, r)) (unleb k bs))"

lemma unleb_leb: "0 < k \<Longrightarrow> n < 128 ^ k \<Longrightarrow> unleb k (leb n @ q) = Some (n, q)"
proof (induction n arbitrary: k rule: leb.induct)
  case (1 n)
  then obtain j where k: "k = Suc j" by (cases k) auto
  show ?case
  proof (cases "n < 128")
    case True
    then have "(of_nat n :: byte) < 128" "unat (of_nat n :: byte) = n"
      by (simp_all add: word_less_nat_alt unat_of_nat)
    then show ?thesis using True k by (subst leb.simps) simp
  next
    case False
    let ?b = "of_nat (n mod 128 + 128) :: byte"
    have u: "unat ?b = n mod 128 + 128" by (subst unat_of_nat) simp
    then have "\<not> ?b < 128" by (simp add: word_less_nat_alt del: of_nat_add)
    moreover have "n div 128 < 128 ^ j"
      using "1.prems" k by (simp add: less_mult_imp_div_less mult.commute)
    moreover from this False have "0 < j" by (cases j) (auto dest: div_greater_zero_iff [THEN iffD2])
    ultimately show ?thesis
      using "1.IH" [OF False] False k u by (subst leb.simps) (simp del: of_nat_add)
  qed
qed

definition varint_size :: "nat \<Rightarrow> nat" where
  "varint_size n = length (leb n)"

section \<open>Reading\<close>

definition leb_u32 :: "nat \<Rightarrow> byte list \<Rightarrow> (u32 \<times> byte list) option" where
  "leb_u32 k bs = map_option (\<lambda>(v, r). (of_nat v, r)) (unleb k bs)"

definition leb_u64 :: "byte list \<Rightarrow> (u64 \<times> byte list) option" where
  "leb_u64 bs = map_option (\<lambda>(v, r). (of_nat v, r)) (unleb 10 bs)"

definition leb_string :: "byte list \<Rightarrow> (byte list \<times> byte list) option" where
  "leb_string bs =
     (case unleb 5 bs of
        Some (n, r) \<Rightarrow> if n \<le> length r \<and> n < 2 ^ 31 then Some (take n r, drop n r) else None
      | None \<Rightarrow> None)"

definition leb_unknown :: "u32 \<Rightarrow> byte list \<Rightarrow> (byte list \<times> byte list) option" where
  "leb_unknown tag bs =
     (let t = unat tag mod 8;
          rest = (if t = 0 then map_option snd (unleb 10 bs)
                  else if t = 1 \<and> 8 \<le> length bs then Some (drop 8 bs)
                  else if t = 2 then map_option snd (leb_string bs)
                  else if t = 5 \<and> 4 \<le> length bs then Some (drop 4 bs)
                  else None) in
      map_option (\<lambda>r. (leb (unat tag) @ take (length bs - length r) bs, r)) rest)"

text \<open>Well-formed UTF-8: no overlong forms, no surrogates, at most U+10FFFF.\<close>

definition cont :: "byte \<Rightarrow> bool" where
  "cont b \<longleftrightarrow> b AND 0xc0 = 0x80"

fun utf8 :: "byte list \<Rightarrow> bool" where
  "utf8 [] = True"
| "utf8 (a # xs) =
     (if a < 0x80 then utf8 xs else
      case xs of [] \<Rightarrow> False
      | b # ys \<Rightarrow>
        if a < 0xc2 then False
        else if a < 0xe0 then cont b \<and> utf8 ys
        else (case ys of [] \<Rightarrow> False
        | c # zs \<Rightarrow>
          if a < 0xf0 then cont b \<and> cont c \<and> (a = 0xe0 \<longrightarrow> 0xa0 \<le> b) \<and> (a = 0xed \<longrightarrow> b < 0xa0) \<and> utf8 zs
          else (case zs of [] \<Rightarrow> False
          | d # ws \<Rightarrow> a < 0xf5 \<and> cont b \<and> cont c \<and> cont d \<and> (a = 0xf0 \<longrightarrow> 0x90 \<le> b) \<and>
              (a = 0xf4 \<longrightarrow> b < 0x90) \<and> utf8 ws)))"

section \<open>The instance\<close>

text \<open>Signed 32-bit values and enums are sign-extended to 64 bits before they are written.\<close>

definition leb_runtime :: pb_runtime where
  "leb_runtime = \<lparr>
     ReadTag = leb_u32 5, ReadVarint32 = leb_u32 10, ReadVarint64 = leb_u64,
     InlineGreedyStringParser = leb_string, UnknownFieldParse = leb_unknown, VerifyUTF8 = utf8,
     WriteUInt32 = (\<lambda>n v. leb (8 * n) @ leb (unat v)),
     WriteInt32 = (\<lambda>n v. leb (8 * n) @ leb (unat (scast v :: u64))),
     WriteUInt64 = (\<lambda>n v. leb (8 * n) @ leb (unat v)),
     WriteEnum = (\<lambda>n v. leb (8 * n) @ leb (unat (scast v :: u64))),
     WriteLengthDelimited = (\<lambda>n s. leb (8 * n + 2) @ leb (length s) @ s),
     UInt32Size = (\<lambda>v. varint_size (unat v)),
     Int32Size = (\<lambda>v. varint_size (unat (scast v :: u64))),
     UInt64Size = (\<lambda>v. varint_size (unat v)),
     EnumSize = (\<lambda>v. varint_size (unat (scast v :: u64))),
     LengthDelimitedSize = (\<lambda>n. varint_size n + n)\<rparr>"

lemma leb_tag:
  assumes "n < 16" "t < 8"
  shows "length (leb (8 * n + t)) = 1" "leb_u32 5 (leb (8 * n + t) @ q) = Some (tag_of n t, q)"
proof -
  have l: "8 * n + t < 128" using assms by simp
  then show "length (leb (8 * n + t)) = 1" by (subst leb.simps) simp
  have "8 * n + t < 128 ^ 5" using l by simp
  then show "leb_u32 5 (leb (8 * n + t) @ q) = Some (tag_of n t, q)"
    by (simp add: leb_u32_def unleb_leb tag_of_def)
qed

lemma leb_length: "0 < k \<Longrightarrow> n < 128 ^ k \<Longrightarrow> length (leb n) \<le> k"
proof (induction n arbitrary: k rule: leb.induct)
  case (1 n)
  then obtain j where k: "k = Suc j" by (cases k) auto
  show ?case
  proof (cases "n < 128")
    case False
    then have "n div 128 < 128 ^ j" "0 < j"
      using "1.prems" k by (cases j; simp add: less_mult_imp_div_less mult.commute)+
    then show ?thesis using "1.IH" [OF False] False k by (subst leb.simps) simp
  qed (use k in \<open>subst leb.simps, simp\<close>)
qed

lemma unat_bound: "unat (v :: u32) < 128 ^ 10" "unat (w :: u64) < 128 ^ 10"
  using unsigned_less [of v, where ?'a = nat] unsigned_less [of w, where ?'a = nat] by simp_all

interpretation leb: wire leb_runtime
proof unfold_locales
  fix n :: nat and v :: u32 and w :: u64 and s q :: "byte list"
  assume n: "1 \<le> n" "n < 16"
  note tag0 = leb_tag [of n 0, simplified, OF n(2)] and tag2 = leb_tag [of n 2, OF n(2)]
  show "\<exists>p. ReadTag leb_runtime (WriteUInt32 leb_runtime n v @ q) = Some (tag_of n 0, p) \<and>
      ReadVarint32 leb_runtime p = Some (v, q) \<and>
      length (WriteUInt32 leb_runtime n v) = 1 + UInt32Size leb_runtime v"
    using tag0 unat_bound(1)
    by (auto simp: leb_runtime_def leb_u32_def [of 10] unleb_leb varint_size_def)
  show "\<exists>p. ReadTag leb_runtime (WriteInt32 leb_runtime n v @ q) = Some (tag_of n 0, p) \<and>
      ReadVarint64 leb_runtime p = Some (scast v, q) \<and>
      length (WriteInt32 leb_runtime n v) = 1 + Int32Size leb_runtime v"
    using tag0 unat_bound(2) by (auto simp: leb_runtime_def leb_u64_def unleb_leb varint_size_def)
  show "\<exists>p. ReadTag leb_runtime (WriteUInt64 leb_runtime n w @ q) = Some (tag_of n 0, p) \<and>
      ReadVarint64 leb_runtime p = Some (w, q) \<and>
      length (WriteUInt64 leb_runtime n w) = 1 + UInt64Size leb_runtime w"
    using tag0 unat_bound(2) by (auto simp: leb_runtime_def leb_u64_def unleb_leb varint_size_def)
  show "\<exists>p. ReadTag leb_runtime (WriteEnum leb_runtime n v @ q) = Some (tag_of n 0, p) \<and>
      ReadVarint64 leb_runtime p = Some (scast v, q) \<and>
      length (WriteEnum leb_runtime n v) = 1 + EnumSize leb_runtime v"
    using tag0 unat_bound(2) by (auto simp: leb_runtime_def leb_u64_def unleb_leb varint_size_def)
  show "length (WriteLengthDelimited leb_runtime n s) = 1 + LengthDelimitedSize leb_runtime (length s)"
    using tag2 by (simp add: leb_runtime_def varint_size_def)
  assume "length s < 2 ^ 31"
  then show "\<exists>p. ReadTag leb_runtime (WriteLengthDelimited leb_runtime n s @ q) = Some (tag_of n 2, p) \<and>
      InlineGreedyStringParser leb_runtime p = Some (s, q)"
    using tag2 by (auto simp: leb_runtime_def leb_string_def unleb_leb)
next
  fix v :: u32 and w :: u64 and k :: nat and q :: "byte list"
  show "UInt32Size leb_runtime v \<le> 10" "Int32Size leb_runtime v \<le> 10"
    "UInt64Size leb_runtime w \<le> 10" "EnumSize leb_runtime v \<le> 10"
    using unat_bound by (simp_all add: leb_runtime_def varint_size_def leb_length)
  show "ReadTag leb_runtime (0 # q) = Some (0, q)"
    using unleb.simps(3) [of 4 0 q] by (simp add: leb_runtime_def leb_u32_def)
  assume "k < 2 ^ 31"
  then have "length (leb k) \<le> 10" by (intro leb_length) simp_all
  then show "LengthDelimitedSize leb_runtime k \<le> k + 10"
    by (simp add: leb_runtime_def varint_size_def)
qed

end
