(* ===== verification/PbDef.thy ===== *)
theory PbDef
  imports WireFormat
begin

text \<open>
  Messages of \<open>cim/pb/CIM.Def.pb.cc\<close> that others carry: \<open>CIMUserInfo\<close>, the \<open>CIMMsgInfo\<close> a
  \<open>MessageModel\<close> is built from. Each class is a record of its fields and unknown bytes, with
  its constructor, \<open>Clear\<close>, the \<open>switch\<close> of \<open>_InternalParse\<close>, \<open>_InternalSerialize\<close>, \<open>ByteSizeLong\<close>,
  \<open>MergeFrom\<close> and \<open>CopyFrom\<close>. Each gets three lemmas: the size is the length of what is serialised,
  parsing what was serialised gives the message back, copying copies.
\<close>

section \<open>CIMUserInfo\<close>

record CIMUserInfo =
  UserInfo_user_id :: "u64"
  UserInfo_nick_name :: "byte list"
  UserInfo_nick_name_spell :: "byte list"
  UserInfo_phone :: "byte list"
  UserInfo_avatar_url :: "byte list"
  UserInfo_attach_info :: "byte list"
  UserInfo_unknown :: "byte list"

definition CIMUserInfo_new :: CIMUserInfo where
  "CIMUserInfo_new = \<lparr>UserInfo_user_id = 0, UserInfo_nick_name = [], UserInfo_nick_name_spell = [], UserInfo_phone = [], UserInfo_avatar_url = [], UserInfo_attach_info = [], UserInfo_unknown = []\<rparr>"

definition CIMUserInfo_Clear :: "CIMUserInfo \<Rightarrow> CIMUserInfo" where
  "CIMUserInfo_Clear m = m\<lparr>UserInfo_user_id := 0, UserInfo_nick_name := [], UserInfo_nick_name_spell := [], UserInfo_phone := [], UserInfo_avatar_url := [], UserInfo_attach_info := [], UserInfo_unknown := []\<rparr>"

definition CIMUserInfo_unknown :: "byte list \<Rightarrow> CIMUserInfo \<Rightarrow> CIMUserInfo" where
  "CIMUserInfo_unknown raw m = m\<lparr>UserInfo_unknown := UserInfo_unknown m @ raw\<rparr>"

definition CIMUserInfo_switch :: "pb_runtime \<Rightarrow> u32 \<Rightarrow> byte list \<Rightarrow> CIMUserInfo \<Rightarrow> CIMUserInfo field_result" where
  "CIMUserInfo_switch R tag p m =
     (let field = drop_bit 3 tag; low = (ucast tag :: byte) in
      if field = 1 then
        if low = 8 then
          (case ReadVarint64 R p of None \<Rightarrow> Failure | Some (v, q) \<Rightarrow> Continue (m\<lparr>UserInfo_user_id := v\<rparr>) q)
        else Unusual
      else if field = 2 then
        if low = 18 then
          (case InlineGreedyStringParser R p of None \<Rightarrow> Failure | Some (s, q) \<Rightarrow>
            if VerifyUTF8 R s then Continue (m\<lparr>UserInfo_nick_name := s\<rparr>) q else Failure)
        else Unusual
      else if field = 3 then
        if low = 26 then
          (case InlineGreedyStringParser R p of None \<Rightarrow> Failure | Some (s, q) \<Rightarrow>
            if VerifyUTF8 R s then Continue (m\<lparr>UserInfo_nick_name_spell := s\<rparr>) q else Failure)
        else Unusual
      else if field = 9 then
        if low = 74 then
          (case InlineGreedyStringParser R p of None \<Rightarrow> Failure | Some (s, q) \<Rightarrow>
            if VerifyUTF8 R s then Continue (m\<lparr>UserInfo_phone := s\<rparr>) q else Failure)
        else Unusual
      else if field = 10 then
        if low = 82 then
          (case InlineGreedyStringParser R p of None \<Rightarrow> Failure | Some (s, q) \<Rightarrow>
            if VerifyUTF8 R s then Continue (m\<lparr>UserInfo_avatar_url := s\<rparr>) q else Failure)
        else Unusual
      else if field = 11 then
        if low = 90 then
          (case InlineGreedyStringParser R p of None \<Rightarrow> Failure | Some (s, q) \<Rightarrow>
            if VerifyUTF8 R s then Continue (m\<lparr>UserInfo_attach_info := s\<rparr>) q else Failure)
        else Unusual
      else Unusual)"

definition CIMUserInfo_ParseFromArray :: "pb_runtime \<Rightarrow> byte list \<Rightarrow> CIMUserInfo \<Rightarrow> CIMUserInfo option" where
  "CIMUserInfo_ParseFromArray R bs m = parse_all R (CIMUserInfo_switch R) CIMUserInfo_unknown bs (CIMUserInfo_Clear m)"

definition CIMUserInfo_InternalSerialize :: "pb_runtime \<Rightarrow> CIMUserInfo \<Rightarrow> byte list" where
  "CIMUserInfo_InternalSerialize R m =
     (if UserInfo_user_id m \<noteq> 0 then WriteUInt64 R 1 (UserInfo_user_id m) else []) @
     (if length (UserInfo_nick_name m) > 0 then WriteLengthDelimited R 2 (UserInfo_nick_name m) else []) @
     (if length (UserInfo_nick_name_spell m) > 0 then WriteLengthDelimited R 3 (UserInfo_nick_name_spell m) else []) @
     (if length (UserInfo_phone m) > 0 then WriteLengthDelimited R 9 (UserInfo_phone m) else []) @
     (if length (UserInfo_avatar_url m) > 0 then WriteLengthDelimited R 10 (UserInfo_avatar_url m) else []) @
     (if length (UserInfo_attach_info m) > 0 then WriteLengthDelimited R 11 (UserInfo_attach_info m) else []) @
     UserInfo_unknown m"

definition CIMUserInfo_ByteSizeLong :: "pb_runtime \<Rightarrow> CIMUserInfo \<Rightarrow> nat" where
  "CIMUserInfo_ByteSizeLong R m =
     (if length (UserInfo_nick_name m) > 0 then 1 + LengthDelimitedSize R (length (UserInfo_nick_name m)) else 0) +
     (if length (UserInfo_nick_name_spell m) > 0 then 1 + LengthDelimitedSize R (length (UserInfo_nick_name_spell m)) else 0) +
     (if length (UserInfo_phone m) > 0 then 1 + LengthDelimitedSize R (length (UserInfo_phone m)) else 0) +
     (if length (UserInfo_avatar_url m) > 0 then 1 + LengthDelimitedSize R (length (UserInfo_avatar_url m)) else 0) +
     (if length (UserInfo_attach_info m) > 0 then 1 + LengthDelimitedSize R (length (UserInfo_attach_info m)) else 0) +
     (if UserInfo_user_id m \<noteq> 0 then 1 + UInt64Size R (UserInfo_user_id m) else 0) +
     length (UserInfo_unknown m)"

definition CIMUserInfo_MergeFrom :: "CIMUserInfo \<Rightarrow> CIMUserInfo \<Rightarrow> CIMUserInfo" where
  "CIMUserInfo_MergeFrom m src =
     m\<lparr>UserInfo_unknown := UserInfo_unknown m @ UserInfo_unknown src,
       UserInfo_nick_name := (if length (UserInfo_nick_name src) > 0 then UserInfo_nick_name src else UserInfo_nick_name m),
       UserInfo_nick_name_spell := (if length (UserInfo_nick_name_spell src) > 0 then UserInfo_nick_name_spell src else UserInfo_nick_name_spell m),
       UserInfo_phone := (if length (UserInfo_phone src) > 0 then UserInfo_phone src else UserInfo_phone m),
       UserInfo_avatar_url := (if length (UserInfo_avatar_url src) > 0 then UserInfo_avatar_url src else UserInfo_avatar_url m),
       UserInfo_attach_info := (if length (UserInfo_attach_info src) > 0 then UserInfo_attach_info src else UserInfo_attach_info m),
       UserInfo_user_id := (if UserInfo_user_id src \<noteq> 0 then UserInfo_user_id src else UserInfo_user_id m)\<rparr>"

definition CIMUserInfo_CopyFrom :: "CIMUserInfo \<Rightarrow> CIMUserInfo \<Rightarrow> CIMUserInfo" where
  "CIMUserInfo_CopyFrom m src = CIMUserInfo_MergeFrom (CIMUserInfo_Clear m) src"

text \<open>What a client builds: UTF-8 in the \<open>string\<close> fields, lengths an \<open>int\<close> holds, nothing unknown.\<close>

definition CIMUserInfo_valid :: "pb_runtime \<Rightarrow> CIMUserInfo \<Rightarrow> bool" where
  "CIMUserInfo_valid R m \<longleftrightarrow>
     length (UserInfo_nick_name m) < 2 ^ 31 \<and> VerifyUTF8 R (UserInfo_nick_name m) \<and>
     length (UserInfo_nick_name_spell m) < 2 ^ 31 \<and> VerifyUTF8 R (UserInfo_nick_name_spell m) \<and>
     length (UserInfo_phone m) < 2 ^ 31 \<and> VerifyUTF8 R (UserInfo_phone m) \<and>
     length (UserInfo_avatar_url m) < 2 ^ 31 \<and> VerifyUTF8 R (UserInfo_avatar_url m) \<and>
     length (UserInfo_attach_info m) < 2 ^ 31 \<and> VerifyUTF8 R (UserInfo_attach_info m) \<and>
     UserInfo_unknown m = []"

lemmas UserInfo_defs = CIMUserInfo_new_def CIMUserInfo_Clear_def CIMUserInfo_unknown_def CIMUserInfo_InternalSerialize_def CIMUserInfo_ByteSizeLong_def CIMUserInfo_valid_def

lemma CIMUserInfo_Clear_new: "CIMUserInfo_Clear m = CIMUserInfo_new"
  by (cases m) (simp add: CIMUserInfo_Clear_def CIMUserInfo_new_def)

lemma CIMUserInfo_MergeFrom_new: "CIMUserInfo_MergeFrom CIMUserInfo_new src = src"
  by (cases src) (simp add: CIMUserInfo_new_def CIMUserInfo_MergeFrom_def split del: if_split cong: if_cong)

lemma CIMUserInfo_CopyFrom_id: "CIMUserInfo_CopyFrom m src = src"
  by (simp add: CIMUserInfo_CopyFrom_def CIMUserInfo_Clear_new CIMUserInfo_MergeFrom_new)

context wire begin

lemma CIMUserInfo_size: "length (CIMUserInfo_InternalSerialize R m) = CIMUserInfo_ByteSizeLong R m"
  by (simp add: CIMUserInfo_InternalSerialize_def CIMUserInfo_ByteSizeLong_def piece_length split del: if_split cong: if_cong)

lemma CIMUserInfo_parsed:
  assumes "CIMUserInfo_valid R m"
  shows "parsed (CIMUserInfo_switch R) CIMUserInfo_unknown (CIMUserInfo_InternalSerialize R m) CIMUserInfo_new m"
  using assms
  by (cases m) (simp only: UserInfo_defs CIMUserInfo.select_convs,
    (rule parse_steps | simp add: CIMUserInfo_switch_def tag_of_def)+)

lemma CIMUserInfo_roundtrip:
  "CIMUserInfo_valid R m \<Longrightarrow> CIMUserInfo_ParseFromArray R (CIMUserInfo_InternalSerialize R m) m0 = Some m"
  using parsed_all [OF CIMUserInfo_parsed, of m]
  by (simp add: CIMUserInfo_ParseFromArray_def CIMUserInfo_Clear_new)

end

section \<open>CIMMsgInfo\<close>

record CIMMsgInfo =
  MsgInfo_client_msg_id :: "byte list"
  MsgInfo_server_msg_id :: "u64"
  MsgInfo_msg_res_code :: "u32"
  MsgInfo_msg_feature :: "u32"
  MsgInfo_session_type :: "u32"
  MsgInfo_from_user_id :: "u64"
  MsgInfo_to_session_id :: "u64"
  MsgInfo_create_time :: "u32"
  MsgInfo_msg_type :: "u32"
  MsgInfo_msg_status :: "u32"
  MsgInfo_msg_data :: "byte list"
  MsgInfo_attach :: "byte list"
  MsgInfo_sender_client_type :: "u32"
  MsgInfo_unknown :: "byte list"

definition CIMMsgInfo_new :: CIMMsgInfo where
  "CIMMsgInfo_new = \<lparr>MsgInfo_client_msg_id = [], MsgInfo_server_msg_id = 0, MsgInfo_msg_res_code = 0, MsgInfo_msg_feature = 0, MsgInfo_session_type = 0, MsgInfo_from_user_id = 0, MsgInfo_to_session_id = 0, MsgInfo_create_time = 0, MsgInfo_msg_type = 0, MsgInfo_msg_status = 0, MsgInfo_msg_data = [], MsgInfo_attach = [], MsgInfo_sender_client_type = 0, MsgInfo_unknown = []\<rparr>"

definition CIMMsgInfo_Clear :: "CIMMsgInfo \<Rightarrow> CIMMsgInfo" where
  "CIMMsgInfo_Clear m = m\<lparr>MsgInfo_client_msg_id := [], MsgInfo_server_msg_id := 0, MsgInfo_msg_res_code := 0, MsgInfo_msg_feature := 0, MsgInfo_session_type := 0, MsgInfo_from_user_id := 0, MsgInfo_to_session_id := 0, MsgInfo_create_time := 0, MsgInfo_msg_type := 0, MsgInfo_msg_status := 0, MsgInfo_msg_data := [], MsgInfo_attach := [], MsgInfo_sender_client_type := 0, MsgInfo_unknown := []\<rparr>"

definition CIMMsgInfo_unknown :: "byte list \<Rightarrow> CIMMsgInfo \<Rightarrow> CIMMsgInfo" where
  "CIMMsgInfo_unknown raw m = m\<lparr>MsgInfo_unknown := MsgInfo_unknown m @ raw\<rparr>"

definition CIMMsgInfo_switch :: "pb_runtime \<Rightarrow> u32 \<Rightarrow> byte list \<Rightarrow> CIMMsgInfo \<Rightarrow> CIMMsgInfo field_result" where
  "CIMMsgInfo_switch R tag p m =
     (let field = drop_bit 3 tag; low = (ucast tag :: byte) in
      if field = 1 then
        if low = 10 then
          (case InlineGreedyStringParser R p of None \<Rightarrow> Failure | Some (s, q) \<Rightarrow>
            if VerifyUTF8 R s then Continue (m\<lparr>MsgInfo_client_msg_id := s\<rparr>) q else Failure)
        else Unusual
      else if field = 2 then
        if low = 16 then
          (case ReadVarint64 R p of None \<Rightarrow> Failure | Some (v, q) \<Rightarrow> Continue (m\<lparr>MsgInfo_server_msg_id := v\<rparr>) q)
        else Unusual
      else if field = 3 then
        if low = 24 then
          (case ReadVarint64 R p of None \<Rightarrow> Failure | Some (v, q) \<Rightarrow> Continue (m\<lparr>MsgInfo_msg_res_code := ucast v\<rparr>) q)
        else Unusual
      else if field = 4 then
        if low = 32 then
          (case ReadVarint64 R p of None \<Rightarrow> Failure | Some (v, q) \<Rightarrow> Continue (m\<lparr>MsgInfo_msg_feature := ucast v\<rparr>) q)
        else Unusual
      else if field = 5 then
        if low = 40 then
          (case ReadVarint64 R p of None \<Rightarrow> Failure | Some (v, q) \<Rightarrow> Continue (m\<lparr>MsgInfo_session_type := ucast v\<rparr>) q)
        else Unusual
      else if field = 6 then
        if low = 48 then
          (case ReadVarint64 R p of None \<Rightarrow> Failure | Some (v, q) \<Rightarrow> Continue (m\<lparr>MsgInfo_from_user_id := v\<rparr>) q)
        else Unusual
      else if field = 7 then
        if low = 56 then
          (case ReadVarint64 R p of None \<Rightarrow> Failure | Some (v, q) \<Rightarrow> Continue (m\<lparr>MsgInfo_to_session_id := v\<rparr>) q)
        else Unusual
      else if field = 8 then
        if low = 64 then
          (case ReadVarint32 R p of None \<Rightarrow> Failure | Some (v, q) \<Rightarrow> Continue (m\<lparr>MsgInfo_create_time := v\<rparr>) q)
        else Unusual
      else if field = 9 then
        if low = 72 then
          (case ReadVarint64 R p of None \<Rightarrow> Failure | Some (v, q) \<Rightarrow> Continue (m\<lparr>MsgInfo_msg_type := ucast v\<rparr>) q)
        else Unusual
      else if field = 10 then
        if low = 80 then
          (case ReadVarint64 R p of None \<Rightarrow> Failure | Some (v, q) \<Rightarrow> Continue (m\<lparr>MsgInfo_msg_status := ucast v\<rparr>) q)
        else Unusual
      else if field = 11 then
        if low = 90 then
          (case InlineGreedyStringParser R p of None \<Rightarrow> Failure | Some (s, q) \<Rightarrow> Continue (m\<lparr>MsgInfo_msg_data := s\<rparr>) q)
        else Unusual
      else if field = 12 then
        if low = 98 then
          (case InlineGreedyStringParser R p of None \<Rightarrow> Failure | Some (s, q) \<Rightarrow>
            if VerifyUTF8 R s then Continue (m\<lparr>MsgInfo_attach := s\<rparr>) q else Failure)
        else Unusual
      else if field = 13 then
        if low = 104 then
          (case ReadVarint64 R p of None \<Rightarrow> Failure | Some (v, q) \<Rightarrow> Continue (m\<lparr>MsgInfo_sender_client_type := ucast v\<rparr>) q)
        else Unusual
      else Unusual)"

definition CIMMsgInfo_ParseFromArray :: "pb_runtime \<Rightarrow> byte list \<Rightarrow> CIMMsgInfo \<Rightarrow> CIMMsgInfo option" where
  "CIMMsgInfo_ParseFromArray R bs m = parse_all R (CIMMsgInfo_switch R) CIMMsgInfo_unknown bs (CIMMsgInfo_Clear m)"

definition CIMMsgInfo_InternalSerialize :: "pb_runtime \<Rightarrow> CIMMsgInfo \<Rightarrow> byte list" where
  "CIMMsgInfo_InternalSerialize R m =
     (if length (MsgInfo_client_msg_id m) > 0 then WriteLengthDelimited R 1 (MsgInfo_client_msg_id m) else []) @
     (if MsgInfo_server_msg_id m \<noteq> 0 then WriteUInt64 R 2 (MsgInfo_server_msg_id m) else []) @
     (if MsgInfo_msg_res_code m \<noteq> 0 then WriteEnum R 3 (MsgInfo_msg_res_code m) else []) @
     (if MsgInfo_msg_feature m \<noteq> 0 then WriteEnum R 4 (MsgInfo_msg_feature m) else []) @
     (if MsgInfo_session_type m \<noteq> 0 then WriteEnum R 5 (MsgInfo_session_type m) else []) @
     (if MsgInfo_from_user_id m \<noteq> 0 then WriteUInt64 R 6 (MsgInfo_from_user_id m) else []) @
     (if MsgInfo_to_session_id m \<noteq> 0 then WriteUInt64 R 7 (MsgInfo_to_session_id m) else []) @
     (if MsgInfo_create_time m \<noteq> 0 then WriteUInt32 R 8 (MsgInfo_create_time m) else []) @
     (if MsgInfo_msg_type m \<noteq> 0 then WriteEnum R 9 (MsgInfo_msg_type m) else []) @
     (if MsgInfo_msg_status m \<noteq> 0 then WriteEnum R 10 (MsgInfo_msg_status m) else []) @
     (if length (MsgInfo_msg_data m) > 0 then WriteLengthDelimited R 11 (MsgInfo_msg_data m) else []) @
     (if length (MsgInfo_attach m) > 0 then WriteLengthDelimited R 12 (MsgInfo_attach m) else []) @
     (if MsgInfo_sender_client_type m \<noteq> 0 then WriteEnum R 13 (MsgInfo_sender_client_type m) else []) @
     MsgInfo_unknown m"

definition CIMMsgInfo_ByteSizeLong :: "pb_runtime \<Rightarrow> CIMMsgInfo \<Rightarrow> nat" where
  "CIMMsgInfo_ByteSizeLong R m =
     (if length (MsgInfo_client_msg_id m) > 0 then 1 + LengthDelimitedSize R (length (MsgInfo_client_msg_id m)) else 0) +
     (if length (MsgInfo_msg_data m) > 0 then 1 + LengthDelimitedSize R (length (MsgInfo_msg_data m)) else 0) +
     (if length (MsgInfo_attach m) > 0 then 1 + LengthDelimitedSize R (length (MsgInfo_attach m)) else 0) +
     (if MsgInfo_server_msg_id m \<noteq> 0 then 1 + UInt64Size R (MsgInfo_server_msg_id m) else 0) +
     (if MsgInfo_msg_res_code m \<noteq> 0 then 1 + EnumSize R (MsgInfo_msg_res_code m) else 0) +
     (if MsgInfo_msg_feature m \<noteq> 0 then 1 + EnumSize R (MsgInfo_msg_feature m) else 0) +
     (if MsgInfo_from_user_id m \<noteq> 0 then 1 + UInt64Size R (MsgInfo_from_user_id m) else 0) +
     (if MsgInfo_session_type m \<noteq> 0 then 1 + EnumSize R (MsgInfo_session_type m) else 0) +
     (if MsgInfo_create_time m \<noteq> 0 then 1 + UInt32Size R (MsgInfo_create_time m) else 0) +
     (if MsgInfo_to_session_id m \<noteq> 0 then 1 + UInt64Size R (MsgInfo_to_session_id m) else 0) +
     (if MsgInfo_msg_type m \<noteq> 0 then 1 + EnumSize R (MsgInfo_msg_type m) else 0) +
     (if MsgInfo_msg_status m \<noteq> 0 then 1 + EnumSize R (MsgInfo_msg_status m) else 0) +
     (if MsgInfo_sender_client_type m \<noteq> 0 then 1 + EnumSize R (MsgInfo_sender_client_type m) else 0) +
     length (MsgInfo_unknown m)"

definition CIMMsgInfo_MergeFrom :: "CIMMsgInfo \<Rightarrow> CIMMsgInfo \<Rightarrow> CIMMsgInfo" where
  "CIMMsgInfo_MergeFrom m src =
     m\<lparr>MsgInfo_unknown := MsgInfo_unknown m @ MsgInfo_unknown src,
       MsgInfo_client_msg_id := (if length (MsgInfo_client_msg_id src) > 0 then MsgInfo_client_msg_id src else MsgInfo_client_msg_id m),
       MsgInfo_msg_data := (if length (MsgInfo_msg_data src) > 0 then MsgInfo_msg_data src else MsgInfo_msg_data m),
       MsgInfo_attach := (if length (MsgInfo_attach src) > 0 then MsgInfo_attach src else MsgInfo_attach m),
       MsgInfo_server_msg_id := (if MsgInfo_server_msg_id src \<noteq> 0 then MsgInfo_server_msg_id src else MsgInfo_server_msg_id m),
       MsgInfo_msg_res_code := (if MsgInfo_msg_res_code src \<noteq> 0 then MsgInfo_msg_res_code src else MsgInfo_msg_res_code m),
       MsgInfo_msg_feature := (if MsgInfo_msg_feature src \<noteq> 0 then MsgInfo_msg_feature src else MsgInfo_msg_feature m),
       MsgInfo_from_user_id := (if MsgInfo_from_user_id src \<noteq> 0 then MsgInfo_from_user_id src else MsgInfo_from_user_id m),
       MsgInfo_session_type := (if MsgInfo_session_type src \<noteq> 0 then MsgInfo_session_type src else MsgInfo_session_type m),
       MsgInfo_create_time := (if MsgInfo_create_time src \<noteq> 0 then MsgInfo_create_time src else MsgInfo_create_time m),
       MsgInfo_to_session_id := (if MsgInfo_to_session_id src \<noteq> 0 then MsgInfo_to_session_id src else MsgInfo_to_session_id m),
       MsgInfo_msg_type := (if MsgInfo_msg_type src \<noteq> 0 then MsgInfo_msg_type src else MsgInfo_msg_type m),
       MsgInfo_msg_status := (if MsgInfo_msg_status src \<noteq> 0 then MsgInfo_msg_status src else MsgInfo_msg_status m),
       MsgInfo_sender_client_type := (if MsgInfo_sender_client_type src \<noteq> 0 then MsgInfo_sender_client_type src else MsgInfo_sender_client_type m)\<rparr>"

definition CIMMsgInfo_CopyFrom :: "CIMMsgInfo \<Rightarrow> CIMMsgInfo \<Rightarrow> CIMMsgInfo" where
  "CIMMsgInfo_CopyFrom m src = CIMMsgInfo_MergeFrom (CIMMsgInfo_Clear m) src"

text \<open>What a client builds: UTF-8 in the \<open>string\<close> fields, lengths an \<open>int\<close> holds, nothing unknown.\<close>

definition CIMMsgInfo_valid :: "pb_runtime \<Rightarrow> CIMMsgInfo \<Rightarrow> bool" where
  "CIMMsgInfo_valid R m \<longleftrightarrow>
     length (MsgInfo_client_msg_id m) < 2 ^ 31 \<and> VerifyUTF8 R (MsgInfo_client_msg_id m) \<and>
     length (MsgInfo_msg_data m) < 2 ^ 31 \<and>
     length (MsgInfo_attach m) < 2 ^ 31 \<and> VerifyUTF8 R (MsgInfo_attach m) \<and>
     MsgInfo_unknown m = []"

lemmas MsgInfo_defs = CIMMsgInfo_new_def CIMMsgInfo_Clear_def CIMMsgInfo_unknown_def CIMMsgInfo_InternalSerialize_def CIMMsgInfo_ByteSizeLong_def CIMMsgInfo_valid_def

lemma CIMMsgInfo_Clear_new: "CIMMsgInfo_Clear m = CIMMsgInfo_new"
  by (cases m) (simp add: CIMMsgInfo_Clear_def CIMMsgInfo_new_def)

lemma CIMMsgInfo_MergeFrom_new: "CIMMsgInfo_MergeFrom CIMMsgInfo_new src = src"
  by (cases src) (simp add: CIMMsgInfo_new_def CIMMsgInfo_MergeFrom_def split del: if_split cong: if_cong)

lemma CIMMsgInfo_CopyFrom_id: "CIMMsgInfo_CopyFrom m src = src"
  by (simp add: CIMMsgInfo_CopyFrom_def CIMMsgInfo_Clear_new CIMMsgInfo_MergeFrom_new)

context wire begin

lemma CIMMsgInfo_size: "length (CIMMsgInfo_InternalSerialize R m) = CIMMsgInfo_ByteSizeLong R m"
  by (simp add: CIMMsgInfo_InternalSerialize_def CIMMsgInfo_ByteSizeLong_def piece_length split del: if_split cong: if_cong)

lemma CIMMsgInfo_parsed:
  assumes "CIMMsgInfo_valid R m"
  shows "parsed (CIMMsgInfo_switch R) CIMMsgInfo_unknown (CIMMsgInfo_InternalSerialize R m) CIMMsgInfo_new m"
  using assms
  by (cases m) (simp only: MsgInfo_defs CIMMsgInfo.select_convs,
    (rule parse_steps | simp add: CIMMsgInfo_switch_def tag_of_def)+)

lemma CIMMsgInfo_roundtrip:
  "CIMMsgInfo_valid R m \<Longrightarrow> CIMMsgInfo_ParseFromArray R (CIMMsgInfo_InternalSerialize R m) m0 = Some m"
  using parsed_all [OF CIMMsgInfo_parsed, of m]
  by (simp add: CIMMsgInfo_ParseFromArray_def CIMMsgInfo_Clear_new)

end

section \<open>CIMChannelInfo\<close>

record CIMChannelInfo =
  ChannelInfo_channel_name :: "byte list"
  ChannelInfo_channel_token :: "byte list"
  ChannelInfo_creator_id :: "u64"
  ChannelInfo_unknown :: "byte list"

definition CIMChannelInfo_new :: CIMChannelInfo where
  "CIMChannelInfo_new = \<lparr>ChannelInfo_channel_name = [], ChannelInfo_channel_token = [], ChannelInfo_creator_id = 0, ChannelInfo_unknown = []\<rparr>"

definition CIMChannelInfo_Clear :: "CIMChannelInfo \<Rightarrow> CIMChannelInfo" where
  "CIMChannelInfo_Clear m = m\<lparr>ChannelInfo_channel_name := [], ChannelInfo_channel_token := [], ChannelInfo_creator_id := 0, ChannelInfo_unknown := []\<rparr>"

definition CIMChannelInfo_unknown :: "byte list \<Rightarrow> CIMChannelInfo \<Rightarrow> CIMChannelInfo" where
  "CIMChannelInfo_unknown raw m = m\<lparr>ChannelInfo_unknown := ChannelInfo_unknown m @ raw\<rparr>"

definition CIMChannelInfo_switch :: "pb_runtime \<Rightarrow> u32 \<Rightarrow> byte list \<Rightarrow> CIMChannelInfo \<Rightarrow> CIMChannelInfo field_result" where
  "CIMChannelInfo_switch R tag p m =
     (let field = drop_bit 3 tag; low = (ucast tag :: byte) in
      if field = 1 then
        if low = 10 then
          (case InlineGreedyStringParser R p of None \<Rightarrow> Failure | Some (s, q) \<Rightarrow>
            if VerifyUTF8 R s then Continue (m\<lparr>ChannelInfo_channel_name := s\<rparr>) q else Failure)
        else Unusual
      else if field = 2 then
        if low = 18 then
          (case InlineGreedyStringParser R p of None \<Rightarrow> Failure | Some (s, q) \<Rightarrow>
            if VerifyUTF8 R s then Continue (m\<lparr>ChannelInfo_channel_token := s\<rparr>) q else Failure)
        else Unusual
      else if field = 3 then
        if low = 24 then
          (case ReadVarint64 R p of None \<Rightarrow> Failure | Some (v, q) \<Rightarrow> Continue (m\<lparr>ChannelInfo_creator_id := v\<rparr>) q)
        else Unusual
      else Unusual)"

definition CIMChannelInfo_ParseFromArray :: "pb_runtime \<Rightarrow> byte list \<Rightarrow> CIMChannelInfo \<Rightarrow> CIMChannelInfo option" where
  "CIMChannelInfo_ParseFromArray R bs m = parse_all R (CIMChannelInfo_switch R) CIMChannelInfo_unknown bs (CIMChannelInfo_Clear m)"

definition CIMChannelInfo_InternalSerialize :: "pb_runtime \<Rightarrow> CIMChannelInfo \<Rightarrow> byte list" where
  "CIMChannelInfo_InternalSerialize R m =
     (if length (ChannelInfo_channel_name m) > 0 then WriteLengthDelimited R 1 (ChannelInfo_channel_name m) else []) @
     (if length (ChannelInfo_channel_token m) > 0 then WriteLengthDelimited R 2 (ChannelInfo_channel_token m) else []) @
     (if ChannelInfo_creator_id m \<noteq> 0 then WriteUInt64 R 3 (ChannelInfo_creator_id m) else []) @
     ChannelInfo_unknown m"

definition CIMChannelInfo_ByteSizeLong :: "pb_runtime \<Rightarrow> CIMChannelInfo \<Rightarrow> nat" where
  "CIMChannelInfo_ByteSizeLong R m =
     (if length (ChannelInfo_channel_name m) > 0 then 1 + LengthDelimitedSize R (length (ChannelInfo_channel_name m)) else 0) +
     (if length (ChannelInfo_channel_token m) > 0 then 1 + LengthDelimitedSize R (length (ChannelInfo_channel_token m)) else 0) +
     (if ChannelInfo_creator_id m \<noteq> 0 then 1 + UInt64Size R (ChannelInfo_creator_id m) else 0) +
     length (ChannelInfo_unknown m)"

definition CIMChannelInfo_MergeFrom :: "CIMChannelInfo \<Rightarrow> CIMChannelInfo \<Rightarrow> CIMChannelInfo" where
  "CIMChannelInfo_MergeFrom m src =
     m\<lparr>ChannelInfo_unknown := ChannelInfo_unknown m @ ChannelInfo_unknown src,
       ChannelInfo_channel_name := (if length (ChannelInfo_channel_name src) > 0 then ChannelInfo_channel_name src else ChannelInfo_channel_name m),
       ChannelInfo_channel_token := (if length (ChannelInfo_channel_token src) > 0 then ChannelInfo_channel_token src else ChannelInfo_channel_token m),
       ChannelInfo_creator_id := (if ChannelInfo_creator_id src \<noteq> 0 then ChannelInfo_creator_id src else ChannelInfo_creator_id m)\<rparr>"

definition CIMChannelInfo_CopyFrom :: "CIMChannelInfo \<Rightarrow> CIMChannelInfo \<Rightarrow> CIMChannelInfo" where
  "CIMChannelInfo_CopyFrom m src = CIMChannelInfo_MergeFrom (CIMChannelInfo_Clear m) src"

text \<open>What a client builds: UTF-8 in the \<open>string\<close> fields, lengths an \<open>int\<close> holds, nothing unknown.\<close>

definition CIMChannelInfo_valid :: "pb_runtime \<Rightarrow> CIMChannelInfo \<Rightarrow> bool" where
  "CIMChannelInfo_valid R m \<longleftrightarrow>
     length (ChannelInfo_channel_name m) < 2 ^ 31 \<and> VerifyUTF8 R (ChannelInfo_channel_name m) \<and>
     length (ChannelInfo_channel_token m) < 2 ^ 31 \<and> VerifyUTF8 R (ChannelInfo_channel_token m) \<and>
     ChannelInfo_unknown m = []"

lemmas ChannelInfo_defs = CIMChannelInfo_new_def CIMChannelInfo_Clear_def CIMChannelInfo_unknown_def CIMChannelInfo_InternalSerialize_def CIMChannelInfo_ByteSizeLong_def CIMChannelInfo_valid_def

lemma CIMChannelInfo_Clear_new: "CIMChannelInfo_Clear m = CIMChannelInfo_new"
  by (cases m) (simp add: CIMChannelInfo_Clear_def CIMChannelInfo_new_def)

lemma CIMChannelInfo_MergeFrom_new: "CIMChannelInfo_MergeFrom CIMChannelInfo_new src = src"
  by (cases src) (simp add: CIMChannelInfo_new_def CIMChannelInfo_MergeFrom_def split del: if_split cong: if_cong)

lemma CIMChannelInfo_CopyFrom_id: "CIMChannelInfo_CopyFrom m src = src"
  by (simp add: CIMChannelInfo_CopyFrom_def CIMChannelInfo_Clear_new CIMChannelInfo_MergeFrom_new)

context wire begin

lemma CIMChannelInfo_size: "length (CIMChannelInfo_InternalSerialize R m) = CIMChannelInfo_ByteSizeLong R m"
  by (simp add: CIMChannelInfo_InternalSerialize_def CIMChannelInfo_ByteSizeLong_def piece_length split del: if_split cong: if_cong)

lemma CIMChannelInfo_parsed:
  assumes "CIMChannelInfo_valid R m"
  shows "parsed (CIMChannelInfo_switch R) CIMChannelInfo_unknown (CIMChannelInfo_InternalSerialize R m) CIMChannelInfo_new m"
  using assms
  by (cases m) (simp only: ChannelInfo_defs CIMChannelInfo.select_convs,
    (rule parse_steps | simp add: CIMChannelInfo_switch_def tag_of_def)+)

lemma CIMChannelInfo_roundtrip:
  "CIMChannelInfo_valid R m \<Longrightarrow> CIMChannelInfo_ParseFromArray R (CIMChannelInfo_InternalSerialize R m) m0 = Some m"
  using parsed_all [OF CIMChannelInfo_parsed, of m]
  by (simp add: CIMChannelInfo_ParseFromArray_def CIMChannelInfo_Clear_new)

end

end
