(* ===== verification/CimDef.thy ===== *)
theory CimDef
  imports PbDef
begin

text \<open>
  The SDK's shared types (\<open>cim/cim_def.h\<close>, \<open>cim_def.cpp\<close>): results, the 16-byte packet header, the
  configuration with its defaults, and \<open>MessageModel\<close>. Enumerators the SDK uses are taken from the
  generated \<open>CIM.Def.pb.h\<close>.
\<close>

section \<open>Constants\<close>

definition kProtocolVersion :: u16 where "kProtocolVersion = 1"

definition kUnknown :: int where "kUnknown = 0"
definition kSuccess :: int where "kSuccess = 1"
definition kError :: int where "kError = -1"

definition kDefaultGateSrvPort :: u16 where "kDefaultGateSrvPort = 8000"
definition kDefaultHttpSrvPort :: u16 where "kDefaultHttpSrvPort = 18080"

definition kLoginTimerOut :: u32 where "kLoginTimerOut = 10 * 1000"
definition kKeepAliveTimeSpan :: u32 where "kKeepAliveTimeSpan = 30 * 1000"
definition kKeepAliveTimeOut :: u32 where "kKeepAliveTimeOut = 90 * 1000"

definition kDefaultServerIp :: "byte list" where "kDefaultServerIp = ascii ''127.0.0.1''"
definition kDefaultAppDataDir :: "byte list" where "kDefaultAppDataDir = ascii ''data''"
definition kDefaultAppDataFilename :: "byte list" where "kDefaultAppDataFilename = ascii ''msg.db''"

definition kCIM_CID_LOGIN_AUTH_LOGOUT_REQ :: u32 where "kCIM_CID_LOGIN_AUTH_LOGOUT_REQ = 259"
definition kCIM_CID_LOGIN_AUTH_REQ :: u32 where "kCIM_CID_LOGIN_AUTH_REQ = 263"
definition kCIM_CID_LOGIN_AUTH_RSP :: u32 where "kCIM_CID_LOGIN_AUTH_RSP = 264"
definition kCIM_CID_MSG_DATA :: u32 where "kCIM_CID_MSG_DATA = 769"
definition kCIM_ERR_SUCCESS :: u32 where "kCIM_ERR_SUCCESS = 200"
definition kCIM_ERR_INTERNAL_ERROR :: u32 where "kCIM_ERR_INTERNAL_ERROR = 201"
definition kCIM_CLIENT_TYPE_PC_WINDOWS :: u32 where "kCIM_CLIENT_TYPE_PC_WINDOWS = 5"
definition kCIM_MSG_TYPE_TIPS :: u32 where "kCIM_MSG_TYPE_TIPS = 8"
definition kCIM_MSG_TYPE_NOTIFACATION :: u32 where "kCIM_MSG_TYPE_NOTIFACATION = 9"

section \<open>Header and configuration\<close>

record IMHeader =
  hdr_len :: u32
  hdr_version :: u16
  hdr_flag :: u16
  hdr_service_id :: u16
  hdr_cmd :: u16
  hdr_seq :: u16
  hdr_reserved :: u16

definition sizeof_IMHeader :: nat where "sizeof_IMHeader = 16"

record ServerInfoConfig =
  cfg_ip :: "byte list"
  cfg_gatePort :: u16
  cfg_httpPort :: u16

record LoginConfig =
  cfg_login_time_out :: u32
  cfg_keep_alive_span :: u32
  cfg_keep_alive_time_out :: u32

record ChatKitConfig =
  cfg_serverInfo :: ServerInfoConfig
  cfg_app_data_dir :: "byte list"
  cfg_loginConfig :: LoginConfig
  cfg_log_level :: int

definition ChatKitConfig_new :: ChatKitConfig where
  "ChatKitConfig_new =
     \<lparr>cfg_serverInfo = \<lparr>cfg_ip = kDefaultServerIp, cfg_gatePort = kDefaultGateSrvPort,
                         cfg_httpPort = kDefaultHttpSrvPort\<rparr>,
      cfg_app_data_dir = kDefaultAppDataDir,
      cfg_loginConfig = \<lparr>cfg_login_time_out = kLoginTimerOut,
                         cfg_keep_alive_span = kKeepAliveTimeSpan,
                         cfg_keep_alive_time_out = kKeepAliveTimeOut\<rparr>,
      cfg_log_level = 2\<rparr>"

section \<open>MessageModel\<close>

text \<open>Enums have the underlying type \<open>int\<close>; the words are their bit patterns.\<close>

record MessageModel =
  mm_client_msg_id :: "byte list"
  mm_server_msg_id :: u64
  mm_msg_res_code :: u32
  mm_msg_feature :: u32
  mm_session_type :: u32
  mm_from_user_id :: u64
  mm_to_session_id :: u64
  mm_create_time :: u32
  mm_msg_type :: u32
  mm_msg_status :: u32
  mm_msg_data :: "byte list"
  mm_attach :: "byte list"
  mm_sender_client_type :: u32

definition MessageModel_new :: MessageModel where
  "MessageModel_new =
     \<lparr>mm_client_msg_id = [], mm_server_msg_id = 0, mm_msg_res_code = 0, mm_msg_feature = 0,
      mm_session_type = 0, mm_from_user_id = 0, mm_to_session_id = 0, mm_create_time = 0,
      mm_msg_type = 0, mm_msg_status = 0, mm_msg_data = [], mm_attach = [],
      mm_sender_client_type = 0\<rparr>"

definition MessageModel_of :: "CIMMsgInfo \<Rightarrow> MessageModel" where
  "MessageModel_of info =
     \<lparr>mm_client_msg_id = MsgInfo_client_msg_id info, mm_server_msg_id = MsgInfo_server_msg_id info,
      mm_msg_res_code = MsgInfo_msg_res_code info, mm_msg_feature = MsgInfo_msg_feature info,
      mm_session_type = MsgInfo_session_type info, mm_from_user_id = MsgInfo_from_user_id info,
      mm_to_session_id = scast (MsgInfo_msg_res_code info),
      mm_create_time = MsgInfo_create_time info, mm_msg_type = MsgInfo_msg_type info,
      mm_msg_status = MsgInfo_msg_status info, mm_msg_data = MsgInfo_msg_data info,
      mm_attach = MsgInfo_attach info, mm_sender_client_type = MsgInfo_sender_client_type info\<rparr>"

text \<open>The argument is what \<open>Client::getInstance()->GetUserId()\<close> returns.\<close>

definition IsMyMsg :: "u64 \<Rightarrow> MessageModel \<Rightarrow> bool" where
  "IsMyMsg GetUserId m \<longleftrightarrow> mm_from_user_id m = GetUserId"

definition IsSystemMsg :: "MessageModel \<Rightarrow> bool" where
  "IsSystemMsg m \<longleftrightarrow>
     mm_msg_type m = kCIM_MSG_TYPE_TIPS \<or> mm_msg_type m = kCIM_MSG_TYPE_NOTIFACATION"

text \<open>
  A message read from the server keeps every field but its conversation: \<open>to_session_id\<close> is set
  from the result code, so two messages of different conversations with the same result code land
  in the same one, and a negative code becomes an id near \<open>2 ^ 64\<close>.
\<close>

theorem to_session_id_lost:
  "MessageModel_of (info\<lparr>MsgInfo_to_session_id := a\<rparr>) = MessageModel_of (info\<lparr>MsgInfo_to_session_id := b\<rparr>) \<and>
   (mm_to_session_id (MessageModel_of info) = MsgInfo_to_session_id info \<longleftrightarrow>
    MsgInfo_to_session_id info = scast (MsgInfo_msg_res_code info)) \<and>
   mm_msg_data (MessageModel_of info) = MsgInfo_msg_data info \<and>
   mm_from_user_id (MessageModel_of info) = MsgInfo_from_user_id info"
  by (auto simp: MessageModel_of_def)

end
