(* ===== verification/PbLogin.thy ===== *)
theory PbLogin
  imports PbDef
begin

text \<open>
  The messages of \<open>cim/pb/CIM.Login.pb.cc\<close>, all of them: authentication by token and by password,
  logout, heartbeat. Definitions and lemmas per message as in theory \<open>PbDef\<close>.
\<close>

section \<open>CIMAuthTokenReq\<close>

record CIMAuthTokenReq =
  AuthTokenReq_user_id :: "u64"
  AuthTokenReq_nick_name :: "byte list"
  AuthTokenReq_user_token :: "byte list"
  AuthTokenReq_client_type :: "u32"
  AuthTokenReq_client_version :: "byte list"
  AuthTokenReq_unknown :: "byte list"

definition CIMAuthTokenReq_new :: CIMAuthTokenReq where
  "CIMAuthTokenReq_new = \<lparr>AuthTokenReq_user_id = 0, AuthTokenReq_nick_name = [], AuthTokenReq_user_token = [], AuthTokenReq_client_type = 0, AuthTokenReq_client_version = [], AuthTokenReq_unknown = []\<rparr>"

definition CIMAuthTokenReq_Clear :: "CIMAuthTokenReq \<Rightarrow> CIMAuthTokenReq" where
  "CIMAuthTokenReq_Clear m = m\<lparr>AuthTokenReq_user_id := 0, AuthTokenReq_nick_name := [], AuthTokenReq_user_token := [], AuthTokenReq_client_type := 0, AuthTokenReq_client_version := [], AuthTokenReq_unknown := []\<rparr>"

definition CIMAuthTokenReq_unknown :: "byte list \<Rightarrow> CIMAuthTokenReq \<Rightarrow> CIMAuthTokenReq" where
  "CIMAuthTokenReq_unknown raw m = m\<lparr>AuthTokenReq_unknown := AuthTokenReq_unknown m @ raw\<rparr>"

definition CIMAuthTokenReq_switch :: "pb_runtime \<Rightarrow> u32 \<Rightarrow> byte list \<Rightarrow> CIMAuthTokenReq \<Rightarrow> CIMAuthTokenReq field_result" where
  "CIMAuthTokenReq_switch R tag p m =
     (let field = drop_bit 3 tag; low = (ucast tag :: byte) in
      if field = 1 then
        if low = 8 then
          (case ReadVarint64 R p of None \<Rightarrow> Failure | Some (v, q) \<Rightarrow> Continue (m\<lparr>AuthTokenReq_user_id := v\<rparr>) q)
        else Unusual
      else if field = 2 then
        if low = 18 then
          (case InlineGreedyStringParser R p of None \<Rightarrow> Failure | Some (s, q) \<Rightarrow>
            if VerifyUTF8 R s then Continue (m\<lparr>AuthTokenReq_nick_name := s\<rparr>) q else Failure)
        else Unusual
      else if field = 3 then
        if low = 26 then
          (case InlineGreedyStringParser R p of None \<Rightarrow> Failure | Some (s, q) \<Rightarrow>
            if VerifyUTF8 R s then Continue (m\<lparr>AuthTokenReq_user_token := s\<rparr>) q else Failure)
        else Unusual
      else if field = 4 then
        if low = 32 then
          (case ReadVarint64 R p of None \<Rightarrow> Failure | Some (v, q) \<Rightarrow> Continue (m\<lparr>AuthTokenReq_client_type := ucast v\<rparr>) q)
        else Unusual
      else if field = 5 then
        if low = 42 then
          (case InlineGreedyStringParser R p of None \<Rightarrow> Failure | Some (s, q) \<Rightarrow>
            if VerifyUTF8 R s then Continue (m\<lparr>AuthTokenReq_client_version := s\<rparr>) q else Failure)
        else Unusual
      else Unusual)"

definition CIMAuthTokenReq_ParseFromArray :: "pb_runtime \<Rightarrow> byte list \<Rightarrow> CIMAuthTokenReq \<Rightarrow> CIMAuthTokenReq option" where
  "CIMAuthTokenReq_ParseFromArray R bs m = parse_all R (CIMAuthTokenReq_switch R) CIMAuthTokenReq_unknown bs (CIMAuthTokenReq_Clear m)"

definition CIMAuthTokenReq_InternalSerialize :: "pb_runtime \<Rightarrow> CIMAuthTokenReq \<Rightarrow> byte list" where
  "CIMAuthTokenReq_InternalSerialize R m =
     (if AuthTokenReq_user_id m \<noteq> 0 then WriteUInt64 R 1 (AuthTokenReq_user_id m) else []) @
     (if length (AuthTokenReq_nick_name m) > 0 then WriteLengthDelimited R 2 (AuthTokenReq_nick_name m) else []) @
     (if length (AuthTokenReq_user_token m) > 0 then WriteLengthDelimited R 3 (AuthTokenReq_user_token m) else []) @
     (if AuthTokenReq_client_type m \<noteq> 0 then WriteEnum R 4 (AuthTokenReq_client_type m) else []) @
     (if length (AuthTokenReq_client_version m) > 0 then WriteLengthDelimited R 5 (AuthTokenReq_client_version m) else []) @
     AuthTokenReq_unknown m"

definition CIMAuthTokenReq_ByteSizeLong :: "pb_runtime \<Rightarrow> CIMAuthTokenReq \<Rightarrow> nat" where
  "CIMAuthTokenReq_ByteSizeLong R m =
     (if length (AuthTokenReq_nick_name m) > 0 then 1 + LengthDelimitedSize R (length (AuthTokenReq_nick_name m)) else 0) +
     (if length (AuthTokenReq_user_token m) > 0 then 1 + LengthDelimitedSize R (length (AuthTokenReq_user_token m)) else 0) +
     (if length (AuthTokenReq_client_version m) > 0 then 1 + LengthDelimitedSize R (length (AuthTokenReq_client_version m)) else 0) +
     (if AuthTokenReq_user_id m \<noteq> 0 then 1 + UInt64Size R (AuthTokenReq_user_id m) else 0) +
     (if AuthTokenReq_client_type m \<noteq> 0 then 1 + EnumSize R (AuthTokenReq_client_type m) else 0) +
     length (AuthTokenReq_unknown m)"

definition CIMAuthTokenReq_MergeFrom :: "CIMAuthTokenReq \<Rightarrow> CIMAuthTokenReq \<Rightarrow> CIMAuthTokenReq" where
  "CIMAuthTokenReq_MergeFrom m src =
     m\<lparr>AuthTokenReq_unknown := AuthTokenReq_unknown m @ AuthTokenReq_unknown src,
       AuthTokenReq_nick_name := (if length (AuthTokenReq_nick_name src) > 0 then AuthTokenReq_nick_name src else AuthTokenReq_nick_name m),
       AuthTokenReq_user_token := (if length (AuthTokenReq_user_token src) > 0 then AuthTokenReq_user_token src else AuthTokenReq_user_token m),
       AuthTokenReq_client_version := (if length (AuthTokenReq_client_version src) > 0 then AuthTokenReq_client_version src else AuthTokenReq_client_version m),
       AuthTokenReq_user_id := (if AuthTokenReq_user_id src \<noteq> 0 then AuthTokenReq_user_id src else AuthTokenReq_user_id m),
       AuthTokenReq_client_type := (if AuthTokenReq_client_type src \<noteq> 0 then AuthTokenReq_client_type src else AuthTokenReq_client_type m)\<rparr>"

definition CIMAuthTokenReq_CopyFrom :: "CIMAuthTokenReq \<Rightarrow> CIMAuthTokenReq \<Rightarrow> CIMAuthTokenReq" where
  "CIMAuthTokenReq_CopyFrom m src = CIMAuthTokenReq_MergeFrom (CIMAuthTokenReq_Clear m) src"

text \<open>What a client builds: UTF-8 in the \<open>string\<close> fields, lengths an \<open>int\<close> holds, nothing unknown.\<close>

definition CIMAuthTokenReq_valid :: "pb_runtime \<Rightarrow> CIMAuthTokenReq \<Rightarrow> bool" where
  "CIMAuthTokenReq_valid R m \<longleftrightarrow>
     length (AuthTokenReq_nick_name m) < 2 ^ 31 \<and> VerifyUTF8 R (AuthTokenReq_nick_name m) \<and>
     length (AuthTokenReq_user_token m) < 2 ^ 31 \<and> VerifyUTF8 R (AuthTokenReq_user_token m) \<and>
     length (AuthTokenReq_client_version m) < 2 ^ 31 \<and> VerifyUTF8 R (AuthTokenReq_client_version m) \<and>
     AuthTokenReq_unknown m = []"

lemmas AuthTokenReq_defs = CIMAuthTokenReq_new_def CIMAuthTokenReq_Clear_def CIMAuthTokenReq_unknown_def CIMAuthTokenReq_InternalSerialize_def CIMAuthTokenReq_ByteSizeLong_def CIMAuthTokenReq_valid_def

lemma CIMAuthTokenReq_Clear_new: "CIMAuthTokenReq_Clear m = CIMAuthTokenReq_new"
  by (cases m) (simp add: CIMAuthTokenReq_Clear_def CIMAuthTokenReq_new_def)

lemma CIMAuthTokenReq_MergeFrom_new: "CIMAuthTokenReq_MergeFrom CIMAuthTokenReq_new src = src"
  by (cases src) (simp add: CIMAuthTokenReq_new_def CIMAuthTokenReq_MergeFrom_def split del: if_split cong: if_cong)

lemma CIMAuthTokenReq_CopyFrom_id: "CIMAuthTokenReq_CopyFrom m src = src"
  by (simp add: CIMAuthTokenReq_CopyFrom_def CIMAuthTokenReq_Clear_new CIMAuthTokenReq_MergeFrom_new)

context wire begin

lemma CIMAuthTokenReq_size: "length (CIMAuthTokenReq_InternalSerialize R m) = CIMAuthTokenReq_ByteSizeLong R m"
  by (simp add: CIMAuthTokenReq_InternalSerialize_def CIMAuthTokenReq_ByteSizeLong_def piece_length split del: if_split cong: if_cong)

lemma CIMAuthTokenReq_parsed:
  assumes "CIMAuthTokenReq_valid R m"
  shows "parsed (CIMAuthTokenReq_switch R) CIMAuthTokenReq_unknown (CIMAuthTokenReq_InternalSerialize R m) CIMAuthTokenReq_new m"
  using assms
  by (cases m) (simp only: AuthTokenReq_defs CIMAuthTokenReq.select_convs,
    (rule parse_steps | simp add: CIMAuthTokenReq_switch_def tag_of_def)+)

lemma CIMAuthTokenReq_roundtrip:
  "CIMAuthTokenReq_valid R m \<Longrightarrow> CIMAuthTokenReq_ParseFromArray R (CIMAuthTokenReq_InternalSerialize R m) m0 = Some m"
  using parsed_all [OF CIMAuthTokenReq_parsed, of m]
  by (simp add: CIMAuthTokenReq_ParseFromArray_def CIMAuthTokenReq_Clear_new)

end

section \<open>CIMAuthTokenRsp\<close>

record CIMAuthTokenRsp =
  AuthTokenRsp_server_time :: "u32"
  AuthTokenRsp_result_code :: "u32"
  AuthTokenRsp_result_string :: "byte list"
  AuthTokenRsp_user_info :: "CIMUserInfo option"
  AuthTokenRsp_unknown :: "byte list"

definition CIMAuthTokenRsp_new :: CIMAuthTokenRsp where
  "CIMAuthTokenRsp_new = \<lparr>AuthTokenRsp_server_time = 0, AuthTokenRsp_result_code = 0, AuthTokenRsp_result_string = [], AuthTokenRsp_user_info = None, AuthTokenRsp_unknown = []\<rparr>"

definition CIMAuthTokenRsp_Clear :: "CIMAuthTokenRsp \<Rightarrow> CIMAuthTokenRsp" where
  "CIMAuthTokenRsp_Clear m = m\<lparr>AuthTokenRsp_server_time := 0, AuthTokenRsp_result_code := 0, AuthTokenRsp_result_string := [], AuthTokenRsp_user_info := None, AuthTokenRsp_unknown := []\<rparr>"

definition CIMAuthTokenRsp_unknown :: "byte list \<Rightarrow> CIMAuthTokenRsp \<Rightarrow> CIMAuthTokenRsp" where
  "CIMAuthTokenRsp_unknown raw m = m\<lparr>AuthTokenRsp_unknown := AuthTokenRsp_unknown m @ raw\<rparr>"

definition CIMAuthTokenRsp_switch :: "pb_runtime \<Rightarrow> u32 \<Rightarrow> byte list \<Rightarrow> CIMAuthTokenRsp \<Rightarrow> CIMAuthTokenRsp field_result" where
  "CIMAuthTokenRsp_switch R tag p m =
     (let field = drop_bit 3 tag; low = (ucast tag :: byte) in
      if field = 1 then
        if low = 8 then
          (case ReadVarint32 R p of None \<Rightarrow> Failure | Some (v, q) \<Rightarrow> Continue (m\<lparr>AuthTokenRsp_server_time := v\<rparr>) q)
        else Unusual
      else if field = 2 then
        if low = 16 then
          (case ReadVarint64 R p of None \<Rightarrow> Failure | Some (v, q) \<Rightarrow> Continue (m\<lparr>AuthTokenRsp_result_code := ucast v\<rparr>) q)
        else Unusual
      else if field = 3 then
        if low = 26 then
          (case InlineGreedyStringParser R p of None \<Rightarrow> Failure | Some (s, q) \<Rightarrow>
            if VerifyUTF8 R s then Continue (m\<lparr>AuthTokenRsp_result_string := s\<rparr>) q else Failure)
        else Unusual
      else if field = 4 then
        if low = 34 then
          (case ParseMessage R (CIMUserInfo_switch R) CIMUserInfo_unknown p
              (case AuthTokenRsp_user_info m of None \<Rightarrow> CIMUserInfo_new | Some u \<Rightarrow> u) of
            None \<Rightarrow> Failure | Some (u, q) \<Rightarrow> Continue (m\<lparr>AuthTokenRsp_user_info := Some u\<rparr>) q)
        else Unusual
      else Unusual)"

definition CIMAuthTokenRsp_ParseFromArray :: "pb_runtime \<Rightarrow> byte list \<Rightarrow> CIMAuthTokenRsp \<Rightarrow> CIMAuthTokenRsp option" where
  "CIMAuthTokenRsp_ParseFromArray R bs m = parse_all R (CIMAuthTokenRsp_switch R) CIMAuthTokenRsp_unknown bs (CIMAuthTokenRsp_Clear m)"

definition CIMAuthTokenRsp_InternalSerialize :: "pb_runtime \<Rightarrow> CIMAuthTokenRsp \<Rightarrow> byte list" where
  "CIMAuthTokenRsp_InternalSerialize R m =
     (if AuthTokenRsp_server_time m \<noteq> 0 then WriteUInt32 R 1 (AuthTokenRsp_server_time m) else []) @
     (if AuthTokenRsp_result_code m \<noteq> 0 then WriteEnum R 2 (AuthTokenRsp_result_code m) else []) @
     (if length (AuthTokenRsp_result_string m) > 0 then WriteLengthDelimited R 3 (AuthTokenRsp_result_string m) else []) @
     (case AuthTokenRsp_user_info m of None \<Rightarrow> [] | Some u \<Rightarrow>
       WriteLengthDelimited R 4 (CIMUserInfo_InternalSerialize R u)) @
     AuthTokenRsp_unknown m"

definition CIMAuthTokenRsp_ByteSizeLong :: "pb_runtime \<Rightarrow> CIMAuthTokenRsp \<Rightarrow> nat" where
  "CIMAuthTokenRsp_ByteSizeLong R m =
     (if length (AuthTokenRsp_result_string m) > 0 then 1 + LengthDelimitedSize R (length (AuthTokenRsp_result_string m)) else 0) +
     (case AuthTokenRsp_user_info m of None \<Rightarrow> 0 | Some u \<Rightarrow>
       1 + LengthDelimitedSize R (CIMUserInfo_ByteSizeLong R u)) +
     (if AuthTokenRsp_server_time m \<noteq> 0 then 1 + UInt32Size R (AuthTokenRsp_server_time m) else 0) +
     (if AuthTokenRsp_result_code m \<noteq> 0 then 1 + EnumSize R (AuthTokenRsp_result_code m) else 0) +
     length (AuthTokenRsp_unknown m)"

definition CIMAuthTokenRsp_MergeFrom :: "CIMAuthTokenRsp \<Rightarrow> CIMAuthTokenRsp \<Rightarrow> CIMAuthTokenRsp" where
  "CIMAuthTokenRsp_MergeFrom m src =
     m\<lparr>AuthTokenRsp_unknown := AuthTokenRsp_unknown m @ AuthTokenRsp_unknown src,
       AuthTokenRsp_result_string := (if length (AuthTokenRsp_result_string src) > 0 then AuthTokenRsp_result_string src else AuthTokenRsp_result_string m),
       AuthTokenRsp_user_info := (case AuthTokenRsp_user_info src of None \<Rightarrow> AuthTokenRsp_user_info m | Some u \<Rightarrow>
         Some (CIMUserInfo_MergeFrom (case AuthTokenRsp_user_info m of None \<Rightarrow> CIMUserInfo_new | Some v \<Rightarrow> v) u)),
       AuthTokenRsp_server_time := (if AuthTokenRsp_server_time src \<noteq> 0 then AuthTokenRsp_server_time src else AuthTokenRsp_server_time m),
       AuthTokenRsp_result_code := (if AuthTokenRsp_result_code src \<noteq> 0 then AuthTokenRsp_result_code src else AuthTokenRsp_result_code m)\<rparr>"

definition CIMAuthTokenRsp_CopyFrom :: "CIMAuthTokenRsp \<Rightarrow> CIMAuthTokenRsp \<Rightarrow> CIMAuthTokenRsp" where
  "CIMAuthTokenRsp_CopyFrom m src = CIMAuthTokenRsp_MergeFrom (CIMAuthTokenRsp_Clear m) src"

text \<open>What a client builds: UTF-8 in the \<open>string\<close> fields, lengths an \<open>int\<close> holds, nothing unknown.\<close>

definition CIMAuthTokenRsp_valid :: "pb_runtime \<Rightarrow> CIMAuthTokenRsp \<Rightarrow> bool" where
  "CIMAuthTokenRsp_valid R m \<longleftrightarrow>
     length (AuthTokenRsp_result_string m) < 2 ^ 31 \<and> VerifyUTF8 R (AuthTokenRsp_result_string m) \<and>
     (case AuthTokenRsp_user_info m of None \<Rightarrow> True | Some u \<Rightarrow>
       CIMUserInfo_valid R u \<and> CIMUserInfo_ByteSizeLong R u < 2 ^ 31) \<and>
     AuthTokenRsp_unknown m = []"

lemmas AuthTokenRsp_defs = CIMAuthTokenRsp_new_def CIMAuthTokenRsp_Clear_def CIMAuthTokenRsp_unknown_def CIMAuthTokenRsp_InternalSerialize_def CIMAuthTokenRsp_ByteSizeLong_def CIMAuthTokenRsp_valid_def

lemma CIMAuthTokenRsp_Clear_new: "CIMAuthTokenRsp_Clear m = CIMAuthTokenRsp_new"
  by (cases m) (simp add: CIMAuthTokenRsp_Clear_def CIMAuthTokenRsp_new_def)

lemma CIMAuthTokenRsp_MergeFrom_new: "CIMAuthTokenRsp_MergeFrom CIMAuthTokenRsp_new src = src"
  by (cases src) (simp add: CIMAuthTokenRsp_new_def CIMAuthTokenRsp_MergeFrom_def CIMUserInfo_MergeFrom_new split: option.split split del: if_split cong: if_cong)

lemma CIMAuthTokenRsp_CopyFrom_id: "CIMAuthTokenRsp_CopyFrom m src = src"
  by (simp add: CIMAuthTokenRsp_CopyFrom_def CIMAuthTokenRsp_Clear_new CIMAuthTokenRsp_MergeFrom_new)

context wire begin

lemma CIMAuthTokenRsp_size: "length (CIMAuthTokenRsp_InternalSerialize R m) = CIMAuthTokenRsp_ByteSizeLong R m"
  by (simp add: CIMAuthTokenRsp_InternalSerialize_def CIMAuthTokenRsp_ByteSizeLong_def piece_length CIMUserInfo_size split: option.split split del: if_split cong: if_cong)

lemma CIMAuthTokenRsp_parsed:
  assumes "CIMAuthTokenRsp_valid R m"
  shows "parsed (CIMAuthTokenRsp_switch R) CIMAuthTokenRsp_unknown (CIMAuthTokenRsp_InternalSerialize R m) CIMAuthTokenRsp_new m"
  using assms
  by (cases m, cases "AuthTokenRsp_user_info m")
    (simp_all only: AuthTokenRsp_defs CIMAuthTokenRsp.select_convs option.case append_Nil,
     (rule parse_steps | simp add: CIMAuthTokenRsp_switch_def tag_of_def ParseMessage_def
        CIMUserInfo_size parsed_all [OF CIMUserInfo_parsed])+)

lemma CIMAuthTokenRsp_roundtrip:
  "CIMAuthTokenRsp_valid R m \<Longrightarrow> CIMAuthTokenRsp_ParseFromArray R (CIMAuthTokenRsp_InternalSerialize R m) m0 = Some m"
  using parsed_all [OF CIMAuthTokenRsp_parsed, of m]
  by (simp add: CIMAuthTokenRsp_ParseFromArray_def CIMAuthTokenRsp_Clear_new)

end

section \<open>CIMAuthReq\<close>

record CIMAuthReq =
  AuthReq_user_name :: "byte list"
  AuthReq_user_pwd :: "byte list"
  AuthReq_client_type :: "u32"
  AuthReq_client_version :: "byte list"
  AuthReq_unknown :: "byte list"

definition CIMAuthReq_new :: CIMAuthReq where
  "CIMAuthReq_new = \<lparr>AuthReq_user_name = [], AuthReq_user_pwd = [], AuthReq_client_type = 0, AuthReq_client_version = [], AuthReq_unknown = []\<rparr>"

definition CIMAuthReq_Clear :: "CIMAuthReq \<Rightarrow> CIMAuthReq" where
  "CIMAuthReq_Clear m = m\<lparr>AuthReq_user_name := [], AuthReq_user_pwd := [], AuthReq_client_type := 0, AuthReq_client_version := [], AuthReq_unknown := []\<rparr>"

definition CIMAuthReq_unknown :: "byte list \<Rightarrow> CIMAuthReq \<Rightarrow> CIMAuthReq" where
  "CIMAuthReq_unknown raw m = m\<lparr>AuthReq_unknown := AuthReq_unknown m @ raw\<rparr>"

definition CIMAuthReq_switch :: "pb_runtime \<Rightarrow> u32 \<Rightarrow> byte list \<Rightarrow> CIMAuthReq \<Rightarrow> CIMAuthReq field_result" where
  "CIMAuthReq_switch R tag p m =
     (let field = drop_bit 3 tag; low = (ucast tag :: byte) in
      if field = 1 then
        if low = 10 then
          (case InlineGreedyStringParser R p of None \<Rightarrow> Failure | Some (s, q) \<Rightarrow>
            if VerifyUTF8 R s then Continue (m\<lparr>AuthReq_user_name := s\<rparr>) q else Failure)
        else Unusual
      else if field = 2 then
        if low = 18 then
          (case InlineGreedyStringParser R p of None \<Rightarrow> Failure | Some (s, q) \<Rightarrow>
            if VerifyUTF8 R s then Continue (m\<lparr>AuthReq_user_pwd := s\<rparr>) q else Failure)
        else Unusual
      else if field = 3 then
        if low = 24 then
          (case ReadVarint64 R p of None \<Rightarrow> Failure | Some (v, q) \<Rightarrow> Continue (m\<lparr>AuthReq_client_type := ucast v\<rparr>) q)
        else Unusual
      else if field = 4 then
        if low = 34 then
          (case InlineGreedyStringParser R p of None \<Rightarrow> Failure | Some (s, q) \<Rightarrow>
            if VerifyUTF8 R s then Continue (m\<lparr>AuthReq_client_version := s\<rparr>) q else Failure)
        else Unusual
      else Unusual)"

definition CIMAuthReq_ParseFromArray :: "pb_runtime \<Rightarrow> byte list \<Rightarrow> CIMAuthReq \<Rightarrow> CIMAuthReq option" where
  "CIMAuthReq_ParseFromArray R bs m = parse_all R (CIMAuthReq_switch R) CIMAuthReq_unknown bs (CIMAuthReq_Clear m)"

definition CIMAuthReq_InternalSerialize :: "pb_runtime \<Rightarrow> CIMAuthReq \<Rightarrow> byte list" where
  "CIMAuthReq_InternalSerialize R m =
     (if length (AuthReq_user_name m) > 0 then WriteLengthDelimited R 1 (AuthReq_user_name m) else []) @
     (if length (AuthReq_user_pwd m) > 0 then WriteLengthDelimited R 2 (AuthReq_user_pwd m) else []) @
     (if AuthReq_client_type m \<noteq> 0 then WriteEnum R 3 (AuthReq_client_type m) else []) @
     (if length (AuthReq_client_version m) > 0 then WriteLengthDelimited R 4 (AuthReq_client_version m) else []) @
     AuthReq_unknown m"

definition CIMAuthReq_ByteSizeLong :: "pb_runtime \<Rightarrow> CIMAuthReq \<Rightarrow> nat" where
  "CIMAuthReq_ByteSizeLong R m =
     (if length (AuthReq_user_name m) > 0 then 1 + LengthDelimitedSize R (length (AuthReq_user_name m)) else 0) +
     (if length (AuthReq_user_pwd m) > 0 then 1 + LengthDelimitedSize R (length (AuthReq_user_pwd m)) else 0) +
     (if length (AuthReq_client_version m) > 0 then 1 + LengthDelimitedSize R (length (AuthReq_client_version m)) else 0) +
     (if AuthReq_client_type m \<noteq> 0 then 1 + EnumSize R (AuthReq_client_type m) else 0) +
     length (AuthReq_unknown m)"

definition CIMAuthReq_MergeFrom :: "CIMAuthReq \<Rightarrow> CIMAuthReq \<Rightarrow> CIMAuthReq" where
  "CIMAuthReq_MergeFrom m src =
     m\<lparr>AuthReq_unknown := AuthReq_unknown m @ AuthReq_unknown src,
       AuthReq_user_name := (if length (AuthReq_user_name src) > 0 then AuthReq_user_name src else AuthReq_user_name m),
       AuthReq_user_pwd := (if length (AuthReq_user_pwd src) > 0 then AuthReq_user_pwd src else AuthReq_user_pwd m),
       AuthReq_client_version := (if length (AuthReq_client_version src) > 0 then AuthReq_client_version src else AuthReq_client_version m),
       AuthReq_client_type := (if AuthReq_client_type src \<noteq> 0 then AuthReq_client_type src else AuthReq_client_type m)\<rparr>"

definition CIMAuthReq_CopyFrom :: "CIMAuthReq \<Rightarrow> CIMAuthReq \<Rightarrow> CIMAuthReq" where
  "CIMAuthReq_CopyFrom m src = CIMAuthReq_MergeFrom (CIMAuthReq_Clear m) src"

text \<open>What a client builds: UTF-8 in the \<open>string\<close> fields, lengths an \<open>int\<close> holds, nothing unknown.\<close>

definition CIMAuthReq_valid :: "pb_runtime \<Rightarrow> CIMAuthReq \<Rightarrow> bool" where
  "CIMAuthReq_valid R m \<longleftrightarrow>
     length (AuthReq_user_name m) < 2 ^ 31 \<and> VerifyUTF8 R (AuthReq_user_name m) \<and>
     length (AuthReq_user_pwd m) < 2 ^ 31 \<and> VerifyUTF8 R (AuthReq_user_pwd m) \<and>
     length (AuthReq_client_version m) < 2 ^ 31 \<and> VerifyUTF8 R (AuthReq_client_version m) \<and>
     AuthReq_unknown m = []"

lemmas AuthReq_defs = CIMAuthReq_new_def CIMAuthReq_Clear_def CIMAuthReq_unknown_def CIMAuthReq_InternalSerialize_def CIMAuthReq_ByteSizeLong_def CIMAuthReq_valid_def

lemma CIMAuthReq_Clear_new: "CIMAuthReq_Clear m = CIMAuthReq_new"
  by (cases m) (simp add: CIMAuthReq_Clear_def CIMAuthReq_new_def)

lemma CIMAuthReq_MergeFrom_new: "CIMAuthReq_MergeFrom CIMAuthReq_new src = src"
  by (cases src) (simp add: CIMAuthReq_new_def CIMAuthReq_MergeFrom_def split del: if_split cong: if_cong)

lemma CIMAuthReq_CopyFrom_id: "CIMAuthReq_CopyFrom m src = src"
  by (simp add: CIMAuthReq_CopyFrom_def CIMAuthReq_Clear_new CIMAuthReq_MergeFrom_new)

context wire begin

lemma CIMAuthReq_size: "length (CIMAuthReq_InternalSerialize R m) = CIMAuthReq_ByteSizeLong R m"
  by (simp add: CIMAuthReq_InternalSerialize_def CIMAuthReq_ByteSizeLong_def piece_length split del: if_split cong: if_cong)

lemma CIMAuthReq_parsed:
  assumes "CIMAuthReq_valid R m"
  shows "parsed (CIMAuthReq_switch R) CIMAuthReq_unknown (CIMAuthReq_InternalSerialize R m) CIMAuthReq_new m"
  using assms
  by (cases m) (simp only: AuthReq_defs CIMAuthReq.select_convs,
    (rule parse_steps | simp add: CIMAuthReq_switch_def tag_of_def)+)

lemma CIMAuthReq_roundtrip:
  "CIMAuthReq_valid R m \<Longrightarrow> CIMAuthReq_ParseFromArray R (CIMAuthReq_InternalSerialize R m) m0 = Some m"
  using parsed_all [OF CIMAuthReq_parsed, of m]
  by (simp add: CIMAuthReq_ParseFromArray_def CIMAuthReq_Clear_new)

end

section \<open>CIMAuthRsp\<close>

record CIMAuthRsp =
  AuthRsp_server_time :: "u32"
  AuthRsp_result_code :: "u32"
  AuthRsp_result_string :: "byte list"
  AuthRsp_user_info :: "CIMUserInfo option"
  AuthRsp_unknown :: "byte list"

definition CIMAuthRsp_new :: CIMAuthRsp where
  "CIMAuthRsp_new = \<lparr>AuthRsp_server_time = 0, AuthRsp_result_code = 0, AuthRsp_result_string = [], AuthRsp_user_info = None, AuthRsp_unknown = []\<rparr>"

definition CIMAuthRsp_Clear :: "CIMAuthRsp \<Rightarrow> CIMAuthRsp" where
  "CIMAuthRsp_Clear m = m\<lparr>AuthRsp_server_time := 0, AuthRsp_result_code := 0, AuthRsp_result_string := [], AuthRsp_user_info := None, AuthRsp_unknown := []\<rparr>"

definition CIMAuthRsp_unknown :: "byte list \<Rightarrow> CIMAuthRsp \<Rightarrow> CIMAuthRsp" where
  "CIMAuthRsp_unknown raw m = m\<lparr>AuthRsp_unknown := AuthRsp_unknown m @ raw\<rparr>"

definition CIMAuthRsp_switch :: "pb_runtime \<Rightarrow> u32 \<Rightarrow> byte list \<Rightarrow> CIMAuthRsp \<Rightarrow> CIMAuthRsp field_result" where
  "CIMAuthRsp_switch R tag p m =
     (let field = drop_bit 3 tag; low = (ucast tag :: byte) in
      if field = 1 then
        if low = 8 then
          (case ReadVarint32 R p of None \<Rightarrow> Failure | Some (v, q) \<Rightarrow> Continue (m\<lparr>AuthRsp_server_time := v\<rparr>) q)
        else Unusual
      else if field = 2 then
        if low = 16 then
          (case ReadVarint64 R p of None \<Rightarrow> Failure | Some (v, q) \<Rightarrow> Continue (m\<lparr>AuthRsp_result_code := ucast v\<rparr>) q)
        else Unusual
      else if field = 3 then
        if low = 26 then
          (case InlineGreedyStringParser R p of None \<Rightarrow> Failure | Some (s, q) \<Rightarrow>
            if VerifyUTF8 R s then Continue (m\<lparr>AuthRsp_result_string := s\<rparr>) q else Failure)
        else Unusual
      else if field = 4 then
        if low = 34 then
          (case ParseMessage R (CIMUserInfo_switch R) CIMUserInfo_unknown p
              (case AuthRsp_user_info m of None \<Rightarrow> CIMUserInfo_new | Some u \<Rightarrow> u) of
            None \<Rightarrow> Failure | Some (u, q) \<Rightarrow> Continue (m\<lparr>AuthRsp_user_info := Some u\<rparr>) q)
        else Unusual
      else Unusual)"

definition CIMAuthRsp_ParseFromArray :: "pb_runtime \<Rightarrow> byte list \<Rightarrow> CIMAuthRsp \<Rightarrow> CIMAuthRsp option" where
  "CIMAuthRsp_ParseFromArray R bs m = parse_all R (CIMAuthRsp_switch R) CIMAuthRsp_unknown bs (CIMAuthRsp_Clear m)"

definition CIMAuthRsp_InternalSerialize :: "pb_runtime \<Rightarrow> CIMAuthRsp \<Rightarrow> byte list" where
  "CIMAuthRsp_InternalSerialize R m =
     (if AuthRsp_server_time m \<noteq> 0 then WriteUInt32 R 1 (AuthRsp_server_time m) else []) @
     (if AuthRsp_result_code m \<noteq> 0 then WriteEnum R 2 (AuthRsp_result_code m) else []) @
     (if length (AuthRsp_result_string m) > 0 then WriteLengthDelimited R 3 (AuthRsp_result_string m) else []) @
     (case AuthRsp_user_info m of None \<Rightarrow> [] | Some u \<Rightarrow>
       WriteLengthDelimited R 4 (CIMUserInfo_InternalSerialize R u)) @
     AuthRsp_unknown m"

definition CIMAuthRsp_ByteSizeLong :: "pb_runtime \<Rightarrow> CIMAuthRsp \<Rightarrow> nat" where
  "CIMAuthRsp_ByteSizeLong R m =
     (if length (AuthRsp_result_string m) > 0 then 1 + LengthDelimitedSize R (length (AuthRsp_result_string m)) else 0) +
     (case AuthRsp_user_info m of None \<Rightarrow> 0 | Some u \<Rightarrow>
       1 + LengthDelimitedSize R (CIMUserInfo_ByteSizeLong R u)) +
     (if AuthRsp_server_time m \<noteq> 0 then 1 + UInt32Size R (AuthRsp_server_time m) else 0) +
     (if AuthRsp_result_code m \<noteq> 0 then 1 + EnumSize R (AuthRsp_result_code m) else 0) +
     length (AuthRsp_unknown m)"

definition CIMAuthRsp_MergeFrom :: "CIMAuthRsp \<Rightarrow> CIMAuthRsp \<Rightarrow> CIMAuthRsp" where
  "CIMAuthRsp_MergeFrom m src =
     m\<lparr>AuthRsp_unknown := AuthRsp_unknown m @ AuthRsp_unknown src,
       AuthRsp_result_string := (if length (AuthRsp_result_string src) > 0 then AuthRsp_result_string src else AuthRsp_result_string m),
       AuthRsp_user_info := (case AuthRsp_user_info src of None \<Rightarrow> AuthRsp_user_info m | Some u \<Rightarrow>
         Some (CIMUserInfo_MergeFrom (case AuthRsp_user_info m of None \<Rightarrow> CIMUserInfo_new | Some v \<Rightarrow> v) u)),
       AuthRsp_server_time := (if AuthRsp_server_time src \<noteq> 0 then AuthRsp_server_time src else AuthRsp_server_time m),
       AuthRsp_result_code := (if AuthRsp_result_code src \<noteq> 0 then AuthRsp_result_code src else AuthRsp_result_code m)\<rparr>"

definition CIMAuthRsp_CopyFrom :: "CIMAuthRsp \<Rightarrow> CIMAuthRsp \<Rightarrow> CIMAuthRsp" where
  "CIMAuthRsp_CopyFrom m src = CIMAuthRsp_MergeFrom (CIMAuthRsp_Clear m) src"

text \<open>What a client builds: UTF-8 in the \<open>string\<close> fields, lengths an \<open>int\<close> holds, nothing unknown.\<close>

definition CIMAuthRsp_valid :: "pb_runtime \<Rightarrow> CIMAuthRsp \<Rightarrow> bool" where
  "CIMAuthRsp_valid R m \<longleftrightarrow>
     length (AuthRsp_result_string m) < 2 ^ 31 \<and> VerifyUTF8 R (AuthRsp_result_string m) \<and>
     (case AuthRsp_user_info m of None \<Rightarrow> True | Some u \<Rightarrow>
       CIMUserInfo_valid R u \<and> CIMUserInfo_ByteSizeLong R u < 2 ^ 31) \<and>
     AuthRsp_unknown m = []"

lemmas AuthRsp_defs = CIMAuthRsp_new_def CIMAuthRsp_Clear_def CIMAuthRsp_unknown_def CIMAuthRsp_InternalSerialize_def CIMAuthRsp_ByteSizeLong_def CIMAuthRsp_valid_def

lemma CIMAuthRsp_Clear_new: "CIMAuthRsp_Clear m = CIMAuthRsp_new"
  by (cases m) (simp add: CIMAuthRsp_Clear_def CIMAuthRsp_new_def)

lemma CIMAuthRsp_MergeFrom_new: "CIMAuthRsp_MergeFrom CIMAuthRsp_new src = src"
  by (cases src) (simp add: CIMAuthRsp_new_def CIMAuthRsp_MergeFrom_def CIMUserInfo_MergeFrom_new split: option.split split del: if_split cong: if_cong)

lemma CIMAuthRsp_CopyFrom_id: "CIMAuthRsp_CopyFrom m src = src"
  by (simp add: CIMAuthRsp_CopyFrom_def CIMAuthRsp_Clear_new CIMAuthRsp_MergeFrom_new)

context wire begin

lemma CIMAuthRsp_size: "length (CIMAuthRsp_InternalSerialize R m) = CIMAuthRsp_ByteSizeLong R m"
  by (simp add: CIMAuthRsp_InternalSerialize_def CIMAuthRsp_ByteSizeLong_def piece_length CIMUserInfo_size split: option.split split del: if_split cong: if_cong)

text \<open>Whatever follows the message in the bytes is parsed as more of it.\<close>

lemma CIMAuthRsp_parsed_to:
  assumes "CIMAuthRsp_valid R m" and rest: "parsed_to (CIMAuthRsp_switch R) CIMAuthRsp_unknown rest m out"
  shows "parsed_to (CIMAuthRsp_switch R) CIMAuthRsp_unknown (CIMAuthRsp_InternalSerialize R m @ rest) CIMAuthRsp_new out"
  using assms
  by (cases m, cases "AuthRsp_user_info m")
    (simp_all only: AuthRsp_defs CIMAuthRsp.select_convs option.case append_Nil append_assoc,
     (rule parse_steps rest | simp add: CIMAuthRsp_switch_def tag_of_def ParseMessage_def
        CIMUserInfo_size parsed_all [OF CIMUserInfo_parsed])+)

lemma CIMAuthRsp_parsed:
  "CIMAuthRsp_valid R m \<Longrightarrow>
     parsed (CIMAuthRsp_switch R) CIMAuthRsp_unknown (CIMAuthRsp_InternalSerialize R m) CIMAuthRsp_new m"
  using CIMAuthRsp_parsed_to [OF _ parsed_Nil] by fastforce

lemma CIMAuthRsp_glued:
  assumes "CIMAuthRsp_valid R m"
  shows "CIMAuthRsp_ParseFromArray R (CIMAuthRsp_InternalSerialize R m @ 0 # q) m0 = None"
proof -
  have "CIMAuthRsp_switch R 0 q m = Unusual" by (simp add: CIMAuthRsp_switch_def)
  from parsed_to_all [OF CIMAuthRsp_parsed_to [OF assms parsed_stop [where switch = "CIMAuthRsp_switch R", OF this]]] show ?thesis
    by (simp add: CIMAuthRsp_ParseFromArray_def CIMAuthRsp_Clear_new)
qed

lemma CIMAuthRsp_roundtrip:
  "CIMAuthRsp_valid R m \<Longrightarrow> CIMAuthRsp_ParseFromArray R (CIMAuthRsp_InternalSerialize R m) m0 = Some m"
  using parsed_all [OF CIMAuthRsp_parsed, of m]
  by (simp add: CIMAuthRsp_ParseFromArray_def CIMAuthRsp_Clear_new)

end

section \<open>CIMLogoutReq\<close>

record CIMLogoutReq =
  LogoutReq_user_id :: "u64"
  LogoutReq_client_type :: "u32"
  LogoutReq_unknown :: "byte list"

definition CIMLogoutReq_new :: CIMLogoutReq where
  "CIMLogoutReq_new = \<lparr>LogoutReq_user_id = 0, LogoutReq_client_type = 0, LogoutReq_unknown = []\<rparr>"

definition CIMLogoutReq_Clear :: "CIMLogoutReq \<Rightarrow> CIMLogoutReq" where
  "CIMLogoutReq_Clear m = m\<lparr>LogoutReq_user_id := 0, LogoutReq_client_type := 0, LogoutReq_unknown := []\<rparr>"

definition CIMLogoutReq_unknown :: "byte list \<Rightarrow> CIMLogoutReq \<Rightarrow> CIMLogoutReq" where
  "CIMLogoutReq_unknown raw m = m\<lparr>LogoutReq_unknown := LogoutReq_unknown m @ raw\<rparr>"

definition CIMLogoutReq_switch :: "pb_runtime \<Rightarrow> u32 \<Rightarrow> byte list \<Rightarrow> CIMLogoutReq \<Rightarrow> CIMLogoutReq field_result" where
  "CIMLogoutReq_switch R tag p m =
     (let field = drop_bit 3 tag; low = (ucast tag :: byte) in
      if field = 1 then
        if low = 8 then
          (case ReadVarint64 R p of None \<Rightarrow> Failure | Some (v, q) \<Rightarrow> Continue (m\<lparr>LogoutReq_user_id := v\<rparr>) q)
        else Unusual
      else if field = 2 then
        if low = 16 then
          (case ReadVarint64 R p of None \<Rightarrow> Failure | Some (v, q) \<Rightarrow> Continue (m\<lparr>LogoutReq_client_type := ucast v\<rparr>) q)
        else Unusual
      else Unusual)"

definition CIMLogoutReq_ParseFromArray :: "pb_runtime \<Rightarrow> byte list \<Rightarrow> CIMLogoutReq \<Rightarrow> CIMLogoutReq option" where
  "CIMLogoutReq_ParseFromArray R bs m = parse_all R (CIMLogoutReq_switch R) CIMLogoutReq_unknown bs (CIMLogoutReq_Clear m)"

definition CIMLogoutReq_InternalSerialize :: "pb_runtime \<Rightarrow> CIMLogoutReq \<Rightarrow> byte list" where
  "CIMLogoutReq_InternalSerialize R m =
     (if LogoutReq_user_id m \<noteq> 0 then WriteUInt64 R 1 (LogoutReq_user_id m) else []) @
     (if LogoutReq_client_type m \<noteq> 0 then WriteEnum R 2 (LogoutReq_client_type m) else []) @
     LogoutReq_unknown m"

definition CIMLogoutReq_ByteSizeLong :: "pb_runtime \<Rightarrow> CIMLogoutReq \<Rightarrow> nat" where
  "CIMLogoutReq_ByteSizeLong R m =
     (if LogoutReq_user_id m \<noteq> 0 then 1 + UInt64Size R (LogoutReq_user_id m) else 0) +
     (if LogoutReq_client_type m \<noteq> 0 then 1 + EnumSize R (LogoutReq_client_type m) else 0) +
     length (LogoutReq_unknown m)"

definition CIMLogoutReq_MergeFrom :: "CIMLogoutReq \<Rightarrow> CIMLogoutReq \<Rightarrow> CIMLogoutReq" where
  "CIMLogoutReq_MergeFrom m src =
     m\<lparr>LogoutReq_unknown := LogoutReq_unknown m @ LogoutReq_unknown src,
       LogoutReq_user_id := (if LogoutReq_user_id src \<noteq> 0 then LogoutReq_user_id src else LogoutReq_user_id m),
       LogoutReq_client_type := (if LogoutReq_client_type src \<noteq> 0 then LogoutReq_client_type src else LogoutReq_client_type m)\<rparr>"

definition CIMLogoutReq_CopyFrom :: "CIMLogoutReq \<Rightarrow> CIMLogoutReq \<Rightarrow> CIMLogoutReq" where
  "CIMLogoutReq_CopyFrom m src = CIMLogoutReq_MergeFrom (CIMLogoutReq_Clear m) src"

text \<open>What a client builds: UTF-8 in the \<open>string\<close> fields, lengths an \<open>int\<close> holds, nothing unknown.\<close>

definition CIMLogoutReq_valid :: "pb_runtime \<Rightarrow> CIMLogoutReq \<Rightarrow> bool" where
  "CIMLogoutReq_valid R m \<longleftrightarrow>
     LogoutReq_unknown m = []"

lemmas LogoutReq_defs = CIMLogoutReq_new_def CIMLogoutReq_Clear_def CIMLogoutReq_unknown_def CIMLogoutReq_InternalSerialize_def CIMLogoutReq_ByteSizeLong_def CIMLogoutReq_valid_def

lemma CIMLogoutReq_Clear_new: "CIMLogoutReq_Clear m = CIMLogoutReq_new"
  by (cases m) (simp add: CIMLogoutReq_Clear_def CIMLogoutReq_new_def)

lemma CIMLogoutReq_MergeFrom_new: "CIMLogoutReq_MergeFrom CIMLogoutReq_new src = src"
  by (cases src) (simp add: CIMLogoutReq_new_def CIMLogoutReq_MergeFrom_def split del: if_split cong: if_cong)

lemma CIMLogoutReq_CopyFrom_id: "CIMLogoutReq_CopyFrom m src = src"
  by (simp add: CIMLogoutReq_CopyFrom_def CIMLogoutReq_Clear_new CIMLogoutReq_MergeFrom_new)

context wire begin

lemma CIMLogoutReq_size: "length (CIMLogoutReq_InternalSerialize R m) = CIMLogoutReq_ByteSizeLong R m"
  by (simp add: CIMLogoutReq_InternalSerialize_def CIMLogoutReq_ByteSizeLong_def piece_length split del: if_split cong: if_cong)

lemma CIMLogoutReq_parsed:
  assumes "CIMLogoutReq_valid R m"
  shows "parsed (CIMLogoutReq_switch R) CIMLogoutReq_unknown (CIMLogoutReq_InternalSerialize R m) CIMLogoutReq_new m"
  using assms
  by (cases m) (simp only: LogoutReq_defs CIMLogoutReq.select_convs,
    (rule parse_steps | simp add: CIMLogoutReq_switch_def tag_of_def)+)

lemma CIMLogoutReq_roundtrip:
  "CIMLogoutReq_valid R m \<Longrightarrow> CIMLogoutReq_ParseFromArray R (CIMLogoutReq_InternalSerialize R m) m0 = Some m"
  using parsed_all [OF CIMLogoutReq_parsed, of m]
  by (simp add: CIMLogoutReq_ParseFromArray_def CIMLogoutReq_Clear_new)

end

section \<open>CIMLogoutRsp\<close>

record CIMLogoutRsp =
  LogoutRsp_result_code :: "u32"
  LogoutRsp_unknown :: "byte list"

definition CIMLogoutRsp_new :: CIMLogoutRsp where
  "CIMLogoutRsp_new = \<lparr>LogoutRsp_result_code = 0, LogoutRsp_unknown = []\<rparr>"

definition CIMLogoutRsp_Clear :: "CIMLogoutRsp \<Rightarrow> CIMLogoutRsp" where
  "CIMLogoutRsp_Clear m = m\<lparr>LogoutRsp_result_code := 0, LogoutRsp_unknown := []\<rparr>"

definition CIMLogoutRsp_unknown :: "byte list \<Rightarrow> CIMLogoutRsp \<Rightarrow> CIMLogoutRsp" where
  "CIMLogoutRsp_unknown raw m = m\<lparr>LogoutRsp_unknown := LogoutRsp_unknown m @ raw\<rparr>"

definition CIMLogoutRsp_switch :: "pb_runtime \<Rightarrow> u32 \<Rightarrow> byte list \<Rightarrow> CIMLogoutRsp \<Rightarrow> CIMLogoutRsp field_result" where
  "CIMLogoutRsp_switch R tag p m =
     (let field = drop_bit 3 tag; low = (ucast tag :: byte) in
      if field = 1 then
        if low = 8 then
          (case ReadVarint32 R p of None \<Rightarrow> Failure | Some (v, q) \<Rightarrow> Continue (m\<lparr>LogoutRsp_result_code := v\<rparr>) q)
        else Unusual
      else Unusual)"

definition CIMLogoutRsp_ParseFromArray :: "pb_runtime \<Rightarrow> byte list \<Rightarrow> CIMLogoutRsp \<Rightarrow> CIMLogoutRsp option" where
  "CIMLogoutRsp_ParseFromArray R bs m = parse_all R (CIMLogoutRsp_switch R) CIMLogoutRsp_unknown bs (CIMLogoutRsp_Clear m)"

definition CIMLogoutRsp_InternalSerialize :: "pb_runtime \<Rightarrow> CIMLogoutRsp \<Rightarrow> byte list" where
  "CIMLogoutRsp_InternalSerialize R m =
     (if LogoutRsp_result_code m \<noteq> 0 then WriteUInt32 R 1 (LogoutRsp_result_code m) else []) @
     LogoutRsp_unknown m"

definition CIMLogoutRsp_ByteSizeLong :: "pb_runtime \<Rightarrow> CIMLogoutRsp \<Rightarrow> nat" where
  "CIMLogoutRsp_ByteSizeLong R m =
     (if LogoutRsp_result_code m \<noteq> 0 then 1 + UInt32Size R (LogoutRsp_result_code m) else 0) +
     length (LogoutRsp_unknown m)"

definition CIMLogoutRsp_MergeFrom :: "CIMLogoutRsp \<Rightarrow> CIMLogoutRsp \<Rightarrow> CIMLogoutRsp" where
  "CIMLogoutRsp_MergeFrom m src =
     m\<lparr>LogoutRsp_unknown := LogoutRsp_unknown m @ LogoutRsp_unknown src,
       LogoutRsp_result_code := (if LogoutRsp_result_code src \<noteq> 0 then LogoutRsp_result_code src else LogoutRsp_result_code m)\<rparr>"

definition CIMLogoutRsp_CopyFrom :: "CIMLogoutRsp \<Rightarrow> CIMLogoutRsp \<Rightarrow> CIMLogoutRsp" where
  "CIMLogoutRsp_CopyFrom m src = CIMLogoutRsp_MergeFrom (CIMLogoutRsp_Clear m) src"

text \<open>What a client builds: UTF-8 in the \<open>string\<close> fields, lengths an \<open>int\<close> holds, nothing unknown.\<close>

definition CIMLogoutRsp_valid :: "pb_runtime \<Rightarrow> CIMLogoutRsp \<Rightarrow> bool" where
  "CIMLogoutRsp_valid R m \<longleftrightarrow>
     LogoutRsp_unknown m = []"

lemmas LogoutRsp_defs = CIMLogoutRsp_new_def CIMLogoutRsp_Clear_def CIMLogoutRsp_unknown_def CIMLogoutRsp_InternalSerialize_def CIMLogoutRsp_ByteSizeLong_def CIMLogoutRsp_valid_def

lemma CIMLogoutRsp_Clear_new: "CIMLogoutRsp_Clear m = CIMLogoutRsp_new"
  by (cases m) (simp add: CIMLogoutRsp_Clear_def CIMLogoutRsp_new_def)

lemma CIMLogoutRsp_MergeFrom_new: "CIMLogoutRsp_MergeFrom CIMLogoutRsp_new src = src"
  by (cases src) (simp add: CIMLogoutRsp_new_def CIMLogoutRsp_MergeFrom_def split del: if_split cong: if_cong)

lemma CIMLogoutRsp_CopyFrom_id: "CIMLogoutRsp_CopyFrom m src = src"
  by (simp add: CIMLogoutRsp_CopyFrom_def CIMLogoutRsp_Clear_new CIMLogoutRsp_MergeFrom_new)

context wire begin

lemma CIMLogoutRsp_size: "length (CIMLogoutRsp_InternalSerialize R m) = CIMLogoutRsp_ByteSizeLong R m"
  by (simp add: CIMLogoutRsp_InternalSerialize_def CIMLogoutRsp_ByteSizeLong_def piece_length split del: if_split cong: if_cong)

lemma CIMLogoutRsp_parsed:
  assumes "CIMLogoutRsp_valid R m"
  shows "parsed (CIMLogoutRsp_switch R) CIMLogoutRsp_unknown (CIMLogoutRsp_InternalSerialize R m) CIMLogoutRsp_new m"
  using assms
  by (cases m) (simp only: LogoutRsp_defs CIMLogoutRsp.select_convs,
    (rule parse_steps | simp add: CIMLogoutRsp_switch_def tag_of_def)+)

lemma CIMLogoutRsp_roundtrip:
  "CIMLogoutRsp_valid R m \<Longrightarrow> CIMLogoutRsp_ParseFromArray R (CIMLogoutRsp_InternalSerialize R m) m0 = Some m"
  using parsed_all [OF CIMLogoutRsp_parsed, of m]
  by (simp add: CIMLogoutRsp_ParseFromArray_def CIMLogoutRsp_Clear_new)

end

section \<open>CIMHeartBeat\<close>

record CIMHeartBeat =
  HeartBeat_unknown :: "byte list"

definition CIMHeartBeat_new :: CIMHeartBeat where
  "CIMHeartBeat_new = \<lparr>HeartBeat_unknown = []\<rparr>"

definition CIMHeartBeat_Clear :: "CIMHeartBeat \<Rightarrow> CIMHeartBeat" where
  "CIMHeartBeat_Clear m = m\<lparr>HeartBeat_unknown := []\<rparr>"

definition CIMHeartBeat_unknown :: "byte list \<Rightarrow> CIMHeartBeat \<Rightarrow> CIMHeartBeat" where
  "CIMHeartBeat_unknown raw m = m\<lparr>HeartBeat_unknown := HeartBeat_unknown m @ raw\<rparr>"

definition CIMHeartBeat_switch :: "pb_runtime \<Rightarrow> u32 \<Rightarrow> byte list \<Rightarrow> CIMHeartBeat \<Rightarrow> CIMHeartBeat field_result" where
  "CIMHeartBeat_switch R tag p m = Unusual"

definition CIMHeartBeat_ParseFromArray :: "pb_runtime \<Rightarrow> byte list \<Rightarrow> CIMHeartBeat \<Rightarrow> CIMHeartBeat option" where
  "CIMHeartBeat_ParseFromArray R bs m = parse_all R (CIMHeartBeat_switch R) CIMHeartBeat_unknown bs (CIMHeartBeat_Clear m)"

definition CIMHeartBeat_InternalSerialize :: "pb_runtime \<Rightarrow> CIMHeartBeat \<Rightarrow> byte list" where
  "CIMHeartBeat_InternalSerialize R m =
     HeartBeat_unknown m"

definition CIMHeartBeat_ByteSizeLong :: "pb_runtime \<Rightarrow> CIMHeartBeat \<Rightarrow> nat" where
  "CIMHeartBeat_ByteSizeLong R m =
     length (HeartBeat_unknown m)"

definition CIMHeartBeat_MergeFrom :: "CIMHeartBeat \<Rightarrow> CIMHeartBeat \<Rightarrow> CIMHeartBeat" where
  "CIMHeartBeat_MergeFrom m src =
     m\<lparr>HeartBeat_unknown := HeartBeat_unknown m @ HeartBeat_unknown src\<rparr>"

definition CIMHeartBeat_CopyFrom :: "CIMHeartBeat \<Rightarrow> CIMHeartBeat \<Rightarrow> CIMHeartBeat" where
  "CIMHeartBeat_CopyFrom m src = CIMHeartBeat_MergeFrom (CIMHeartBeat_Clear m) src"

text \<open>What a client builds: UTF-8 in the \<open>string\<close> fields, lengths an \<open>int\<close> holds, nothing unknown.\<close>

definition CIMHeartBeat_valid :: "pb_runtime \<Rightarrow> CIMHeartBeat \<Rightarrow> bool" where
  "CIMHeartBeat_valid R m \<longleftrightarrow>
     HeartBeat_unknown m = []"

lemmas HeartBeat_defs = CIMHeartBeat_new_def CIMHeartBeat_Clear_def CIMHeartBeat_unknown_def CIMHeartBeat_InternalSerialize_def CIMHeartBeat_ByteSizeLong_def CIMHeartBeat_valid_def

lemma CIMHeartBeat_Clear_new: "CIMHeartBeat_Clear m = CIMHeartBeat_new"
  by (cases m) (simp add: CIMHeartBeat_Clear_def CIMHeartBeat_new_def)

lemma CIMHeartBeat_MergeFrom_new: "CIMHeartBeat_MergeFrom CIMHeartBeat_new src = src"
  by (cases src) (simp add: CIMHeartBeat_new_def CIMHeartBeat_MergeFrom_def split del: if_split cong: if_cong)

lemma CIMHeartBeat_CopyFrom_id: "CIMHeartBeat_CopyFrom m src = src"
  by (simp add: CIMHeartBeat_CopyFrom_def CIMHeartBeat_Clear_new CIMHeartBeat_MergeFrom_new)

context wire begin

lemma CIMHeartBeat_size: "length (CIMHeartBeat_InternalSerialize R m) = CIMHeartBeat_ByteSizeLong R m"
  by (simp add: CIMHeartBeat_InternalSerialize_def CIMHeartBeat_ByteSizeLong_def piece_length split del: if_split cong: if_cong)

lemma CIMHeartBeat_parsed:
  assumes "CIMHeartBeat_valid R m"
  shows "parsed (CIMHeartBeat_switch R) CIMHeartBeat_unknown (CIMHeartBeat_InternalSerialize R m) CIMHeartBeat_new m"
  using assms
  by (cases m) (simp only: HeartBeat_defs CIMHeartBeat.select_convs,
    (rule parse_steps | simp add: CIMHeartBeat_switch_def tag_of_def)+)

lemma CIMHeartBeat_roundtrip:
  "CIMHeartBeat_valid R m \<Longrightarrow> CIMHeartBeat_ParseFromArray R (CIMHeartBeat_InternalSerialize R m) m0 = Some m"
  using parsed_all [OF CIMHeartBeat_parsed, of m]
  by (simp add: CIMHeartBeat_ParseFromArray_def CIMHeartBeat_Clear_new)

end

end
