(* ===== verification/PbMessage.thy ===== *)
theory PbMessage
  imports WireFormat
begin

text \<open>
  The chat messages of \<open>cim/pb/CIM.Message.pb.cc\<close> without a repeated field. Definitions and lemmas
  per message as in theory \<open>PbDef\<close>.
\<close>

section \<open>CIMMsgData\<close>

record CIMMsgData =
  MsgData_from_user_id :: "u64"
  MsgData_from_nick_name :: "byte list"
  MsgData_to_session_id :: "u64"
  MsgData_client_msg_id :: "byte list"
  MsgData_server_msg_id :: "u64"
  MsgData_create_time :: "u32"
  MsgData_msg_type :: "u32"
  MsgData_session_type :: "u32"
  MsgData_msg_data :: "byte list"
  MsgData_unknown :: "byte list"

definition CIMMsgData_new :: CIMMsgData where
  "CIMMsgData_new = \<lparr>MsgData_from_user_id = 0, MsgData_from_nick_name = [], MsgData_to_session_id = 0, MsgData_client_msg_id = [], MsgData_server_msg_id = 0, MsgData_create_time = 0, MsgData_msg_type = 0, MsgData_session_type = 0, MsgData_msg_data = [], MsgData_unknown = []\<rparr>"

definition CIMMsgData_Clear :: "CIMMsgData \<Rightarrow> CIMMsgData" where
  "CIMMsgData_Clear m = m\<lparr>MsgData_from_user_id := 0, MsgData_from_nick_name := [], MsgData_to_session_id := 0, MsgData_client_msg_id := [], MsgData_server_msg_id := 0, MsgData_create_time := 0, MsgData_msg_type := 0, MsgData_session_type := 0, MsgData_msg_data := [], MsgData_unknown := []\<rparr>"

definition CIMMsgData_unknown :: "byte list \<Rightarrow> CIMMsgData \<Rightarrow> CIMMsgData" where
  "CIMMsgData_unknown raw m = m\<lparr>MsgData_unknown := MsgData_unknown m @ raw\<rparr>"

definition CIMMsgData_switch :: "pb_runtime \<Rightarrow> u32 \<Rightarrow> byte list \<Rightarrow> CIMMsgData \<Rightarrow> CIMMsgData field_result" where
  "CIMMsgData_switch R tag p m =
     (let field = drop_bit 3 tag; low = (ucast tag :: byte) in
      if field = 1 then
        if low = 8 then
          (case ReadVarint64 R p of None \<Rightarrow> Failure | Some (v, q) \<Rightarrow> Continue (m\<lparr>MsgData_from_user_id := v\<rparr>) q)
        else Unusual
      else if field = 2 then
        if low = 18 then
          (case InlineGreedyStringParser R p of None \<Rightarrow> Failure | Some (s, q) \<Rightarrow>
            if VerifyUTF8 R s then Continue (m\<lparr>MsgData_from_nick_name := s\<rparr>) q else Failure)
        else Unusual
      else if field = 3 then
        if low = 24 then
          (case ReadVarint64 R p of None \<Rightarrow> Failure | Some (v, q) \<Rightarrow> Continue (m\<lparr>MsgData_to_session_id := v\<rparr>) q)
        else Unusual
      else if field = 4 then
        if low = 34 then
          (case InlineGreedyStringParser R p of None \<Rightarrow> Failure | Some (s, q) \<Rightarrow>
            if VerifyUTF8 R s then Continue (m\<lparr>MsgData_client_msg_id := s\<rparr>) q else Failure)
        else Unusual
      else if field = 5 then
        if low = 40 then
          (case ReadVarint64 R p of None \<Rightarrow> Failure | Some (v, q) \<Rightarrow> Continue (m\<lparr>MsgData_server_msg_id := v\<rparr>) q)
        else Unusual
      else if field = 6 then
        if low = 48 then
          (case ReadVarint64 R p of None \<Rightarrow> Failure | Some (v, q) \<Rightarrow> Continue (m\<lparr>MsgData_create_time := ucast v\<rparr>) q)
        else Unusual
      else if field = 7 then
        if low = 56 then
          (case ReadVarint64 R p of None \<Rightarrow> Failure | Some (v, q) \<Rightarrow> Continue (m\<lparr>MsgData_msg_type := ucast v\<rparr>) q)
        else Unusual
      else if field = 8 then
        if low = 64 then
          (case ReadVarint64 R p of None \<Rightarrow> Failure | Some (v, q) \<Rightarrow> Continue (m\<lparr>MsgData_session_type := ucast v\<rparr>) q)
        else Unusual
      else if field = 9 then
        if low = 74 then
          (case InlineGreedyStringParser R p of None \<Rightarrow> Failure | Some (s, q) \<Rightarrow> Continue (m\<lparr>MsgData_msg_data := s\<rparr>) q)
        else Unusual
      else Unusual)"

definition CIMMsgData_ParseFromArray :: "pb_runtime \<Rightarrow> byte list \<Rightarrow> CIMMsgData \<Rightarrow> CIMMsgData option" where
  "CIMMsgData_ParseFromArray R bs m = parse_all R (CIMMsgData_switch R) CIMMsgData_unknown bs (CIMMsgData_Clear m)"

definition CIMMsgData_InternalSerialize :: "pb_runtime \<Rightarrow> CIMMsgData \<Rightarrow> byte list" where
  "CIMMsgData_InternalSerialize R m =
     (if MsgData_from_user_id m \<noteq> 0 then WriteUInt64 R 1 (MsgData_from_user_id m) else []) @
     (if length (MsgData_from_nick_name m) > 0 then WriteLengthDelimited R 2 (MsgData_from_nick_name m) else []) @
     (if MsgData_to_session_id m \<noteq> 0 then WriteUInt64 R 3 (MsgData_to_session_id m) else []) @
     (if length (MsgData_client_msg_id m) > 0 then WriteLengthDelimited R 4 (MsgData_client_msg_id m) else []) @
     (if MsgData_server_msg_id m \<noteq> 0 then WriteUInt64 R 5 (MsgData_server_msg_id m) else []) @
     (if MsgData_create_time m \<noteq> 0 then WriteInt32 R 6 (MsgData_create_time m) else []) @
     (if MsgData_msg_type m \<noteq> 0 then WriteEnum R 7 (MsgData_msg_type m) else []) @
     (if MsgData_session_type m \<noteq> 0 then WriteEnum R 8 (MsgData_session_type m) else []) @
     (if length (MsgData_msg_data m) > 0 then WriteLengthDelimited R 9 (MsgData_msg_data m) else []) @
     MsgData_unknown m"

definition CIMMsgData_ByteSizeLong :: "pb_runtime \<Rightarrow> CIMMsgData \<Rightarrow> nat" where
  "CIMMsgData_ByteSizeLong R m =
     (if length (MsgData_from_nick_name m) > 0 then 1 + LengthDelimitedSize R (length (MsgData_from_nick_name m)) else 0) +
     (if length (MsgData_client_msg_id m) > 0 then 1 + LengthDelimitedSize R (length (MsgData_client_msg_id m)) else 0) +
     (if length (MsgData_msg_data m) > 0 then 1 + LengthDelimitedSize R (length (MsgData_msg_data m)) else 0) +
     (if MsgData_from_user_id m \<noteq> 0 then 1 + UInt64Size R (MsgData_from_user_id m) else 0) +
     (if MsgData_to_session_id m \<noteq> 0 then 1 + UInt64Size R (MsgData_to_session_id m) else 0) +
     (if MsgData_server_msg_id m \<noteq> 0 then 1 + UInt64Size R (MsgData_server_msg_id m) else 0) +
     (if MsgData_create_time m \<noteq> 0 then 1 + Int32Size R (MsgData_create_time m) else 0) +
     (if MsgData_msg_type m \<noteq> 0 then 1 + EnumSize R (MsgData_msg_type m) else 0) +
     (if MsgData_session_type m \<noteq> 0 then 1 + EnumSize R (MsgData_session_type m) else 0) +
     length (MsgData_unknown m)"

definition CIMMsgData_MergeFrom :: "CIMMsgData \<Rightarrow> CIMMsgData \<Rightarrow> CIMMsgData" where
  "CIMMsgData_MergeFrom m src =
     m\<lparr>MsgData_unknown := MsgData_unknown m @ MsgData_unknown src,
       MsgData_from_nick_name := (if length (MsgData_from_nick_name src) > 0 then MsgData_from_nick_name src else MsgData_from_nick_name m),
       MsgData_client_msg_id := (if length (MsgData_client_msg_id src) > 0 then MsgData_client_msg_id src else MsgData_client_msg_id m),
       MsgData_msg_data := (if length (MsgData_msg_data src) > 0 then MsgData_msg_data src else MsgData_msg_data m),
       MsgData_from_user_id := (if MsgData_from_user_id src \<noteq> 0 then MsgData_from_user_id src else MsgData_from_user_id m),
       MsgData_to_session_id := (if MsgData_to_session_id src \<noteq> 0 then MsgData_to_session_id src else MsgData_to_session_id m),
       MsgData_server_msg_id := (if MsgData_server_msg_id src \<noteq> 0 then MsgData_server_msg_id src else MsgData_server_msg_id m),
       MsgData_create_time := (if MsgData_create_time src \<noteq> 0 then MsgData_create_time src else MsgData_create_time m),
       MsgData_msg_type := (if MsgData_msg_type src \<noteq> 0 then MsgData_msg_type src else MsgData_msg_type m),
       MsgData_session_type := (if MsgData_session_type src \<noteq> 0 then MsgData_session_type src else MsgData_session_type m)\<rparr>"

definition CIMMsgData_CopyFrom :: "CIMMsgData \<Rightarrow> CIMMsgData \<Rightarrow> CIMMsgData" where
  "CIMMsgData_CopyFrom m src = CIMMsgData_MergeFrom (CIMMsgData_Clear m) src"

text \<open>What a client builds: UTF-8 in the \<open>string\<close> fields, lengths an \<open>int\<close> holds, nothing unknown.\<close>

definition CIMMsgData_valid :: "pb_runtime \<Rightarrow> CIMMsgData \<Rightarrow> bool" where
  "CIMMsgData_valid R m \<longleftrightarrow>
     length (MsgData_from_nick_name m) < 2 ^ 31 \<and> VerifyUTF8 R (MsgData_from_nick_name m) \<and>
     length (MsgData_client_msg_id m) < 2 ^ 31 \<and> VerifyUTF8 R (MsgData_client_msg_id m) \<and>
     length (MsgData_msg_data m) < 2 ^ 31 \<and>
     MsgData_unknown m = []"

lemmas MsgData_defs = CIMMsgData_new_def CIMMsgData_Clear_def CIMMsgData_unknown_def CIMMsgData_InternalSerialize_def CIMMsgData_ByteSizeLong_def CIMMsgData_valid_def

lemma CIMMsgData_Clear_new: "CIMMsgData_Clear m = CIMMsgData_new"
  by (cases m) (simp add: CIMMsgData_Clear_def CIMMsgData_new_def)

lemma CIMMsgData_MergeFrom_new: "CIMMsgData_MergeFrom CIMMsgData_new src = src"
  by (cases src) (simp add: CIMMsgData_new_def CIMMsgData_MergeFrom_def split del: if_split cong: if_cong)

lemma CIMMsgData_CopyFrom_id: "CIMMsgData_CopyFrom m src = src"
  by (simp add: CIMMsgData_CopyFrom_def CIMMsgData_Clear_new CIMMsgData_MergeFrom_new)

context wire begin

lemma CIMMsgData_size: "length (CIMMsgData_InternalSerialize R m) = CIMMsgData_ByteSizeLong R m"
  by (simp add: CIMMsgData_InternalSerialize_def CIMMsgData_ByteSizeLong_def piece_length split del: if_split cong: if_cong)

lemma CIMMsgData_parsed:
  assumes "CIMMsgData_valid R m"
  shows "parsed (CIMMsgData_switch R) CIMMsgData_unknown (CIMMsgData_InternalSerialize R m) CIMMsgData_new m"
  using assms
  by (cases m) (simp only: MsgData_defs CIMMsgData.select_convs,
    (rule parse_steps | simp add: CIMMsgData_switch_def tag_of_def)+)

lemma CIMMsgData_roundtrip:
  "CIMMsgData_valid R m \<Longrightarrow> CIMMsgData_ParseFromArray R (CIMMsgData_InternalSerialize R m) m0 = Some m"
  using parsed_all [OF CIMMsgData_parsed, of m]
  by (simp add: CIMMsgData_ParseFromArray_def CIMMsgData_Clear_new)

end

section \<open>CIMMsgDataAck\<close>

record CIMMsgDataAck =
  MsgDataAck_from_user_id :: "u64"
  MsgDataAck_to_session_id :: "u64"
  MsgDataAck_client_msg_id :: "byte list"
  MsgDataAck_server_msg_id :: "u64"
  MsgDataAck_res_code :: "u32"
  MsgDataAck_session_type :: "u32"
  MsgDataAck_create_time :: "u32"
  MsgDataAck_unknown :: "byte list"

definition CIMMsgDataAck_new :: CIMMsgDataAck where
  "CIMMsgDataAck_new = \<lparr>MsgDataAck_from_user_id = 0, MsgDataAck_to_session_id = 0, MsgDataAck_client_msg_id = [], MsgDataAck_server_msg_id = 0, MsgDataAck_res_code = 0, MsgDataAck_session_type = 0, MsgDataAck_create_time = 0, MsgDataAck_unknown = []\<rparr>"

definition CIMMsgDataAck_Clear :: "CIMMsgDataAck \<Rightarrow> CIMMsgDataAck" where
  "CIMMsgDataAck_Clear m = m\<lparr>MsgDataAck_from_user_id := 0, MsgDataAck_to_session_id := 0, MsgDataAck_client_msg_id := [], MsgDataAck_server_msg_id := 0, MsgDataAck_res_code := 0, MsgDataAck_session_type := 0, MsgDataAck_create_time := 0, MsgDataAck_unknown := []\<rparr>"

definition CIMMsgDataAck_unknown :: "byte list \<Rightarrow> CIMMsgDataAck \<Rightarrow> CIMMsgDataAck" where
  "CIMMsgDataAck_unknown raw m = m\<lparr>MsgDataAck_unknown := MsgDataAck_unknown m @ raw\<rparr>"

definition CIMMsgDataAck_switch :: "pb_runtime \<Rightarrow> u32 \<Rightarrow> byte list \<Rightarrow> CIMMsgDataAck \<Rightarrow> CIMMsgDataAck field_result" where
  "CIMMsgDataAck_switch R tag p m =
     (let field = drop_bit 3 tag; low = (ucast tag :: byte) in
      if field = 1 then
        if low = 8 then
          (case ReadVarint64 R p of None \<Rightarrow> Failure | Some (v, q) \<Rightarrow> Continue (m\<lparr>MsgDataAck_from_user_id := v\<rparr>) q)
        else Unusual
      else if field = 2 then
        if low = 16 then
          (case ReadVarint64 R p of None \<Rightarrow> Failure | Some (v, q) \<Rightarrow> Continue (m\<lparr>MsgDataAck_to_session_id := v\<rparr>) q)
        else Unusual
      else if field = 3 then
        if low = 26 then
          (case InlineGreedyStringParser R p of None \<Rightarrow> Failure | Some (s, q) \<Rightarrow>
            if VerifyUTF8 R s then Continue (m\<lparr>MsgDataAck_client_msg_id := s\<rparr>) q else Failure)
        else Unusual
      else if field = 4 then
        if low = 32 then
          (case ReadVarint64 R p of None \<Rightarrow> Failure | Some (v, q) \<Rightarrow> Continue (m\<lparr>MsgDataAck_server_msg_id := v\<rparr>) q)
        else Unusual
      else if field = 5 then
        if low = 40 then
          (case ReadVarint64 R p of None \<Rightarrow> Failure | Some (v, q) \<Rightarrow> Continue (m\<lparr>MsgDataAck_res_code := ucast v\<rparr>) q)
        else Unusual
      else if field = 6 then
        if low = 48 then
          (case ReadVarint64 R p of None \<Rightarrow> Failure | Some (v, q) \<Rightarrow> Continue (m\<lparr>MsgDataAck_session_type := ucast v\<rparr>) q)
        else Unusual
      else if field = 7 then
        if low = 56 then
          (case ReadVarint64 R p of None \<Rightarrow> Failure | Some (v, q) \<Rightarrow> Continue (m\<lparr>MsgDataAck_create_time := ucast v\<rparr>) q)
        else Unusual
      else Unusual)"

definition CIMMsgDataAck_ParseFromArray :: "pb_runtime \<Rightarrow> byte list \<Rightarrow> CIMMsgDataAck \<Rightarrow> CIMMsgDataAck option" where
  "CIMMsgDataAck_ParseFromArray R bs m = parse_all R (CIMMsgDataAck_switch R) CIMMsgDataAck_unknown bs (CIMMsgDataAck_Clear m)"

definition CIMMsgDataAck_InternalSerialize :: "pb_runtime \<Rightarrow> CIMMsgDataAck \<Rightarrow> byte list" where
  "CIMMsgDataAck_InternalSerialize R m =
     (if MsgDataAck_from_user_id m \<noteq> 0 then WriteUInt64 R 1 (MsgDataAck_from_user_id m) else []) @
     (if MsgDataAck_to_session_id m \<noteq> 0 then WriteUInt64 R 2 (MsgDataAck_to_session_id m) else []) @
     (if length (MsgDataAck_client_msg_id m) > 0 then WriteLengthDelimited R 3 (MsgDataAck_client_msg_id m) else []) @
     (if MsgDataAck_server_msg_id m \<noteq> 0 then WriteUInt64 R 4 (MsgDataAck_server_msg_id m) else []) @
     (if MsgDataAck_res_code m \<noteq> 0 then WriteEnum R 5 (MsgDataAck_res_code m) else []) @
     (if MsgDataAck_session_type m \<noteq> 0 then WriteEnum R 6 (MsgDataAck_session_type m) else []) @
     (if MsgDataAck_create_time m \<noteq> 0 then WriteInt32 R 7 (MsgDataAck_create_time m) else []) @
     MsgDataAck_unknown m"

definition CIMMsgDataAck_ByteSizeLong :: "pb_runtime \<Rightarrow> CIMMsgDataAck \<Rightarrow> nat" where
  "CIMMsgDataAck_ByteSizeLong R m =
     (if length (MsgDataAck_client_msg_id m) > 0 then 1 + LengthDelimitedSize R (length (MsgDataAck_client_msg_id m)) else 0) +
     (if MsgDataAck_from_user_id m \<noteq> 0 then 1 + UInt64Size R (MsgDataAck_from_user_id m) else 0) +
     (if MsgDataAck_to_session_id m \<noteq> 0 then 1 + UInt64Size R (MsgDataAck_to_session_id m) else 0) +
     (if MsgDataAck_server_msg_id m \<noteq> 0 then 1 + UInt64Size R (MsgDataAck_server_msg_id m) else 0) +
     (if MsgDataAck_res_code m \<noteq> 0 then 1 + EnumSize R (MsgDataAck_res_code m) else 0) +
     (if MsgDataAck_session_type m \<noteq> 0 then 1 + EnumSize R (MsgDataAck_session_type m) else 0) +
     (if MsgDataAck_create_time m \<noteq> 0 then 1 + Int32Size R (MsgDataAck_create_time m) else 0) +
     length (MsgDataAck_unknown m)"

definition CIMMsgDataAck_MergeFrom :: "CIMMsgDataAck \<Rightarrow> CIMMsgDataAck \<Rightarrow> CIMMsgDataAck" where
  "CIMMsgDataAck_MergeFrom m src =
     m\<lparr>MsgDataAck_unknown := MsgDataAck_unknown m @ MsgDataAck_unknown src,
       MsgDataAck_client_msg_id := (if length (MsgDataAck_client_msg_id src) > 0 then MsgDataAck_client_msg_id src else MsgDataAck_client_msg_id m),
       MsgDataAck_from_user_id := (if MsgDataAck_from_user_id src \<noteq> 0 then MsgDataAck_from_user_id src else MsgDataAck_from_user_id m),
       MsgDataAck_to_session_id := (if MsgDataAck_to_session_id src \<noteq> 0 then MsgDataAck_to_session_id src else MsgDataAck_to_session_id m),
       MsgDataAck_server_msg_id := (if MsgDataAck_server_msg_id src \<noteq> 0 then MsgDataAck_server_msg_id src else MsgDataAck_server_msg_id m),
       MsgDataAck_res_code := (if MsgDataAck_res_code src \<noteq> 0 then MsgDataAck_res_code src else MsgDataAck_res_code m),
       MsgDataAck_session_type := (if MsgDataAck_session_type src \<noteq> 0 then MsgDataAck_session_type src else MsgDataAck_session_type m),
       MsgDataAck_create_time := (if MsgDataAck_create_time src \<noteq> 0 then MsgDataAck_create_time src else MsgDataAck_create_time m)\<rparr>"

definition CIMMsgDataAck_CopyFrom :: "CIMMsgDataAck \<Rightarrow> CIMMsgDataAck \<Rightarrow> CIMMsgDataAck" where
  "CIMMsgDataAck_CopyFrom m src = CIMMsgDataAck_MergeFrom (CIMMsgDataAck_Clear m) src"

text \<open>What a client builds: UTF-8 in the \<open>string\<close> fields, lengths an \<open>int\<close> holds, nothing unknown.\<close>

definition CIMMsgDataAck_valid :: "pb_runtime \<Rightarrow> CIMMsgDataAck \<Rightarrow> bool" where
  "CIMMsgDataAck_valid R m \<longleftrightarrow>
     length (MsgDataAck_client_msg_id m) < 2 ^ 31 \<and> VerifyUTF8 R (MsgDataAck_client_msg_id m) \<and>
     MsgDataAck_unknown m = []"

lemmas MsgDataAck_defs = CIMMsgDataAck_new_def CIMMsgDataAck_Clear_def CIMMsgDataAck_unknown_def CIMMsgDataAck_InternalSerialize_def CIMMsgDataAck_ByteSizeLong_def CIMMsgDataAck_valid_def

lemma CIMMsgDataAck_Clear_new: "CIMMsgDataAck_Clear m = CIMMsgDataAck_new"
  by (cases m) (simp add: CIMMsgDataAck_Clear_def CIMMsgDataAck_new_def)

lemma CIMMsgDataAck_MergeFrom_new: "CIMMsgDataAck_MergeFrom CIMMsgDataAck_new src = src"
  by (cases src) (simp add: CIMMsgDataAck_new_def CIMMsgDataAck_MergeFrom_def split del: if_split cong: if_cong)

lemma CIMMsgDataAck_CopyFrom_id: "CIMMsgDataAck_CopyFrom m src = src"
  by (simp add: CIMMsgDataAck_CopyFrom_def CIMMsgDataAck_Clear_new CIMMsgDataAck_MergeFrom_new)

context wire begin

lemma CIMMsgDataAck_size: "length (CIMMsgDataAck_InternalSerialize R m) = CIMMsgDataAck_ByteSizeLong R m"
  by (simp add: CIMMsgDataAck_InternalSerialize_def CIMMsgDataAck_ByteSizeLong_def piece_length split del: if_split cong: if_cong)

lemma CIMMsgDataAck_parsed:
  assumes "CIMMsgDataAck_valid R m"
  shows "parsed (CIMMsgDataAck_switch R) CIMMsgDataAck_unknown (CIMMsgDataAck_InternalSerialize R m) CIMMsgDataAck_new m"
  using assms
  by (cases m) (simp only: MsgDataAck_defs CIMMsgDataAck.select_convs,
    (rule parse_steps | simp add: CIMMsgDataAck_switch_def tag_of_def)+)

lemma CIMMsgDataAck_roundtrip:
  "CIMMsgDataAck_valid R m \<Longrightarrow> CIMMsgDataAck_ParseFromArray R (CIMMsgDataAck_InternalSerialize R m) m0 = Some m"
  using parsed_all [OF CIMMsgDataAck_parsed, of m]
  by (simp add: CIMMsgDataAck_ParseFromArray_def CIMMsgDataAck_Clear_new)

end

section \<open>CIMMsgDataReadAck\<close>

record CIMMsgDataReadAck =
  MsgDataReadAck_user_id :: "u64"
  MsgDataReadAck_session_id :: "u64"
  MsgDataReadAck_msg_id :: "u64"
  MsgDataReadAck_session_type :: "u32"
  MsgDataReadAck_unknown :: "byte list"

definition CIMMsgDataReadAck_new :: CIMMsgDataReadAck where
  "CIMMsgDataReadAck_new = \<lparr>MsgDataReadAck_user_id = 0, MsgDataReadAck_session_id = 0, MsgDataReadAck_msg_id = 0, MsgDataReadAck_session_type = 0, MsgDataReadAck_unknown = []\<rparr>"

definition CIMMsgDataReadAck_Clear :: "CIMMsgDataReadAck \<Rightarrow> CIMMsgDataReadAck" where
  "CIMMsgDataReadAck_Clear m = m\<lparr>MsgDataReadAck_user_id := 0, MsgDataReadAck_session_id := 0, MsgDataReadAck_msg_id := 0, MsgDataReadAck_session_type := 0, MsgDataReadAck_unknown := []\<rparr>"

definition CIMMsgDataReadAck_unknown :: "byte list \<Rightarrow> CIMMsgDataReadAck \<Rightarrow> CIMMsgDataReadAck" where
  "CIMMsgDataReadAck_unknown raw m = m\<lparr>MsgDataReadAck_unknown := MsgDataReadAck_unknown m @ raw\<rparr>"

definition CIMMsgDataReadAck_switch :: "pb_runtime \<Rightarrow> u32 \<Rightarrow> byte list \<Rightarrow> CIMMsgDataReadAck \<Rightarrow> CIMMsgDataReadAck field_result" where
  "CIMMsgDataReadAck_switch R tag p m =
     (let field = drop_bit 3 tag; low = (ucast tag :: byte) in
      if field = 1 then
        if low = 8 then
          (case ReadVarint64 R p of None \<Rightarrow> Failure | Some (v, q) \<Rightarrow> Continue (m\<lparr>MsgDataReadAck_user_id := v\<rparr>) q)
        else Unusual
      else if field = 2 then
        if low = 16 then
          (case ReadVarint64 R p of None \<Rightarrow> Failure | Some (v, q) \<Rightarrow> Continue (m\<lparr>MsgDataReadAck_session_id := v\<rparr>) q)
        else Unusual
      else if field = 3 then
        if low = 24 then
          (case ReadVarint64 R p of None \<Rightarrow> Failure | Some (v, q) \<Rightarrow> Continue (m\<lparr>MsgDataReadAck_msg_id := v\<rparr>) q)
        else Unusual
      else if field = 4 then
        if low = 32 then
          (case ReadVarint64 R p of None \<Rightarrow> Failure | Some (v, q) \<Rightarrow> Continue (m\<lparr>MsgDataReadAck_session_type := ucast v\<rparr>) q)
        else Unusual
      else Unusual)"

definition CIMMsgDataReadAck_ParseFromArray :: "pb_runtime \<Rightarrow> byte list \<Rightarrow> CIMMsgDataReadAck \<Rightarrow> CIMMsgDataReadAck option" where
  "CIMMsgDataReadAck_ParseFromArray R bs m = parse_all R (CIMMsgDataReadAck_switch R) CIMMsgDataReadAck_unknown bs (CIMMsgDataReadAck_Clear m)"

definition CIMMsgDataReadAck_InternalSerialize :: "pb_runtime \<Rightarrow> CIMMsgDataReadAck \<Rightarrow> byte list" where
  "CIMMsgDataReadAck_InternalSerialize R m =
     (if MsgDataReadAck_user_id m \<noteq> 0 then WriteUInt64 R 1 (MsgDataReadAck_user_id m) else []) @
     (if MsgDataReadAck_session_id m \<noteq> 0 then WriteUInt64 R 2 (MsgDataReadAck_session_id m) else []) @
     (if MsgDataReadAck_msg_id m \<noteq> 0 then WriteUInt64 R 3 (MsgDataReadAck_msg_id m) else []) @
     (if MsgDataReadAck_session_type m \<noteq> 0 then WriteEnum R 4 (MsgDataReadAck_session_type m) else []) @
     MsgDataReadAck_unknown m"

definition CIMMsgDataReadAck_ByteSizeLong :: "pb_runtime \<Rightarrow> CIMMsgDataReadAck \<Rightarrow> nat" where
  "CIMMsgDataReadAck_ByteSizeLong R m =
     (if MsgDataReadAck_user_id m \<noteq> 0 then 1 + UInt64Size R (MsgDataReadAck_user_id m) else 0) +
     (if MsgDataReadAck_session_id m \<noteq> 0 then 1 + UInt64Size R (MsgDataReadAck_session_id m) else 0) +
     (if MsgDataReadAck_msg_id m \<noteq> 0 then 1 + UInt64Size R (MsgDataReadAck_msg_id m) else 0) +
     (if MsgDataReadAck_session_type m \<noteq> 0 then 1 + EnumSize R (MsgDataReadAck_session_type m) else 0) +
     length (MsgDataReadAck_unknown m)"

definition CIMMsgDataReadAck_MergeFrom :: "CIMMsgDataReadAck \<Rightarrow> CIMMsgDataReadAck \<Rightarrow> CIMMsgDataReadAck" where
  "CIMMsgDataReadAck_MergeFrom m src =
     m\<lparr>MsgDataReadAck_unknown := MsgDataReadAck_unknown m @ MsgDataReadAck_unknown src,
       MsgDataReadAck_user_id := (if MsgDataReadAck_user_id src \<noteq> 0 then MsgDataReadAck_user_id src else MsgDataReadAck_user_id m),
       MsgDataReadAck_session_id := (if MsgDataReadAck_session_id src \<noteq> 0 then MsgDataReadAck_session_id src else MsgDataReadAck_session_id m),
       MsgDataReadAck_msg_id := (if MsgDataReadAck_msg_id src \<noteq> 0 then MsgDataReadAck_msg_id src else MsgDataReadAck_msg_id m),
       MsgDataReadAck_session_type := (if MsgDataReadAck_session_type src \<noteq> 0 then MsgDataReadAck_session_type src else MsgDataReadAck_session_type m)\<rparr>"

definition CIMMsgDataReadAck_CopyFrom :: "CIMMsgDataReadAck \<Rightarrow> CIMMsgDataReadAck \<Rightarrow> CIMMsgDataReadAck" where
  "CIMMsgDataReadAck_CopyFrom m src = CIMMsgDataReadAck_MergeFrom (CIMMsgDataReadAck_Clear m) src"

text \<open>What a client builds: UTF-8 in the \<open>string\<close> fields, lengths an \<open>int\<close> holds, nothing unknown.\<close>

definition CIMMsgDataReadAck_valid :: "pb_runtime \<Rightarrow> CIMMsgDataReadAck \<Rightarrow> bool" where
  "CIMMsgDataReadAck_valid R m \<longleftrightarrow>
     MsgDataReadAck_unknown m = []"

lemmas MsgDataReadAck_defs = CIMMsgDataReadAck_new_def CIMMsgDataReadAck_Clear_def CIMMsgDataReadAck_unknown_def CIMMsgDataReadAck_InternalSerialize_def CIMMsgDataReadAck_ByteSizeLong_def CIMMsgDataReadAck_valid_def

lemma CIMMsgDataReadAck_Clear_new: "CIMMsgDataReadAck_Clear m = CIMMsgDataReadAck_new"
  by (cases m) (simp add: CIMMsgDataReadAck_Clear_def CIMMsgDataReadAck_new_def)

lemma CIMMsgDataReadAck_MergeFrom_new: "CIMMsgDataReadAck_MergeFrom CIMMsgDataReadAck_new src = src"
  by (cases src) (simp add: CIMMsgDataReadAck_new_def CIMMsgDataReadAck_MergeFrom_def split del: if_split cong: if_cong)

lemma CIMMsgDataReadAck_CopyFrom_id: "CIMMsgDataReadAck_CopyFrom m src = src"
  by (simp add: CIMMsgDataReadAck_CopyFrom_def CIMMsgDataReadAck_Clear_new CIMMsgDataReadAck_MergeFrom_new)

context wire begin

lemma CIMMsgDataReadAck_size: "length (CIMMsgDataReadAck_InternalSerialize R m) = CIMMsgDataReadAck_ByteSizeLong R m"
  by (simp add: CIMMsgDataReadAck_InternalSerialize_def CIMMsgDataReadAck_ByteSizeLong_def piece_length split del: if_split cong: if_cong)

lemma CIMMsgDataReadAck_parsed:
  assumes "CIMMsgDataReadAck_valid R m"
  shows "parsed (CIMMsgDataReadAck_switch R) CIMMsgDataReadAck_unknown (CIMMsgDataReadAck_InternalSerialize R m) CIMMsgDataReadAck_new m"
  using assms
  by (cases m) (simp only: MsgDataReadAck_defs CIMMsgDataReadAck.select_convs,
    (rule parse_steps | simp add: CIMMsgDataReadAck_switch_def tag_of_def)+)

lemma CIMMsgDataReadAck_roundtrip:
  "CIMMsgDataReadAck_valid R m \<Longrightarrow> CIMMsgDataReadAck_ParseFromArray R (CIMMsgDataReadAck_InternalSerialize R m) m0 = Some m"
  using parsed_all [OF CIMMsgDataReadAck_parsed, of m]
  by (simp add: CIMMsgDataReadAck_ParseFromArray_def CIMMsgDataReadAck_Clear_new)

end

section \<open>CIMMsgDataReadNotify\<close>

record CIMMsgDataReadNotify =
  MsgDataReadNotify_user_id :: "u64"
  MsgDataReadNotify_session_id :: "u64"
  MsgDataReadNotify_msg_id :: "u64"
  MsgDataReadNotify_session_type :: "u32"
  MsgDataReadNotify_unknown :: "byte list"

definition CIMMsgDataReadNotify_new :: CIMMsgDataReadNotify where
  "CIMMsgDataReadNotify_new = \<lparr>MsgDataReadNotify_user_id = 0, MsgDataReadNotify_session_id = 0, MsgDataReadNotify_msg_id = 0, MsgDataReadNotify_session_type = 0, MsgDataReadNotify_unknown = []\<rparr>"

definition CIMMsgDataReadNotify_Clear :: "CIMMsgDataReadNotify \<Rightarrow> CIMMsgDataReadNotify" where
  "CIMMsgDataReadNotify_Clear m = m\<lparr>MsgDataReadNotify_user_id := 0, MsgDataReadNotify_session_id := 0, MsgDataReadNotify_msg_id := 0, MsgDataReadNotify_session_type := 0, MsgDataReadNotify_unknown := []\<rparr>"

definition CIMMsgDataReadNotify_unknown :: "byte list \<Rightarrow> CIMMsgDataReadNotify \<Rightarrow> CIMMsgDataReadNotify" where
  "CIMMsgDataReadNotify_unknown raw m = m\<lparr>MsgDataReadNotify_unknown := MsgDataReadNotify_unknown m @ raw\<rparr>"

definition CIMMsgDataReadNotify_switch :: "pb_runtime \<Rightarrow> u32 \<Rightarrow> byte list \<Rightarrow> CIMMsgDataReadNotify \<Rightarrow> CIMMsgDataReadNotify field_result" where
  "CIMMsgDataReadNotify_switch R tag p m =
     (let field = drop_bit 3 tag; low = (ucast tag :: byte) in
      if field = 1 then
        if low = 8 then
          (case ReadVarint64 R p of None \<Rightarrow> Failure | Some (v, q) \<Rightarrow> Continue (m\<lparr>MsgDataReadNotify_user_id := v\<rparr>) q)
        else Unusual
      else if field = 2 then
        if low = 16 then
          (case ReadVarint64 R p of None \<Rightarrow> Failure | Some (v, q) \<Rightarrow> Continue (m\<lparr>MsgDataReadNotify_session_id := v\<rparr>) q)
        else Unusual
      else if field = 3 then
        if low = 24 then
          (case ReadVarint64 R p of None \<Rightarrow> Failure | Some (v, q) \<Rightarrow> Continue (m\<lparr>MsgDataReadNotify_msg_id := v\<rparr>) q)
        else Unusual
      else if field = 4 then
        if low = 32 then
          (case ReadVarint64 R p of None \<Rightarrow> Failure | Some (v, q) \<Rightarrow> Continue (m\<lparr>MsgDataReadNotify_session_type := ucast v\<rparr>) q)
        else Unusual
      else Unusual)"

definition CIMMsgDataReadNotify_ParseFromArray :: "pb_runtime \<Rightarrow> byte list \<Rightarrow> CIMMsgDataReadNotify \<Rightarrow> CIMMsgDataReadNotify option" where
  "CIMMsgDataReadNotify_ParseFromArray R bs m = parse_all R (CIMMsgDataReadNotify_switch R) CIMMsgDataReadNotify_unknown bs (CIMMsgDataReadNotify_Clear m)"

definition CIMMsgDataReadNotify_InternalSerialize :: "pb_runtime \<Rightarrow> CIMMsgDataReadNotify \<Rightarrow> byte list" where
  "CIMMsgDataReadNotify_InternalSerialize R m =
     (if MsgDataReadNotify_user_id m \<noteq> 0 then WriteUInt64 R 1 (MsgDataReadNotify_user_id m) else []) @
     (if MsgDataReadNotify_session_id m \<noteq> 0 then WriteUInt64 R 2 (MsgDataReadNotify_session_id m) else []) @
     (if MsgDataReadNotify_msg_id m \<noteq> 0 then WriteUInt64 R 3 (MsgDataReadNotify_msg_id m) else []) @
     (if MsgDataReadNotify_session_type m \<noteq> 0 then WriteEnum R 4 (MsgDataReadNotify_session_type m) else []) @
     MsgDataReadNotify_unknown m"

definition CIMMsgDataReadNotify_ByteSizeLong :: "pb_runtime \<Rightarrow> CIMMsgDataReadNotify \<Rightarrow> nat" where
  "CIMMsgDataReadNotify_ByteSizeLong R m =
     (if MsgDataReadNotify_user_id m \<noteq> 0 then 1 + UInt64Size R (MsgDataReadNotify_user_id m) else 0) +
     (if MsgDataReadNotify_session_id m \<noteq> 0 then 1 + UInt64Size R (MsgDataReadNotify_session_id m) else 0) +
     (if MsgDataReadNotify_msg_id m \<noteq> 0 then 1 + UInt64Size R (MsgDataReadNotify_msg_id m) else 0) +
     (if MsgDataReadNotify_session_type m \<noteq> 0 then 1 + EnumSize R (MsgDataReadNotify_session_type m) else 0) +
     length (MsgDataReadNotify_unknown m)"

definition CIMMsgDataReadNotify_MergeFrom :: "CIMMsgDataReadNotify \<Rightarrow> CIMMsgDataReadNotify \<Rightarrow> CIMMsgDataReadNotify" where
  "CIMMsgDataReadNotify_MergeFrom m src =
     m\<lparr>MsgDataReadNotify_unknown := MsgDataReadNotify_unknown m @ MsgDataReadNotify_unknown src,
       MsgDataReadNotify_user_id := (if MsgDataReadNotify_user_id src \<noteq> 0 then MsgDataReadNotify_user_id src else MsgDataReadNotify_user_id m),
       MsgDataReadNotify_session_id := (if MsgDataReadNotify_session_id src \<noteq> 0 then MsgDataReadNotify_session_id src else MsgDataReadNotify_session_id m),
       MsgDataReadNotify_msg_id := (if MsgDataReadNotify_msg_id src \<noteq> 0 then MsgDataReadNotify_msg_id src else MsgDataReadNotify_msg_id m),
       MsgDataReadNotify_session_type := (if MsgDataReadNotify_session_type src \<noteq> 0 then MsgDataReadNotify_session_type src else MsgDataReadNotify_session_type m)\<rparr>"

definition CIMMsgDataReadNotify_CopyFrom :: "CIMMsgDataReadNotify \<Rightarrow> CIMMsgDataReadNotify \<Rightarrow> CIMMsgDataReadNotify" where
  "CIMMsgDataReadNotify_CopyFrom m src = CIMMsgDataReadNotify_MergeFrom (CIMMsgDataReadNotify_Clear m) src"

text \<open>What a client builds: UTF-8 in the \<open>string\<close> fields, lengths an \<open>int\<close> holds, nothing unknown.\<close>

definition CIMMsgDataReadNotify_valid :: "pb_runtime \<Rightarrow> CIMMsgDataReadNotify \<Rightarrow> bool" where
  "CIMMsgDataReadNotify_valid R m \<longleftrightarrow>
     MsgDataReadNotify_unknown m = []"

lemmas MsgDataReadNotify_defs = CIMMsgDataReadNotify_new_def CIMMsgDataReadNotify_Clear_def CIMMsgDataReadNotify_unknown_def CIMMsgDataReadNotify_InternalSerialize_def CIMMsgDataReadNotify_ByteSizeLong_def CIMMsgDataReadNotify_valid_def

lemma CIMMsgDataReadNotify_Clear_new: "CIMMsgDataReadNotify_Clear m = CIMMsgDataReadNotify_new"
  by (cases m) (simp add: CIMMsgDataReadNotify_Clear_def CIMMsgDataReadNotify_new_def)

lemma CIMMsgDataReadNotify_MergeFrom_new: "CIMMsgDataReadNotify_MergeFrom CIMMsgDataReadNotify_new src = src"
  by (cases src) (simp add: CIMMsgDataReadNotify_new_def CIMMsgDataReadNotify_MergeFrom_def split del: if_split cong: if_cong)

lemma CIMMsgDataReadNotify_CopyFrom_id: "CIMMsgDataReadNotify_CopyFrom m src = src"
  by (simp add: CIMMsgDataReadNotify_CopyFrom_def CIMMsgDataReadNotify_Clear_new CIMMsgDataReadNotify_MergeFrom_new)

context wire begin

lemma CIMMsgDataReadNotify_size: "length (CIMMsgDataReadNotify_InternalSerialize R m) = CIMMsgDataReadNotify_ByteSizeLong R m"
  by (simp add: CIMMsgDataReadNotify_InternalSerialize_def CIMMsgDataReadNotify_ByteSizeLong_def piece_length split del: if_split cong: if_cong)

lemma CIMMsgDataReadNotify_parsed:
  assumes "CIMMsgDataReadNotify_valid R m"
  shows "parsed (CIMMsgDataReadNotify_switch R) CIMMsgDataReadNotify_unknown (CIMMsgDataReadNotify_InternalSerialize R m) CIMMsgDataReadNotify_new m"
  using assms
  by (cases m) (simp only: MsgDataReadNotify_defs CIMMsgDataReadNotify.select_convs,
    (rule parse_steps | simp add: CIMMsgDataReadNotify_switch_def tag_of_def)+)

lemma CIMMsgDataReadNotify_roundtrip:
  "CIMMsgDataReadNotify_valid R m \<Longrightarrow> CIMMsgDataReadNotify_ParseFromArray R (CIMMsgDataReadNotify_InternalSerialize R m) m0 = Some m"
  using parsed_all [OF CIMMsgDataReadNotify_parsed, of m]
  by (simp add: CIMMsgDataReadNotify_ParseFromArray_def CIMMsgDataReadNotify_Clear_new)

end

section \<open>CIMGetLatestMsgIdReq\<close>

record CIMGetLatestMsgIdReq =
  GetLatestMsgIdReq_user_id :: "u64"
  GetLatestMsgIdReq_session_type :: "u32"
  GetLatestMsgIdReq_session_id :: "u64"
  GetLatestMsgIdReq_unknown :: "byte list"

definition CIMGetLatestMsgIdReq_new :: CIMGetLatestMsgIdReq where
  "CIMGetLatestMsgIdReq_new = \<lparr>GetLatestMsgIdReq_user_id = 0, GetLatestMsgIdReq_session_type = 0, GetLatestMsgIdReq_session_id = 0, GetLatestMsgIdReq_unknown = []\<rparr>"

definition CIMGetLatestMsgIdReq_Clear :: "CIMGetLatestMsgIdReq \<Rightarrow> CIMGetLatestMsgIdReq" where
  "CIMGetLatestMsgIdReq_Clear m = m\<lparr>GetLatestMsgIdReq_user_id := 0, GetLatestMsgIdReq_session_type := 0, GetLatestMsgIdReq_session_id := 0, GetLatestMsgIdReq_unknown := []\<rparr>"

definition CIMGetLatestMsgIdReq_unknown :: "byte list \<Rightarrow> CIMGetLatestMsgIdReq \<Rightarrow> CIMGetLatestMsgIdReq" where
  "CIMGetLatestMsgIdReq_unknown raw m = m\<lparr>GetLatestMsgIdReq_unknown := GetLatestMsgIdReq_unknown m @ raw\<rparr>"

definition CIMGetLatestMsgIdReq_switch :: "pb_runtime \<Rightarrow> u32 \<Rightarrow> byte list \<Rightarrow> CIMGetLatestMsgIdReq \<Rightarrow> CIMGetLatestMsgIdReq field_result" where
  "CIMGetLatestMsgIdReq_switch R tag p m =
     (let field = drop_bit 3 tag; low = (ucast tag :: byte) in
      if field = 1 then
        if low = 8 then
          (case ReadVarint64 R p of None \<Rightarrow> Failure | Some (v, q) \<Rightarrow> Continue (m\<lparr>GetLatestMsgIdReq_user_id := v\<rparr>) q)
        else Unusual
      else if field = 2 then
        if low = 16 then
          (case ReadVarint64 R p of None \<Rightarrow> Failure | Some (v, q) \<Rightarrow> Continue (m\<lparr>GetLatestMsgIdReq_session_type := ucast v\<rparr>) q)
        else Unusual
      else if field = 3 then
        if low = 24 then
          (case ReadVarint64 R p of None \<Rightarrow> Failure | Some (v, q) \<Rightarrow> Continue (m\<lparr>GetLatestMsgIdReq_session_id := v\<rparr>) q)
        else Unusual
      else Unusual)"

definition CIMGetLatestMsgIdReq_ParseFromArray :: "pb_runtime \<Rightarrow> byte list \<Rightarrow> CIMGetLatestMsgIdReq \<Rightarrow> CIMGetLatestMsgIdReq option" where
  "CIMGetLatestMsgIdReq_ParseFromArray R bs m = parse_all R (CIMGetLatestMsgIdReq_switch R) CIMGetLatestMsgIdReq_unknown bs (CIMGetLatestMsgIdReq_Clear m)"

definition CIMGetLatestMsgIdReq_InternalSerialize :: "pb_runtime \<Rightarrow> CIMGetLatestMsgIdReq \<Rightarrow> byte list" where
  "CIMGetLatestMsgIdReq_InternalSerialize R m =
     (if GetLatestMsgIdReq_user_id m \<noteq> 0 then WriteUInt64 R 1 (GetLatestMsgIdReq_user_id m) else []) @
     (if GetLatestMsgIdReq_session_type m \<noteq> 0 then WriteEnum R 2 (GetLatestMsgIdReq_session_type m) else []) @
     (if GetLatestMsgIdReq_session_id m \<noteq> 0 then WriteUInt64 R 3 (GetLatestMsgIdReq_session_id m) else []) @
     GetLatestMsgIdReq_unknown m"

definition CIMGetLatestMsgIdReq_ByteSizeLong :: "pb_runtime \<Rightarrow> CIMGetLatestMsgIdReq \<Rightarrow> nat" where
  "CIMGetLatestMsgIdReq_ByteSizeLong R m =
     (if GetLatestMsgIdReq_user_id m \<noteq> 0 then 1 + UInt64Size R (GetLatestMsgIdReq_user_id m) else 0) +
     (if GetLatestMsgIdReq_session_id m \<noteq> 0 then 1 + UInt64Size R (GetLatestMsgIdReq_session_id m) else 0) +
     (if GetLatestMsgIdReq_session_type m \<noteq> 0 then 1 + EnumSize R (GetLatestMsgIdReq_session_type m) else 0) +
     length (GetLatestMsgIdReq_unknown m)"

definition CIMGetLatestMsgIdReq_MergeFrom :: "CIMGetLatestMsgIdReq \<Rightarrow> CIMGetLatestMsgIdReq \<Rightarrow> CIMGetLatestMsgIdReq" where
  "CIMGetLatestMsgIdReq_MergeFrom m src =
     m\<lparr>GetLatestMsgIdReq_unknown := GetLatestMsgIdReq_unknown m @ GetLatestMsgIdReq_unknown src,
       GetLatestMsgIdReq_user_id := (if GetLatestMsgIdReq_user_id src \<noteq> 0 then GetLatestMsgIdReq_user_id src else GetLatestMsgIdReq_user_id m),
       GetLatestMsgIdReq_session_id := (if GetLatestMsgIdReq_session_id src \<noteq> 0 then GetLatestMsgIdReq_session_id src else GetLatestMsgIdReq_session_id m),
       GetLatestMsgIdReq_session_type := (if GetLatestMsgIdReq_session_type src \<noteq> 0 then GetLatestMsgIdReq_session_type src else GetLatestMsgIdReq_session_type m)\<rparr>"

definition CIMGetLatestMsgIdReq_CopyFrom :: "CIMGetLatestMsgIdReq \<Rightarrow> CIMGetLatestMsgIdReq \<Rightarrow> CIMGetLatestMsgIdReq" where
  "CIMGetLatestMsgIdReq_CopyFrom m src = CIMGetLatestMsgIdReq_MergeFrom (CIMGetLatestMsgIdReq_Clear m) src"

text \<open>What a client builds: UTF-8 in the \<open>string\<close> fields, lengths an \<open>int\<close> holds, nothing unknown.\<close>

definition CIMGetLatestMsgIdReq_valid :: "pb_runtime \<Rightarrow> CIMGetLatestMsgIdReq \<Rightarrow> bool" where
  "CIMGetLatestMsgIdReq_valid R m \<longleftrightarrow>
     GetLatestMsgIdReq_unknown m = []"

lemmas GetLatestMsgIdReq_defs = CIMGetLatestMsgIdReq_new_def CIMGetLatestMsgIdReq_Clear_def CIMGetLatestMsgIdReq_unknown_def CIMGetLatestMsgIdReq_InternalSerialize_def CIMGetLatestMsgIdReq_ByteSizeLong_def CIMGetLatestMsgIdReq_valid_def

lemma CIMGetLatestMsgIdReq_Clear_new: "CIMGetLatestMsgIdReq_Clear m = CIMGetLatestMsgIdReq_new"
  by (cases m) (simp add: CIMGetLatestMsgIdReq_Clear_def CIMGetLatestMsgIdReq_new_def)

lemma CIMGetLatestMsgIdReq_MergeFrom_new: "CIMGetLatestMsgIdReq_MergeFrom CIMGetLatestMsgIdReq_new src = src"
  by (cases src) (simp add: CIMGetLatestMsgIdReq_new_def CIMGetLatestMsgIdReq_MergeFrom_def split del: if_split cong: if_cong)

lemma CIMGetLatestMsgIdReq_CopyFrom_id: "CIMGetLatestMsgIdReq_CopyFrom m src = src"
  by (simp add: CIMGetLatestMsgIdReq_CopyFrom_def CIMGetLatestMsgIdReq_Clear_new CIMGetLatestMsgIdReq_MergeFrom_new)

context wire begin

lemma CIMGetLatestMsgIdReq_size: "length (CIMGetLatestMsgIdReq_InternalSerialize R m) = CIMGetLatestMsgIdReq_ByteSizeLong R m"
  by (simp add: CIMGetLatestMsgIdReq_InternalSerialize_def CIMGetLatestMsgIdReq_ByteSizeLong_def piece_length split del: if_split cong: if_cong)

lemma CIMGetLatestMsgIdReq_parsed:
  assumes "CIMGetLatestMsgIdReq_valid R m"
  shows "parsed (CIMGetLatestMsgIdReq_switch R) CIMGetLatestMsgIdReq_unknown (CIMGetLatestMsgIdReq_InternalSerialize R m) CIMGetLatestMsgIdReq_new m"
  using assms
  by (cases m) (simp only: GetLatestMsgIdReq_defs CIMGetLatestMsgIdReq.select_convs,
    (rule parse_steps | simp add: CIMGetLatestMsgIdReq_switch_def tag_of_def)+)

lemma CIMGetLatestMsgIdReq_roundtrip:
  "CIMGetLatestMsgIdReq_valid R m \<Longrightarrow> CIMGetLatestMsgIdReq_ParseFromArray R (CIMGetLatestMsgIdReq_InternalSerialize R m) m0 = Some m"
  using parsed_all [OF CIMGetLatestMsgIdReq_parsed, of m]
  by (simp add: CIMGetLatestMsgIdReq_ParseFromArray_def CIMGetLatestMsgIdReq_Clear_new)

end

section \<open>CIMGetLatestMsgIdRsp\<close>

record CIMGetLatestMsgIdRsp =
  GetLatestMsgIdRsp_user_id :: "u64"
  GetLatestMsgIdRsp_session_type :: "u32"
  GetLatestMsgIdRsp_session_id :: "u64"
  GetLatestMsgIdRsp_latest_msg_id :: "byte list"
  GetLatestMsgIdRsp_unknown :: "byte list"

definition CIMGetLatestMsgIdRsp_new :: CIMGetLatestMsgIdRsp where
  "CIMGetLatestMsgIdRsp_new = \<lparr>GetLatestMsgIdRsp_user_id = 0, GetLatestMsgIdRsp_session_type = 0, GetLatestMsgIdRsp_session_id = 0, GetLatestMsgIdRsp_latest_msg_id = [], GetLatestMsgIdRsp_unknown = []\<rparr>"

definition CIMGetLatestMsgIdRsp_Clear :: "CIMGetLatestMsgIdRsp \<Rightarrow> CIMGetLatestMsgIdRsp" where
  "CIMGetLatestMsgIdRsp_Clear m = m\<lparr>GetLatestMsgIdRsp_user_id := 0, GetLatestMsgIdRsp_session_type := 0, GetLatestMsgIdRsp_session_id := 0, GetLatestMsgIdRsp_latest_msg_id := [], GetLatestMsgIdRsp_unknown := []\<rparr>"

definition CIMGetLatestMsgIdRsp_unknown :: "byte list \<Rightarrow> CIMGetLatestMsgIdRsp \<Rightarrow> CIMGetLatestMsgIdRsp" where
  "CIMGetLatestMsgIdRsp_unknown raw m = m\<lparr>GetLatestMsgIdRsp_unknown := GetLatestMsgIdRsp_unknown m @ raw\<rparr>"

definition CIMGetLatestMsgIdRsp_switch :: "pb_runtime \<Rightarrow> u32 \<Rightarrow> byte list \<Rightarrow> CIMGetLatestMsgIdRsp \<Rightarrow> CIMGetLatestMsgIdRsp field_result" where
  "CIMGetLatestMsgIdRsp_switch R tag p m =
     (let field = drop_bit 3 tag; low = (ucast tag :: byte) in
      if field = 1 then
        if low = 8 then
          (case ReadVarint64 R p of None \<Rightarrow> Failure | Some (v, q) \<Rightarrow> Continue (m\<lparr>GetLatestMsgIdRsp_user_id := v\<rparr>) q)
        else Unusual
      else if field = 2 then
        if low = 16 then
          (case ReadVarint64 R p of None \<Rightarrow> Failure | Some (v, q) \<Rightarrow> Continue (m\<lparr>GetLatestMsgIdRsp_session_type := ucast v\<rparr>) q)
        else Unusual
      else if field = 3 then
        if low = 24 then
          (case ReadVarint64 R p of None \<Rightarrow> Failure | Some (v, q) \<Rightarrow> Continue (m\<lparr>GetLatestMsgIdRsp_session_id := v\<rparr>) q)
        else Unusual
      else if field = 4 then
        if low = 34 then
          (case InlineGreedyStringParser R p of None \<Rightarrow> Failure | Some (s, q) \<Rightarrow>
            if VerifyUTF8 R s then Continue (m\<lparr>GetLatestMsgIdRsp_latest_msg_id := s\<rparr>) q else Failure)
        else Unusual
      else Unusual)"

definition CIMGetLatestMsgIdRsp_ParseFromArray :: "pb_runtime \<Rightarrow> byte list \<Rightarrow> CIMGetLatestMsgIdRsp \<Rightarrow> CIMGetLatestMsgIdRsp option" where
  "CIMGetLatestMsgIdRsp_ParseFromArray R bs m = parse_all R (CIMGetLatestMsgIdRsp_switch R) CIMGetLatestMsgIdRsp_unknown bs (CIMGetLatestMsgIdRsp_Clear m)"

definition CIMGetLatestMsgIdRsp_InternalSerialize :: "pb_runtime \<Rightarrow> CIMGetLatestMsgIdRsp \<Rightarrow> byte list" where
  "CIMGetLatestMsgIdRsp_InternalSerialize R m =
     (if GetLatestMsgIdRsp_user_id m \<noteq> 0 then WriteUInt64 R 1 (GetLatestMsgIdRsp_user_id m) else []) @
     (if GetLatestMsgIdRsp_session_type m \<noteq> 0 then WriteEnum R 2 (GetLatestMsgIdRsp_session_type m) else []) @
     (if GetLatestMsgIdRsp_session_id m \<noteq> 0 then WriteUInt64 R 3 (GetLatestMsgIdRsp_session_id m) else []) @
     (if length (GetLatestMsgIdRsp_latest_msg_id m) > 0 then WriteLengthDelimited R 4 (GetLatestMsgIdRsp_latest_msg_id m) else []) @
     GetLatestMsgIdRsp_unknown m"

definition CIMGetLatestMsgIdRsp_ByteSizeLong :: "pb_runtime \<Rightarrow> CIMGetLatestMsgIdRsp \<Rightarrow> nat" where
  "CIMGetLatestMsgIdRsp_ByteSizeLong R m =
     (if length (GetLatestMsgIdRsp_latest_msg_id m) > 0 then 1 + LengthDelimitedSize R (length (GetLatestMsgIdRsp_latest_msg_id m)) else 0) +
     (if GetLatestMsgIdRsp_user_id m \<noteq> 0 then 1 + UInt64Size R (GetLatestMsgIdRsp_user_id m) else 0) +
     (if GetLatestMsgIdRsp_session_id m \<noteq> 0 then 1 + UInt64Size R (GetLatestMsgIdRsp_session_id m) else 0) +
     (if GetLatestMsgIdRsp_session_type m \<noteq> 0 then 1 + EnumSize R (GetLatestMsgIdRsp_session_type m) else 0) +
     length (GetLatestMsgIdRsp_unknown m)"

definition CIMGetLatestMsgIdRsp_MergeFrom :: "CIMGetLatestMsgIdRsp \<Rightarrow> CIMGetLatestMsgIdRsp \<Rightarrow> CIMGetLatestMsgIdRsp" where
  "CIMGetLatestMsgIdRsp_MergeFrom m src =
     m\<lparr>GetLatestMsgIdRsp_unknown := GetLatestMsgIdRsp_unknown m @ GetLatestMsgIdRsp_unknown src,
       GetLatestMsgIdRsp_latest_msg_id := (if length (GetLatestMsgIdRsp_latest_msg_id src) > 0 then GetLatestMsgIdRsp_latest_msg_id src else GetLatestMsgIdRsp_latest_msg_id m),
       GetLatestMsgIdRsp_user_id := (if GetLatestMsgIdRsp_user_id src \<noteq> 0 then GetLatestMsgIdRsp_user_id src else GetLatestMsgIdRsp_user_id m),
       GetLatestMsgIdRsp_session_id := (if GetLatestMsgIdRsp_session_id src \<noteq> 0 then GetLatestMsgIdRsp_session_id src else GetLatestMsgIdRsp_session_id m),
       GetLatestMsgIdRsp_session_type := (if GetLatestMsgIdRsp_session_type src \<noteq> 0 then GetLatestMsgIdRsp_session_type src else GetLatestMsgIdRsp_session_type m)\<rparr>"

definition CIMGetLatestMsgIdRsp_CopyFrom :: "CIMGetLatestMsgIdRsp \<Rightarrow> CIMGetLatestMsgIdRsp \<Rightarrow> CIMGetLatestMsgIdRsp" where
  "CIMGetLatestMsgIdRsp_CopyFrom m src = CIMGetLatestMsgIdRsp_MergeFrom (CIMGetLatestMsgIdRsp_Clear m) src"

text \<open>What a client builds: UTF-8 in the \<open>string\<close> fields, lengths an \<open>int\<close> holds, nothing unknown.\<close>

definition CIMGetLatestMsgIdRsp_valid :: "pb_runtime \<Rightarrow> CIMGetLatestMsgIdRsp \<Rightarrow> bool" where
  "CIMGetLatestMsgIdRsp_valid R m \<longleftrightarrow>
     length (GetLatestMsgIdRsp_latest_msg_id m) < 2 ^ 31 \<and> VerifyUTF8 R (GetLatestMsgIdRsp_latest_msg_id m) \<and>
     GetLatestMsgIdRsp_unknown m = []"

lemmas GetLatestMsgIdRsp_defs = CIMGetLatestMsgIdRsp_new_def CIMGetLatestMsgIdRsp_Clear_def CIMGetLatestMsgIdRsp_unknown_def CIMGetLatestMsgIdRsp_InternalSerialize_def CIMGetLatestMsgIdRsp_ByteSizeLong_def CIMGetLatestMsgIdRsp_valid_def

lemma CIMGetLatestMsgIdRsp_Clear_new: "CIMGetLatestMsgIdRsp_Clear m = CIMGetLatestMsgIdRsp_new"
  by (cases m) (simp add: CIMGetLatestMsgIdRsp_Clear_def CIMGetLatestMsgIdRsp_new_def)

lemma CIMGetLatestMsgIdRsp_MergeFrom_new: "CIMGetLatestMsgIdRsp_MergeFrom CIMGetLatestMsgIdRsp_new src = src"
  by (cases src) (simp add: CIMGetLatestMsgIdRsp_new_def CIMGetLatestMsgIdRsp_MergeFrom_def split del: if_split cong: if_cong)

lemma CIMGetLatestMsgIdRsp_CopyFrom_id: "CIMGetLatestMsgIdRsp_CopyFrom m src = src"
  by (simp add: CIMGetLatestMsgIdRsp_CopyFrom_def CIMGetLatestMsgIdRsp_Clear_new CIMGetLatestMsgIdRsp_MergeFrom_new)

context wire begin

lemma CIMGetLatestMsgIdRsp_size: "length (CIMGetLatestMsgIdRsp_InternalSerialize R m) = CIMGetLatestMsgIdRsp_ByteSizeLong R m"
  by (simp add: CIMGetLatestMsgIdRsp_InternalSerialize_def CIMGetLatestMsgIdRsp_ByteSizeLong_def piece_length split del: if_split cong: if_cong)

lemma CIMGetLatestMsgIdRsp_parsed:
  assumes "CIMGetLatestMsgIdRsp_valid R m"
  shows "parsed (CIMGetLatestMsgIdRsp_switch R) CIMGetLatestMsgIdRsp_unknown (CIMGetLatestMsgIdRsp_InternalSerialize R m) CIMGetLatestMsgIdRsp_new m"
  using assms
  by (cases m) (simp only: GetLatestMsgIdRsp_defs CIMGetLatestMsgIdRsp.select_convs,
    (rule parse_steps | simp add: CIMGetLatestMsgIdRsp_switch_def tag_of_def)+)

lemma CIMGetLatestMsgIdRsp_roundtrip:
  "CIMGetLatestMsgIdRsp_valid R m \<Longrightarrow> CIMGetLatestMsgIdRsp_ParseFromArray R (CIMGetLatestMsgIdRsp_InternalSerialize R m) m0 = Some m"
  using parsed_all [OF CIMGetLatestMsgIdRsp_parsed, of m]
  by (simp add: CIMGetLatestMsgIdRsp_ParseFromArray_def CIMGetLatestMsgIdRsp_Clear_new)

end

end
