(* ===== verification/Client.thy ===== *)
theory Client
  imports BufferProps Md5 TcpLaws CimDef PbLogin PbMessage
begin

text \<open>
  \<open>cim::core::Client\<close> (\<open>cim/core/client.h\<close>, \<open>client.cpp\<close>) and the receiving half of
  \<open>ChatManager\<close> (\<open>chat_manager.cpp\<close>), which \<open>Client\<close> calls. Both are singletons, so their members
  extend the state of the network layer, with the SDK's configuration \<open>g_config\<close> and what
  \<open>time(nullptr)\<close> returns. The record \<open>sdk\<close> holds what is outside the code: the protobuf runtime,
  libuv, and the functions the user of the SDK installed, which are given their id, their
  arguments and the state, and may change the state as they like.
\<close>

section \<open>State\<close>

datatype LoginStatus = LoginStatus_kDefault | kLogining | kLoginOk

record client = net +
  g_config :: ChatKitConfig
  now :: u64
  tcp_client :: "nat option"
  recv_buffer :: buffer
  heartbeat_timer :: "nat option"
  login_status :: LoginStatus
  last_login_time :: u64
  last_send_time :: u64
  last_recv_time :: u64
  login_cb :: "nat option"
  login_timeout_cb :: "nat option"
  user_name :: "byte list"
  user_pwd :: "byte list"
  user_id :: u64
  connection_cb :: "nat option"
  client_seq :: u16
  recv_cb :: "nat option"

record 'w sdk =
  pb :: pb_runtime
  uv :: uv_env
  on_login :: "nat \<Rightarrow> CIMAuthRsp \<Rightarrow> 'w \<Rightarrow> 'w res"
  on_login_timeout :: "nat \<Rightarrow> 'w \<Rightarrow> 'w res"
  on_status :: "nat \<Rightarrow> nat option \<Rightarrow> ConnectionStatus \<Rightarrow> 'w \<Rightarrow> 'w res"
  on_recv_msg :: "nat \<Rightarrow> CIMMsgData \<Rightarrow> 'w \<Rightarrow> 'w res"

definition kMaxBufferLen :: u32 where "kMaxBufferLen = 1024 * 10"
definition kClientVersion :: "byte list" where "kClientVersion = ascii ''0.1''"

text \<open>The ids of \<open>Client\<close>'s own callbacks, bound in \<open>login\<close> and in the constructor.\<close>

definition kOnConnectionStatusChanged :: nat where "kOnConnectionStatusChanged = 1"
definition kOnMessage :: nat where "kOnMessage = 2"
definition kOnTimer :: nat where "kOnTimer = 3"

text \<open>\<open>Client::Client()\<close>, on a state whose other components exist already.\<close>

definition Client_new :: "'a client_scheme \<Rightarrow> 'a client_scheme res" where
  "Client_new c =
     bind_r (Buffer_new kInitialSize kCheapPrependSize) (\<lambda>b.
     let c = c\<lparr>tcp_client := None, recv_buffer := b, heartbeat_timer := None,
               login_status := LoginStatus_kDefault, last_login_time := 0, last_send_time := 0,
               last_recv_time := 0, login_cb := None, login_timeout_cb := None, user_name := [],
               user_pwd := [], user_id := 0, connection_cb := None, client_seq := 0\<rparr> in
     bind_r (registerTimer kOnTimer 1000 0 c) (\<lambda>(t, c).
     Inr (c\<lparr>heartbeat_timer := Some t\<rparr>)))"

definition GetUserId :: "'a client_scheme \<Rightarrow> u64" where
  "GetUserId c = user_id c"

definition loginStatus :: "'a client_scheme \<Rightarrow> LoginStatus" where
  "loginStatus c = login_status c"

definition Client_setConnectionCallback :: "nat option \<Rightarrow> 'a client_scheme \<Rightarrow> 'a client_scheme" where
  "Client_setConnectionCallback cb c = c\<lparr>connection_cb := cb\<rparr>"

section \<open>Sending\<close>

definition getSeq :: "'a client_scheme \<Rightarrow> u16 \<times> 'a client_scheme" where
  "getSeq c = (let c = c\<lparr>client_seq := client_seq c + 1\<rparr> in (client_seq c, c))"

definition connStatus :: "'a client_scheme \<Rightarrow> ConnectionStatus res" where
  "connStatus c =
     (case tcp_client c of None \<Rightarrow> Inl NullDeref
      | Some i \<Rightarrow> (case objs c i of None \<Rightarrow> Inl NullDeref | Some t \<Rightarrow> Inr (connect_status t)))"

definition Client_send_raw ::
    "'a client_scheme sdk \<Rightarrow> byte list \<Rightarrow> 'a client_scheme \<Rightarrow> (int \<times> 'a client_scheme) res" where
  "Client_send_raw S bs c =
     (let c = c\<lparr>last_send_time := now c\<rparr> in
      case tcp_client c of None \<Rightarrow> Inl NullDeref
      | Some i \<Rightarrow> TcpClient_send (uv S) i bs c)"

text \<open>
  \<open>google::protobuf::MessageLite\<close>: what a message serializes to and its \<open>ByteSizeLong\<close>.
  \<open>SerializeToArray\<close> writes nothing for a message larger than \<open>INT_MAX\<close>.
\<close>

record message_lite =
  ml_bytes :: "byte list"
  ml_size :: nat

definition INT_MAX :: nat where "INT_MAX = 2 ^ 31 - 1"

definition SerializeToArray :: "message_lite \<Rightarrow> nat \<Rightarrow> buffer \<Rightarrow> buffer res" where
  "SerializeToArray msg at b =
     (if ml_size msg > INT_MAX then Inr b
      else bind_r (mem_put (buffer_mem b) at (map Some (ml_bytes msg))) (\<lambda>m.
           Inr (b\<lparr>buffer_mem := m\<rparr>)))"

definition make_packet :: "u16 \<Rightarrow> u16 \<Rightarrow> message_lite \<Rightarrow> buffer res" where
  "make_packet cmd seq msg =
     (let len = (of_nat (sizeof_IMHeader + ml_size msg) :: u32) in
      bind_r (Buffer_new (unat len) kCheapPrependSize) (\<lambda>b.
      bind_r (AppendInt32 len b) (\<lambda>b.
      bind_r (AppendInt16 kProtocolVersion b) (\<lambda>b.
      bind_r (AppendInt16 0 b) (\<lambda>b.
      bind_r (AppendInt16 0 b) (\<lambda>b.
      bind_r (AppendInt16 cmd b) (\<lambda>b.
      bind_r (AppendInt16 seq b) (\<lambda>b.
      bind_r (AppendInt16 0 b) (\<lambda>b.
      bind_r (SerializeToArray msg (WriteBegin b) b) (\<lambda>b.
      WriteBytes (ml_size msg) b))))))))))"

text \<open>
  \<open>buffer.length()\<close> is passed on as an \<open>int\<close>: a packet of \<open>2 ^ 31\<close> bytes or more has a negative
  length there, which \<open>::send\<close> takes for a size beyond every block.
\<close>

definition Client_send ::
    "'a client_scheme sdk \<Rightarrow> u32 \<Rightarrow> message_lite \<Rightarrow> 'a client_scheme \<Rightarrow> (int \<times> 'a client_scheme) res" where
  "Client_send S cmd_id msg c =
     (let (sq, c) = getSeq c in
      bind_r (make_packet (ucast cmd_id) sq msg) (\<lambda>b.
      bind_r (connStatus c) (\<lambda>status.
      if status = kConnectOk then
        bind_r (buf_ToString b) (\<lambda>bs.
        if length bs \<le> INT_MAX then Client_send_raw S bs c else Inl OutOfBounds)
      else Inr (kError, c))))"

section \<open>Login and logout\<close>

definition logout_req :: "pb_runtime \<Rightarrow> u64 \<Rightarrow> message_lite" where
  "logout_req R uid =
     (let req = CIMLogoutReq_new\<lparr>LogoutReq_user_id := uid,
                                 LogoutReq_client_type := kCIM_CLIENT_TYPE_PC_WINDOWS\<rparr> in
      \<lparr>ml_bytes = CIMLogoutReq_InternalSerialize R req, ml_size = CIMLogoutReq_ByteSizeLong R req\<rparr>)"

definition logout :: "'a client_scheme sdk \<Rightarrow> 'a client_scheme \<Rightarrow> 'a client_scheme res" where
  "logout S c =
     bind_r (if login_status c = kLoginOk then
               (let c = c\<lparr>login_status := LoginStatus_kDefault\<rparr> in
                bind_r (Client_send S kCIM_CID_LOGIN_AUTH_LOGOUT_REQ (logout_req (pb S) (user_id c)) c)
                  (\<lambda>(_, c). Inr c))
             else Inr c) (\<lambda>c.
     let c = c\<lparr>login_status := LoginStatus_kDefault\<rparr> in
     case tcp_client c of None \<Rightarrow> Inr c
     | Some i \<Rightarrow> bind_r (TcpClient_close i c) (\<lambda>c. release i (c\<lparr>tcp_client := None\<rparr>)))"

definition login :: "'a client_scheme sdk \<Rightarrow> byte list \<Rightarrow> byte list \<Rightarrow> nat option \<Rightarrow> nat option \<Rightarrow>
    'a client_scheme \<Rightarrow> 'a client_scheme res" where
  "login S name pwd cb timeout_cb c =
     bind_r (logout S c) (\<lambda>c.
     let c = c\<lparr>login_cb := cb, login_timeout_cb := timeout_cb, login_status := kLogining,
               last_login_time := now c\<rparr> in
     bind_r (md5_hex TYPE(64) pwd) (\<lambda>h.
     let c = c\<lparr>user_name := name, user_pwd := h\<rparr> in
     bind_r (case tcp_client c of
               Some i \<Rightarrow> Inr (i, c)
             | None \<Rightarrow>
               (let (i, c) = TcpClient_new c; c = c\<lparr>tcp_client := Some i\<rparr> in
                bind_r (TcpClient_setConnectionCallback i (Some kOnConnectionStatusChanged) c) (\<lambda>c.
                bind_r (setMessageCallback i (Some kOnMessage) c) (\<lambda>c. Inr (i, c))))) (\<lambda>(i, c).
     bind_r (TcpClient_connect (uv S) i (cfg_ip (cfg_serverInfo (g_config c)))
               (cfg_gatePort (cfg_serverInfo (g_config c))) c) (\<lambda>(_, c).
     Inr c))))"

text \<open>\<open>Client::~Client()\<close>\<close>

definition Client_destroy :: "'a client_scheme sdk \<Rightarrow> 'a client_scheme \<Rightarrow> 'a client_scheme res" where
  "Client_destroy S c =
     bind_r (logout S c) (\<lambda>c.
     case heartbeat_timer c of None \<Rightarrow> Inr c
     | Some t \<Rightarrow> bind_r (removeTimer (Some t) c) (\<lambda>c. Inr (c\<lparr>heartbeat_timer := None\<rparr>)))"

definition auth_req :: "pb_runtime \<Rightarrow> byte list \<Rightarrow> byte list \<Rightarrow> message_lite" where
  "auth_req R name pwd =
     (let req = CIMAuthReq_new\<lparr>AuthReq_user_name := name, AuthReq_user_pwd := pwd,
                               AuthReq_client_version := kClientVersion,
                               AuthReq_client_type := kCIM_CLIENT_TYPE_PC_WINDOWS\<rparr> in
      \<lparr>ml_bytes = CIMAuthReq_InternalSerialize R req, ml_size = CIMAuthReq_ByteSizeLong R req\<rparr>)"

text \<open>The UTF-8 text of the literal: connecting failed, a network or server problem.\<close>

definition kConnectFailed :: "byte list" where
  "kConnectFailed =
     [232, 191, 158, 230, 142, 165, 230, 156, 141, 229, 138, 161, 229, 153, 168, 229, 164, 177,
      232, 180, 165, 239, 188, 140, 231, 189, 145, 231, 187, 156, 229, 188, 130, 229, 184, 184,
      230, 136, 150, 232, 128, 133, 230, 156, 141, 229, 138, 161, 229, 153, 168, 229, 188, 130,
      229, 184, 184]"

definition failed_rsp :: CIMAuthRsp where
  "failed_rsp = CIMAuthRsp_new\<lparr>AuthRsp_result_code := kCIM_ERR_INTERNAL_ERROR,
                               AuthRsp_result_string := kConnectFailed\<rparr>"

definition onConnectionStatusChanged ::
    "'a client_scheme sdk \<Rightarrow> nat \<Rightarrow> ConnectionStatus \<Rightarrow> 'a client_scheme \<Rightarrow> 'a client_scheme res" where
  "onConnectionStatusChanged S conn status c =
     bind_r (if status = kConnectOk then
               bind_r (Client_send S kCIM_CID_LOGIN_AUTH_REQ
                         (auth_req (pb S) (user_name c) (user_pwd c)) c) (\<lambda>(_, c). Inr c)
             else
               bind_r (if login_status c = kLogining then
                         (case login_cb c of None \<Rightarrow> Inr c | Some f \<Rightarrow> on_login S f failed_rsp c)
                       else Inr c) (logout S)) (\<lambda>c.
     case connection_cb c of None \<Rightarrow> Inr c | Some f \<Rightarrow> on_status S f (Some conn) status c)"

section \<open>Receiving\<close>

definition ChatManager_onHandleData ::
    "'a client_scheme sdk \<Rightarrow> IMHeader \<Rightarrow> 'a client_scheme \<Rightarrow> 'a client_scheme res" where
  "ChatManager_onHandleData S header c =
     (if hdr_cmd header = ucast kCIM_CID_MSG_DATA then
        (case recv_cb c of None \<Rightarrow> Inr c
         | Some f \<Rightarrow>
           bind_r (buf_ToString (recv_buffer c)) (\<lambda>bs.
           case CIMMsgData_ParseFromArray (pb S) bs CIMMsgData_new of None \<Rightarrow> Inr c
           | Some data \<Rightarrow> on_recv_msg S f data c))
      else Inr c)"

definition onHandleAuthRsp ::
    "'a client_scheme sdk \<Rightarrow> IMHeader \<Rightarrow> 'a client_scheme \<Rightarrow> 'a client_scheme res" where
  "onHandleAuthRsp S header c =
     bind_r (buf_ToString (recv_buffer c)) (\<lambda>bs.
     case CIMAuthRsp_ParseFromArray (pb S) bs CIMAuthRsp_new of None \<Rightarrow> Inr c
     | Some rsp \<Rightarrow>
       bind_r (Skip (CIMAuthRsp_ByteSizeLong (pb S) rsp) (recv_buffer c)) (\<lambda>b.
       let c = c\<lparr>recv_buffer := b\<rparr> in
       bind_r (if AuthRsp_result_code rsp \<noteq> kCIM_ERR_SUCCESS then logout S c else Inr c) (\<lambda>c.
       case login_cb c of None \<Rightarrow> Inr c | Some f \<Rightarrow> on_login S f rsp c)))"

definition Client_onHandleData ::
    "'a client_scheme sdk \<Rightarrow> IMHeader \<Rightarrow> 'a client_scheme \<Rightarrow> 'a client_scheme res" where
  "Client_onHandleData S header c =
     (if hdr_cmd header = ucast kCIM_CID_LOGIN_AUTH_RSP then onHandleAuthRsp S header c
      else if hdr_cmd header = ucast kCIM_CID_MSG_DATA then ChatManager_onHandleData S header c
      else bind_r (Skip (unat (hdr_len header)) (recv_buffer c)) (\<lambda>b. Inr (c\<lparr>recv_buffer := b\<rparr>)))"

text \<open>The header fields after the length.\<close>

definition read_header :: "u32 \<Rightarrow> buffer \<Rightarrow> (IMHeader \<times> buffer) res" where
  "read_header len b =
     bind_r (ReadInt16 b) (\<lambda>(v, b).
     bind_r (ReadInt16 b) (\<lambda>(f, b).
     bind_r (ReadInt16 b) (\<lambda>(s, b).
     bind_r (ReadInt16 b) (\<lambda>(cmd, b).
     bind_r (ReadInt16 b) (\<lambda>(sq, b).
     bind_r (ReadInt16 b) (\<lambda>(r, b).
     Inr (\<lparr>hdr_len = len, hdr_version = v, hdr_flag = f, hdr_service_id = s, hdr_cmd = cmd,
           hdr_seq = sq, hdr_reserved = r\<rparr>, b)))))))"

text \<open>
  One round of the loop of \<open>onMessage\<close>; the flag says whether it goes round again. \<open>reset_len\<close> is an
  \<open>int\<close> computed in \<open>size_t\<close>, and converted back to \<open>size_t\<close> to be compared.
\<close>

definition to_int :: "nat \<Rightarrow> int" where
  "to_int n = sint (of_nat n :: 32 word)"

definition int_to_sz :: "int \<Rightarrow> nat" where
  "int_to_sz k = nat (k mod 2 ^ 64)"

definition recv_round :: "'a client_scheme sdk \<Rightarrow> 'a client_scheme \<Rightarrow> (bool \<times> 'a client_scheme) res" where
  "recv_round S c =
     bind_r (ReadInt32 (recv_buffer c)) (\<lambda>(len, b).
     let c = c\<lparr>recv_buffer := b\<rparr> in
     bind_r (buf_length (recv_buffer c)) (\<lambda>n.
     let reset_len = to_int (add_sz (sub_sz n (unat len)) 4) in
     bind_r (buf_size (recv_buffer c)) (\<lambda>size.
     if sub_sz (unat len) 4 > size then Inr (False, c)
     else if len < kMaxBufferLen then
       bind_r (read_header len (recv_buffer c)) (\<lambda>(header, b).
       bind_r (Client_onHandleData S header (c\<lparr>recv_buffer := b\<rparr>)) (\<lambda>c.
       bind_r (buf_length (recv_buffer c)) (\<lambda>n.
       bind_r (assert_r (int_to_sz reset_len = n)) (\<lambda>_.
       if n \<le> 0 then Inr (False, c)
       else if n < sizeof_IMHeader then Inr (False, c)
       else Inr (True, c)))))
     else Inr (False, c))))"

partial_function (option) recv_loop ::
    "'a client_scheme sdk \<Rightarrow> 'a client_scheme \<Rightarrow> 'a client_scheme res option" where
  "recv_loop S c =
     (case recv_round S c of
        Inl e \<Rightarrow> Some (Inl e)
      | Inr r \<Rightarrow> if fst r then recv_loop S (snd r) else Some (Inr (snd r)))"

definition onMessage ::
    "'a client_scheme sdk \<Rightarrow> nat \<Rightarrow> byte list \<Rightarrow> 'a client_scheme \<Rightarrow> 'a client_scheme res" where
  "onMessage S conn bs c =
     (case objs c conn of None \<Rightarrow> Inl NullDeref
      | Some _ \<Rightarrow>
        if length bs \<le> sizeof_IMHeader then Inr c
        else
          bind_r (Write (map Some bs) (recv_buffer c)) (\<lambda>b.
          case recv_loop S (c\<lparr>recv_buffer := b\<rparr>) of None \<Rightarrow> Inl Diverges
          | Some r \<Rightarrow> bind_r r (\<lambda>c. Inr (c\<lparr>recv_buffer := Reset (recv_buffer c)\<rparr>))))"

text \<open>What the network layer calls for the ids \<open>login\<close> binds.\<close>

definition client_cbs :: "'a client_scheme sdk \<Rightarrow> 'a client_scheme net_cb" where
  "client_cbs S =
     \<lparr>on_connection = (\<lambda>k conn status c.
        if k = kOnConnectionStatusChanged then onConnectionStatusChanged S conn status c else Inr c),
      on_message = (\<lambda>k conn bs c. if k = kOnMessage then onMessage S conn bs c else Inr c)\<rparr>"

section \<open>The timer\<close>

definition onTimer :: "'a client_scheme sdk \<Rightarrow> 'a client_scheme \<Rightarrow> 'a client_scheme res" where
  "onTimer S c =
     (let curTime = now c in
      bind_r (if loginStatus c = kLogining then
                (let timeout = ucast (cfg_login_time_out (cfg_loginConfig (g_config c))) :: u16 in
                 if curTime - last_login_time c > ucast timeout then
                   (case login_timeout_cb c of None \<Rightarrow> Inr c | Some f \<Rightarrow> on_login_timeout S f c)
                 else Inr c)
              else Inr c) (\<lambda>c.
      if loginStatus c = kLoginOk then
        (let timeout = ucast (cfg_keep_alive_time_out (cfg_loginConfig (g_config c))) :: u16 in
         if curTime - last_recv_time c > ucast timeout then
           bind_r (logout S c) (\<lambda>c.
           case connection_cb c of None \<Rightarrow> Inr c
           | Some f \<Rightarrow> on_status S f (tcp_client c) kDisConnected c)
         else Inr c)
      else Inr c))"

end
