(* ===== verification/Packet.thy ===== *)
theory Packet
  imports Client
begin

text \<open>
  The packet format of \<open>Client::send\<close> and of the loop of \<open>Client::onMessage\<close>: \<open>packet\<close> is what the
  sender builds, \<open>header_of\<close> what the receiver reads; one round of the loop is given as a function
  of the unread bytes.
\<close>

section \<open>The format\<close>

definition packet :: "u16 \<Rightarrow> u16 \<Rightarrow> byte list \<Rightarrow> byte list" where
  "packet cmd seq body =
     be_bytes (of_nat (sizeof_IMHeader + length body) :: u32) @ be_bytes kProtocolVersion @
     be_bytes (0 :: u16) @ be_bytes (0 :: u16) @ be_bytes cmd @ be_bytes seq @
     be_bytes (0 :: u16) @ body"

definition packet_len :: "byte list \<Rightarrow> u32" where
  "packet_len bs = be_word (take 4 bs)"

definition header_of :: "byte list \<Rightarrow> IMHeader" where
  "header_of bs =
     \<lparr>hdr_len = packet_len bs, hdr_version = be_word (take 2 (drop 4 bs)),
      hdr_flag = be_word (take 2 (drop 6 bs)), hdr_service_id = be_word (take 2 (drop 8 bs)),
      hdr_cmd = be_word (take 2 (drop 10 bs)), hdr_seq = be_word (take 2 (drop 12 bs)),
      hdr_reserved = be_word (take 2 (drop 14 bs))\<rparr>"

lemma length_packet [simp]: "length (packet cmd seq body) = 16 + length body"
  by (simp add: packet_def)

lemma packet_len_packet:
  "length body < 2 ^ 31 \<Longrightarrow> packet_len (packet cmd seq body @ rest) = of_nat (16 + length body)"
  by (simp add: packet_def packet_len_def sizeof_IMHeader_def be_word_be_bytes)

lemma packet_header:
  "length body < 2 ^ 31 \<Longrightarrow> header_of (packet cmd seq body @ rest) =
     \<lparr>hdr_len = of_nat (16 + length body), hdr_version = kProtocolVersion, hdr_flag = 0,
      hdr_service_id = 0, hdr_cmd = cmd, hdr_seq = seq, hdr_reserved = 0\<rparr>"
  using packet_len_packet [of body cmd seq rest]
  by (simp add: header_of_def packet_def be_word_be_bytes)

lemma packet_body: "drop 16 (packet cmd seq body @ rest) = body @ rest"
  by (simp add: packet_def)

section \<open>Building\<close>

lemma make_packet_holds:
  assumes "ml_size msg = length (ml_bytes msg)" "length (ml_bytes msg) < 2 ^ 31"
  shows "\<exists>b. make_packet cmd seq msg = Inr b \<and> holds b (packet cmd seq (ml_bytes msg))"
proof -
  let ?n = "16 + length (ml_bytes msg)"
  have n: "unat (of_nat ?n :: u32) = ?n" using assms(2) by (simp add: unat_of_nat del: of_nat_add)
  obtain b where b: "Buffer_new ?n 8 = Inr b" "holds b []" "read_index b = 8" "capacity b = 8 + ?n"
    using Buffer_new_holds [of 8 ?n] assms(2) by (auto simp: ptrdiff_max_def)
  have w: "write_index b = 8" using holds_bounds [OF b(2)] b(3) by simp
  let ?xss = "[be_bytes (of_nat ?n :: u32), be_bytes kProtocolVersion, be_bytes (0 :: u16),
      be_bytes (0 :: u16), be_bytes cmd, be_bytes seq, be_bytes (0 :: u16)]"
  obtain b' where b': "seq_r buf_put ?xss b = Inr b'" "holds b' (concat ?xss)"
      "buf_space b' = length (ml_bytes msg)"
    using bq.put_seq [OF b(2), of ?xss] w b(4) by (auto simp: buf_space_def)
  from WriteBytes_holds [OF b'(2), of "ml_bytes msg"] b'(3) obtain m b'' where
    "mem_put (buffer_mem b') (WriteBegin b') (map Some (ml_bytes msg)) = Inr m"
    "WriteBytes (length (ml_bytes msg)) (b'\<lparr>buffer_mem := m\<rparr>) = Inr b''"
    "holds b'' (concat ?xss @ ml_bytes msg)" by (auto simp: buf_space_def)
  moreover have "make_packet cmd seq msg =
      bind_r (Buffer_new ?n 8) (\<lambda>b. bind_r (seq_r buf_put ?xss b) (\<lambda>b.
      bind_r (SerializeToArray msg (WriteBegin b) b) (WriteBytes (ml_size msg))))"
    using assms(1) n
    by (simp add: make_packet_def sizeof_IMHeader_def kCheapPrependSize_def Append_ints Let_def bind_r_assoc)
  ultimately show ?thesis using assms b(1) b'(1)
    by (simp add: SerializeToArray_def INT_MAX_def packet_def sizeof_IMHeader_def del: seq_r.simps)
qed

section \<open>Reading\<close>

lemma read_header_holds:
  assumes "holds b bs" "12 \<le> length bs"
  shows "\<exists>b'. read_header len b = Inr (\<lparr>hdr_len = len, hdr_version = be_word (take 2 bs),
      hdr_flag = be_word (take 2 (drop 2 bs)), hdr_service_id = be_word (take 2 (drop 4 bs)),
      hdr_cmd = be_word (take 2 (drop 6 bs)), hdr_seq = be_word (take 2 (drop 8 bs)),
      hdr_reserved = be_word (take 2 (drop 10 bs))\<rparr>, b') \<and> holds b' (drop 12 bs) \<and>
      capacity b' = capacity b \<and> reserved_prepend_size b' = reserved_prepend_size b"
proof -
  have rd: "\<exists>b'. ReadInt16 b = Inr (be_word (take 2 (drop k bs)), b') \<and> holds b' (drop (2 + k) bs) \<and>
      capacity b' = capacity b \<and> reserved_prepend_size b' = reserved_prepend_size b"
    if "holds b (drop k bs)" "k \<le> 10" for b k
    using ReadInt16_holds [OF that(1)] that(2) assms(2) by simp
  obtain b1 where b1: "ReadInt16 b = Inr (be_word (take 2 bs), b1)" "holds b1 (drop 2 bs)"
    "capacity b1 = capacity b" "reserved_prepend_size b1 = reserved_prepend_size b"
    using rd [of b 0] assms(1) by auto
  from rd [OF b1(2)] obtain b2 where b2: "ReadInt16 b1 = Inr (be_word (take 2 (drop 2 bs)), b2)"
    "holds b2 (drop 4 bs)" "capacity b2 = capacity b" "reserved_prepend_size b2 = reserved_prepend_size b"
    using b1 by auto
  from rd [OF b2(2)] obtain b3 where b3: "ReadInt16 b2 = Inr (be_word (take 2 (drop 4 bs)), b3)"
    "holds b3 (drop 6 bs)" "capacity b3 = capacity b" "reserved_prepend_size b3 = reserved_prepend_size b"
    using b2 by auto
  from rd [OF b3(2)] obtain b4 where b4: "ReadInt16 b3 = Inr (be_word (take 2 (drop 6 bs)), b4)"
    "holds b4 (drop 8 bs)" "capacity b4 = capacity b" "reserved_prepend_size b4 = reserved_prepend_size b"
    using b3 by auto
  from rd [OF b4(2)] obtain b5 where b5: "ReadInt16 b4 = Inr (be_word (take 2 (drop 8 bs)), b5)"
    "holds b5 (drop 10 bs)" "capacity b5 = capacity b" "reserved_prepend_size b5 = reserved_prepend_size b"
    using b4 by auto
  from rd [OF b5(2)] obtain b6 where b6: "ReadInt16 b5 = Inr (be_word (take 2 (drop 10 bs)), b6)"
    "holds b6 (drop 12 bs)" "capacity b6 = capacity b" "reserved_prepend_size b6 = reserved_prepend_size b"
    using b5 by auto
  show ?thesis using b1(1) b2(1) b3(1) b4(1) b5(1) b6 by (simp add: read_header_def)
qed

text \<open>The length arithmetic of the loop: \<open>n\<close> unread bytes, of which four are the length \<open>L\<close>.\<close>

lemma reset_len_arith:
  assumes "4 \<le> n" "L \<le> n" "n < 2 ^ 31"
  shows "int_to_sz (to_int (add_sz (sub_sz (n - 4) L) 4)) = n - L"
proof -
  have "add_sz (sub_sz (n - 4) L) 4 = n - L"
  proof (cases "L \<le> n - 4")
    case True
    then show ?thesis using assms by (simp add: sub_sz_le sz_simps)
  next
    case False
    then have "sub_sz (n - 4) L = 2 ^ 64 - (L - (n - 4))" using assms by (intro sub_sz_gt) auto
    moreover have "(2 ^ 64 - (L - (n - 4))) + 4 = (n - L) + 2 ^ 64" using False assms by auto
    moreover have "((n - L) + 2 ^ 64) mod 2 ^ 64 = n - L" using assms by (simp only: mod_add_self2) simp
    ultimately show ?thesis by (simp only: add_sz_def)
  qed
  moreover have "to_int (n - L) = int (n - L)"
    using assms sint_sbintrunc' [of "int (n - L)", where 'a = 32]
    by (simp add: to_int_def signed_take_bit_int_eq_self)
  ultimately show ?thesis using assms by (simp add: int_to_sz_def)
qed

lemma too_long_arith:
  assumes "4 \<le> n" "n < 2 ^ 63" "L < 2 ^ 32"
  shows "sub_sz L 4 > n - 4 \<longleftrightarrow> L < 4 \<or> n < L"
  using assms sub_sz_gt [of L 4] sub_sz_le [of 4 L] by (cases "4 \<le> L") auto

text \<open>One round on the unread bytes \<open>bs\<close>.\<close>

definition complete :: "byte list \<Rightarrow> bool" where
  "complete bs \<longleftrightarrow>
     4 \<le> unat (packet_len bs) \<and> unat (packet_len bs) \<le> length bs \<and> packet_len bs < kMaxBufferLen"

lemma recv_round_holds:
  assumes h: "holds (recv_buffer c) bs" and n: "16 \<le> length bs" "length bs < 2 ^ 31"
  shows "\<exists>b4 b16. holds b4 (drop 4 bs) \<and> holds b16 (drop 16 bs) \<and>
     capacity b4 = capacity (recv_buffer c) \<and> capacity b16 = capacity (recv_buffer c) \<and>
     reserved_prepend_size b4 = reserved_prepend_size (recv_buffer c) \<and>
     reserved_prepend_size b16 = reserved_prepend_size (recv_buffer c) \<and>
     recv_round S c =
       (if complete bs then
          bind_r (Client_onHandleData S (header_of bs) (c\<lparr>recv_buffer := b16\<rparr>)) (\<lambda>c'.
          bind_r (buf_length (recv_buffer c')) (\<lambda>k.
          if k = length bs - unat (packet_len bs) then Inr (16 \<le> k, c') else Inl AssertFailed))
        else Inr (False, c\<lparr>recv_buffer := b4\<rparr>))"
proof -
  let ?L = "unat (packet_len bs)"
  obtain b4 where b4: "ReadInt32 (recv_buffer c) = Inr (packet_len bs, b4)" "holds b4 (drop 4 bs)"
    "capacity b4 = capacity (recv_buffer c)"
    "reserved_prepend_size b4 = reserved_prepend_size (recv_buffer c)"
    using ReadInt32_holds [OF h] n by (auto simp: packet_len_def)
  have len4: "buf_length b4 = Inr (length bs - 4)" using buf_length_holds [OF b4(2)] by simp
  have "12 \<le> length (drop 4 bs)" using n by simp
  from read_header_holds [OF b4(2) this, of "packet_len bs"] obtain b16 where
    b16: "read_header (packet_len bs) b4 = Inr (header_of bs, b16)" "holds b16 (drop 16 bs)"
      "capacity b16 = capacity b4" "reserved_prepend_size b16 = reserved_prepend_size b4"
    by (auto simp: header_of_def)
  have L: "?L < 2 ^ 32" using unsigned_less [of "packet_len bs", where ?'a = nat] by simp
  have long: "sub_sz ?L 4 > length bs - 4 \<longleftrightarrow> ?L < 4 \<or> length bs < ?L"
    using too_long_arith [of "length bs" ?L] n L by simp
  show ?thesis
  proof (cases "complete bs")
    case True
    then have arith: "int_to_sz (to_int (add_sz (sub_sz (length bs - 4) ?L) 4)) = length bs - ?L"
      using n by (intro reset_len_arith) (auto simp: complete_def)
    have "\<not> sub_sz ?L 4 > length bs - 4" "packet_len bs < kMaxBufferLen"
      using long True by (auto simp: complete_def)
    then have "recv_round S c =
        bind_r (Client_onHandleData S (header_of bs) (c\<lparr>recv_buffer := b16\<rparr>)) (\<lambda>c'.
        bind_r (buf_length (recv_buffer c')) (\<lambda>k.
        if k = length bs - ?L then Inr (16 \<le> k, c') else Inl AssertFailed))"
      by (auto simp: recv_round_def b4(1) b16(1) buf_size_def len4 arith bind_r_require
          sizeof_IMHeader_def bind_r_def Let_def split: sum.split)
    then show ?thesis using True b4 b16 by auto
  next
    case False
    then have "sub_sz ?L 4 > length bs - 4 \<or> \<not> packet_len bs < kMaxBufferLen"
      using long by (auto simp: complete_def)
    then have "recv_round S c = Inr (False, c\<lparr>recv_buffer := b4\<rparr>)"
      by (auto simp: recv_round_def b4(1) buf_size_def len4 Let_def)
    then show ?thesis using False b4 b16 by auto
  qed
qed

end
