(* ===== verification/Md5Total.thy ===== *)
theory Md5Total
  imports Md5
begin

text \<open>
  Hashing never fails, whatever the width of \<open>ulong\<close>: the buffer of a hasher always has the bytes
  its counter says it has, so no step reads an unwritten byte or leaves the buffer. The 64-bit
  build, whose digest is not that of RFC 1321, still returns 32 hexadecimal digits.
\<close>

definition buffer_index :: "'u::len md5 \<Rightarrow> nat" where
  "buffer_index m = unat (drop_bit 3 (md_count m ! 0) AND 0x3f)"

definition md5_fits :: "'u::len md5 \<Rightarrow> bool" where
  "md5_fits m \<longleftrightarrow> length (md_buffer m) = 64 \<and> None \<notin> set (take (buffer_index m) (md_buffer m))"

lemma index_mod:
  fixes c :: "'u::len word"
  assumes "9 \<le> LENGTH('u)"
  shows "unat (drop_bit 3 c AND 0x3f) = unat c div 8 mod 64"
proof -
  have m: "(0x3f :: 'u word) = mask 6" by (simp add: mask_eq_exp_minus_1)
  have "drop_bit 3 c AND 0x3f = take_bit 6 (drop_bit 3 c)" by (simp only: m take_bit_eq_mask)
  then have "unat (drop_bit 3 c AND 0x3f) = take_bit 6 (drop_bit 3 (unat c))"
    by (simp only: unsigned_take_bit_eq unat_drop_bit_eq)
  then show ?thesis by (simp add: take_bit_eq_mod drop_bit_eq_div)
qed

lemma index_step:
  fixes c :: "'u::len word"
  assumes w: "9 \<le> LENGTH('u)"
  shows "unat (drop_bit 3 (c + push_bit 3 (of_nat n)) AND 0x3f) = (unat (drop_bit 3 c AND 0x3f) + n) mod 64"
proof -
  have p: "push_bit 3 (of_nat n :: 'u word) = of_nat (8 * n)"
    by (simp add: push_bit_eq_mult mult.commute)
  have "c + of_nat (8 * n) = of_nat (unat c + 8 * n)" by simp
  then have u: "unat (c + of_nat (8 * n)) = (unat c + 8 * n) mod 2 ^ LENGTH('u)"
    by (simp only: unat_of_nat)
  obtain k where "LENGTH('u) = 9 + k" using w le_Suc_ex by blast
  then have e: "(2 :: nat) ^ LENGTH('u) = 8 * (64 * 2 ^ k)" by (simp add: power_add)
  have "x mod (8 * (64 * 2 ^ k)) div 8 mod 64 = x div 8 mod 64" for x :: nat
  proof -
    have "x mod (8 * (64 * 2 ^ k)) div 8 = x div 8 mod (64 * 2 ^ k)"
      by (simp only: mod_mult2_eq) (simp add: div_add1_eq)
    then show ?thesis by (simp add: mod_mod_cancel)
  qed
  then show ?thesis unfolding index_mod [OF w] p u e by (simp add: mod_simps add.commute)
qed

lemma transform_loop_index:
  "fst (transform_loop input i st) = i + 64 * ((length input - i) div 64)"
proof (induction input i st rule: transform_loop.induct)
  case (1 input i st)
  show ?case
  proof (cases "i + 63 < length input")
    case True
    then have "length input - i = 64 + (length input - (i + 64))" by simp
    also have "\<dots> div 64 = Suc ((length input - (i + 64)) div 64)" by simp
    finally show ?thesis using "1.IH" [OF True] True by (subst transform_loop.simps) simp
  qed (subst transform_loop.simps, simp)
qed

text \<open>What is left of the input after the blocks that were complete is the new fill of the buffer.\<close>

lemma rest_after_blocks:
  fixes i n :: nat
  assumes "i < 64" "64 - i \<le> n"
  shows "n - (64 - i + 64 * ((n - (64 - i)) div 64)) = (i + n) mod 64"
proof -
  have "n - (64 - i + 64 * ((n - (64 - i)) div 64)) = (n - (64 - i)) mod 64"
    by (simp add: minus_mult_div_eq_mod [symmetric])
  also have "\<dots> = ((n - (64 - i)) + 64) mod 64" by simp
  also have "(n - (64 - i)) + 64 = i + n" using assms by simp
  finally show ?thesis .
qed

lemma md5_update_fits:
  fixes m :: "'u::len md5"
  assumes w: "9 \<le> LENGTH('u)" and m: "md5_fits m"
  shows "\<exists>m'. md5_update xs m = Inr m' \<and> md5_fits m' \<and> \<not> md_finished m'"
proof -
  let ?i = "buffer_index m"
  have i: "?i < 64" by (simp add: buffer_index_def index_mod [OF w])
  define c where "c = [md_count m ! 0 + push_bit 3 (of_nat (length xs)),
     (if md_count m ! 0 + push_bit 3 (of_nat (length xs)) < push_bit 3 (of_nat (length xs))
      then md_count m ! 1 + 1 else md_count m ! 1) + drop_bit 29 (of_nat (length xs))]"
  have idx: "buffer_index (m\<lparr>md_finished := False, md_count := c, md_state := st, md_buffer := b\<rparr>) =
      (?i + length xs) mod 64"
    "buffer_index (m\<lparr>md_finished := False, md_count := c, md_buffer := b\<rparr>) = (?i + length xs) mod 64" for st b
    by (simp_all add: buffer_index_def c_def index_step [OF w])
  show ?thesis
  proof (cases "64 - ?i \<le> length xs")
    case True
    define p where "p = 64 - ?i"
    define b where "b = take ?i (md_buffer m) @ map Some (take p xs)"
    have full: "take ?i (md_buffer m) @ map Some (take p xs) @
        drop (?i + length (take p xs)) (md_buffer m) = b" "length b = 64"
      using m i True by (simp_all add: md5_fits_def p_def b_def)
    have "None \<notin> set b" using m by (auto simp: md5_fits_def b_def)
    then have r: "mem_read b 0 64 = Inr (map the b)"
      using full(2) by (simp add: mem_read_def mem_values_def)
    obtain st where st: "transform_loop xs p (transform (map the b) (md_state m)) =
        (p + 64 * ((length xs - p) div 64), st)"
      using transform_loop_index [of xs p "transform (map the b) (md_state m)"] by (metis prod.collapse)
    let ?k = "p + 64 * ((length xs - p) div 64)"
    have k: "length xs - ?k = (?i + length xs) mod 64"
      unfolding p_def by (rule rest_after_blocks [OF i True])
    then have lt: "length xs - ?k < 64" by simp
    let ?b' = "map Some (drop ?k xs) @ drop (length xs - ?k) b"
    have put: "mem_put (md_buffer m) ?i (map Some (take p xs)) = Inr b"
      using full m i by (simp add: mem_put_def md5_fits_def p_def)
    have put': "mem_put b 0 (map Some (drop ?k xs)) = Inr ?b'"
      using full(2) lt by (simp add: mem_put_def)
    have "md5_update xs m = Inr (m\<lparr>md_finished := False, md_count := c, md_state := st, md_buffer := ?b'\<rparr>)"
      using True put put' r st
      by (simp add: md5_update_def buffer_index_def [symmetric] p_def [symmetric] c_def Let_def)
    moreover have "md5_fits (m\<lparr>md_finished := False, md_count := c, md_state := st, md_buffer := ?b'\<rparr>)"
      using full(2) k lt unfolding md5_fits_def idx by auto
    ultimately show ?thesis by simp
  next
    case False
    let ?b = "take ?i (md_buffer m) @ map Some xs @ drop (?i + length xs) (md_buffer m)"
    have "md5_update xs m = Inr (m\<lparr>md_finished := False, md_count := c, md_buffer := ?b\<rparr>)"
      using False m i by (simp add: md5_update_def buffer_index_def [symmetric] c_def Let_def md5_fits_def)
    moreover have "md5_fits (m\<lparr>md_finished := False, md_count := c, md_buffer := ?b\<rparr>)"
      using m False i unfolding md5_fits_def idx by auto
    ultimately show ?thesis by simp
  qed
qed

lemma length_md5_encode [simp]: "length (md5_encode input n) = 4 * (n div 4)"
proof -
  have "length (concat (map f ks)) = 4 * length ks" if "\<And>i. length (f i) = 4" for f :: "nat \<Rightarrow> byte list" and ks
    using that by (induction ks) simp_all
  then show ?thesis by (simp add: md5_encode_def Let_def)
qed

lemma md5_final_ok:
  fixes m :: "'u::len md5"
  assumes "9 \<le> LENGTH('u)" "md5_fits m"
  shows "\<exists>m' ds. md5_final m = Inr m' \<and> md_digest m' = map Some ds \<and> length ds = 16"
proof -
  obtain m1 where m1: "md5_update (take (if buffer_index m < 56 then 56 - buffer_index m
      else 120 - buffer_index m) PADDING) m = Inr m1" "md5_fits m1"
    using md5_update_fits [OF assms] by blast
  obtain m2 where "md5_update (md5_encode (md_count m) 8) m1 = Inr m2"
    using md5_update_fits [OF assms(1) m1(2)] by blast
  then show ?thesis using m1(1)
    by (auto simp: md5_final_def buffer_index_def Let_def
        intro!: exI [of _ "md5_encode (md_state m2) 16"])
qed

lemma length_bytesToHexString [simp]: "length (bytesToHexString bs) = 2 * length bs"
  by (induction bs) (simp_all add: bytesToHexString_def)

lemma md5_new_fits: "md5_fits MD5"
  by (simp add: md5_fits_def MD5_def md5_reset_def buffer_index_def)

lemma md5_hex_total:
  assumes "9 \<le> LENGTH('u::len)"
  shows "\<exists>h. md5_hex TYPE('u) str = Inr h \<and> length h = 32"
proof -
  obtain m where m: "md5_update str (MD5 :: 'u md5) = Inr m" "md5_fits m" "\<not> md_finished m"
    using md5_update_fits [OF assms md5_new_fits] by blast
  then have "md5_fits (m\<lparr>md_finished := True\<rparr>)" by (simp add: md5_fits_def buffer_index_def)
  from md5_final_ok [OF assms this] obtain m' ds where
    f: "md5_final (m\<lparr>md_finished := True\<rparr>) = Inr m'" "md_digest m' = map Some ds" "length ds = 16" by blast
  show ?thesis using m f
    by (simp add: md5_hex_def md5_toString_def md5_digest_def mem_read_def)
qed

end
