(* ===== verification/ClientLaws.thy ===== *)
theory ClientLaws
  imports Packet Md5Total "HOL-Library.Multiset"
begin

text \<open>
  The invariant of \<open>Client\<close> over the network layer, and that every member keeps it. \<open>client_inv P\<close>
  counts references: \<open>P\<close> is the multiset of the clients that running handlers hold, and
  \<open>tcp_client\<close> holds one more. \<open>keeps P c r\<close> says that \<open>r\<close> is no memory fault and, where it
  returns, a state with the same invariant and the same receive buffer; it is proved of the
  members and asked of the functions the user installs.
\<close>

section \<open>The invariant\<close>

definition tcp_refs :: "'a client_scheme \<Rightarrow> nat multiset" where
  "tcp_refs c = (case tcp_client c of None \<Rightarrow> {#} | Some i \<Rightarrow> {#i#})"

definition client_inv :: "nat multiset \<Rightarrow> 'a client_scheme \<Rightarrow> bool" where
  "client_inv P c \<longleftrightarrow>
     conn_ok c \<and> P + tcp_refs c \<subseteq># mset (held c) \<and>
     (\<forall>e \<in> set (g_conn_map c). tcp_client c = Some (snd e)) \<and>
     login_status c \<noteq> kLoginOk \<and> user_id c = 0 \<and>
     length (user_name c) < 2 ^ 30 \<and> length (user_pwd c) \<le> 32"

definition keeps :: "nat multiset \<Rightarrow> 'a client_scheme \<Rightarrow> 'a client_scheme res \<Rightarrow> bool" where
  "keeps P c r \<longleftrightarrow> safe (\<lambda>c'. client_inv P c' \<and> recv_buffer c' = recv_buffer c) r"

text \<open>What is asked of the user's functions: they may do what the members do.\<close>

definition user_ok :: "'a client_scheme sdk \<Rightarrow> bool" where
  "user_ok S \<longleftrightarrow>
     (\<forall>P c. client_inv P c \<longrightarrow>
        (\<forall>f rsp. keeps P c (on_login S f rsp c)) \<and> (\<forall>f. keeps P c (on_login_timeout S f c)) \<and>
        (\<forall>f i st. keeps P c (on_status S f i st c)) \<and> (\<forall>f d. keeps P c (on_recv_msg S f d c)))"

lemma client_invD:
  assumes "client_inv P c"
  shows "conn_ok c" "P + tcp_refs c \<subseteq># mset (held c)" "login_status c \<noteq> kLoginOk"
    "e \<in> set (g_conn_map c) \<Longrightarrow> tcp_client c = Some (snd e)"
  using assms by (auto simp: client_inv_def)

lemma keeps_Inr [simp]: "keeps P c (Inr c') \<longleftrightarrow> client_inv P c' \<and> recv_buffer c' = recv_buffer c"
  by (simp add: keeps_def)

lemma keeps_Inl [simp]: "keeps P c (Inl e) \<longleftrightarrow> \<not> mem_fault e"
  by (simp add: keeps_def)

lemma keeps_bind:
  assumes "keeps P c r" "\<And>c'. client_inv P c' \<Longrightarrow> keeps P c' (f c')"
  shows "keeps P c (bind_r r f)"
proof (cases r)
  case (Inr c')
  with assms(1) have "client_inv P c'" "recv_buffer c' = recv_buffer c" by auto
  with assms(2) [OF this(1)] Inr show ?thesis by (simp add: keeps_def)
qed (use assms in simp)

lemma keeps_safe:
  assumes "keeps P c r" "\<And>c'. client_inv P c' \<Longrightarrow> recv_buffer c' = recv_buffer c \<Longrightarrow> Q c'"
  shows "safe Q r"
  using assms by (cases r) auto

text \<open>The members change some fields and leave the rest; the invariant reads few of them.\<close>

lemma client_inv_cong:
  assumes "objs c' = objs c" "held c' = held c" "g_conn_map c' = g_conn_map c" "next_obj c' = next_obj c"
    "tcp_client c' = tcp_client c" "login_status c' \<noteq> kLoginOk" "user_id c' = user_id c"
    "length (user_name c') < 2 ^ 30" "length (user_pwd c') \<le> 32" "client_inv P c"
  shows "client_inv P c'"
  using assms by (simp add: client_inv_def conn_ok_def tcp_refs_def)

text \<open>The fields of \<open>Client\<close> are the extension of the network layer's record.\<close>

lemma same_fields:
  assumes "net.more c' = net.more c"
  shows "g_config c' = g_config c" "now c' = now c" "tcp_client c' = tcp_client c"
    "recv_buffer c' = recv_buffer c" "heartbeat_timer c' = heartbeat_timer c"
    "login_status c' = login_status c" "last_login_time c' = last_login_time c"
    "last_send_time c' = last_send_time c" "last_recv_time c' = last_recv_time c"
    "login_cb c' = login_cb c" "login_timeout_cb c' = login_timeout_cb c"
    "user_name c' = user_name c" "user_pwd c' = user_pwd c" "user_id c' = user_id c"
    "connection_cb c' = connection_cb c" "client_seq c' = client_seq c" "recv_cb c' = recv_cb c"
    "client.more c' = client.more c"
  using assms by (cases c; cases c'; simp)+

lemma client_inv_fields [simp]:
  "client_inv P (c\<lparr>recv_buffer := b\<rparr>) = client_inv P c"
  "client_inv P (c\<lparr>last_send_time := x\<rparr>) = client_inv P c"
  "client_inv P (c\<lparr>client_seq := q\<rparr>) = client_inv P c"
  "client_inv P (c\<lparr>now := x\<rparr>) = client_inv P c"
  "client_inv P (c\<lparr>connection_cb := f\<rparr>) = client_inv P c"
  "client_inv P (c\<lparr>recv_cb := f\<rparr>) = client_inv P c"
  "client_inv P (c\<lparr>sent := bs\<rparr>) = client_inv P c"
  by (simp_all add: client_inv_def conn_ok_def tcp_refs_def)

lemma client_inv_more:
  assumes "client_inv P c" "conn_ok c'" "net.more c' = net.more c" "P + tcp_refs c \<subseteq># mset (held c')"
    "\<And>e. e \<in> set (g_conn_map c') \<Longrightarrow> tcp_client c = Some (snd e)"
  shows "client_inv P c'"
  using assms same_fields [OF assms(3)] by (simp add: client_inv_def tcp_refs_def)

lemma mset_held: "P + {#i#} \<subseteq># mset (held c) \<Longrightarrow> i \<in> set (held c)"
  by (metis mset_subset_eq_add_right set_mset_mset single_subset_iff subset_mset.trans)

section \<open>References of handlers\<close>

lemma hold_inv:
  assumes "client_inv P c" "objs c i = Some t"
  shows "client_inv (add_mset i P) (hold i c)"
  using assms hold_ok [of c i t]
  by (auto simp: client_inv_def tcp_refs_def hold_def)

lemma release_inv:
  assumes inv: "client_inv (add_mset i P) c"
  shows "\<exists>c'. release i c = Inr c' \<and> client_inv P c' \<and> net.more c' = net.more c \<and>
      set (g_conn_map c') \<subseteq> set (g_conn_map c) \<and> loop_is_run c' = loop_is_run c"
proof -
  have sub: "add_mset i (P + tcp_refs c) \<subseteq># mset (held c)" using client_invD(2) [OF inv] by simp
  then have "i \<in> set (held c)" by (metis mset_subset_eqD set_mset_mset union_single_eq_member)
  then obtain t where t: "objs c i = Some t" using conn_okD(3) [OF client_invD(1) [OF inv]] by blast
  from release_ok [OF client_invD(1) [OF inv] t] obtain c' where
    c': "release i c = Inr c'" "conn_ok c'" "held c' = remove1 i (held c)"
      "net.more c' = net.more c" "set (g_conn_map c') \<subseteq> set (g_conn_map c)"
      "loop_is_run c' = loop_is_run c" by blast
  have sub': "P + tcp_refs c \<subseteq># mset (held c')"
    using sub c'(3) by (simp add: insert_subset_eq_iff)
  have "client_inv P c'"
    using inv c' sub' same_fields [OF c'(4)] by (auto simp: client_inv_def tcp_refs_def)
  then show ?thesis using c' by blast
qed

lemma release_keeps:
  assumes "client_inv (add_mset i P) c"
  shows "keeps P c (release i c)"
proof -
  from release_inv [OF assms] obtain c' where
    "release i c = Inr c'" "client_inv P c'" "net.more c' = net.more c" by blast
  then show ?thesis using same_fields(4) [of c' c] by simp
qed

section \<open>logout\<close>

lemma close_inv:
  assumes inv: "client_inv P c" and i: "i \<in> set (held c)" and t: "objs c i = Some t"
  shows "\<exists>c'. TcpClient_close i c = Inr c' \<and> client_inv P c' \<and> closed i t c c' \<and>
      (\<forall>j. tcp_client c = Some j \<longrightarrow> j = i \<longrightarrow> g_conn_map c' = [])"
proof -
  have "owned i c" using i by (simp add: owned_def)
  from close_ok [OF client_invD(1) [OF inv] t this] obtain c' where
    c': "TcpClient_close i c = Inr c'" "closed i t c c'" "conn_ok c'" by blast
  have more: "net.more c' = net.more c" "held c' = held c" using c'(2) by (simp_all add: closed_def)
  have "client_inv P c'"
    by (rule client_inv_more [OF inv c'(3) more(1)])
      (use inv more closed_sub [OF c'(2)] in \<open>auto simp: client_inv_def\<close>)
  moreover have "g_conn_map c' = []" if "tcp_client c = Some i"
  proof -
    have "fst e = sock_fd t" if "e \<in> set (g_conn_map c)" for e
      using conn_okD(4) [OF client_invD(1) [OF inv], of "fst e" i t] client_invD(4) [OF inv that] that
        \<open>tcp_client c = Some i\<close> t by simp
    moreover have "0 \<le> sock_fd t" using client_invD(1) [OF inv] t by (auto simp: conn_ok_def)
    ultimately show ?thesis using c'(2) by (auto simp: closed_def kInvalidSocket_def filter_empty_conv)
  qed
  ultimately show ?thesis using c' by blast
qed

lemma logout_ok:
  assumes inv: "client_inv P c"
  shows "\<exists>c'. logout S c = Inr c' \<and> client_inv P c' \<and>
      net.more c' = net.more (c\<lparr>login_status := LoginStatus_kDefault, tcp_client := None\<rparr>) \<and>
      g_conn_map c' = [] \<and> loop_is_run c' = loop_is_run c"
proof (cases "tcp_client c")
  case None
  moreover from this have "g_conn_map c = []"
    using client_invD(4) [OF inv] by (cases "g_conn_map c") auto
  ultimately show ?thesis using inv
    by (cases c) (simp add: logout_def client_inv_def conn_ok_def tcp_refs_def)
next
  case (Some i)
  let ?c = "c\<lparr>login_status := LoginStatus_kDefault\<rparr>"
  have inv1: "client_inv P ?c"
    by (rule client_inv_cong [OF _ _ _ _ _ _ _ _ _ inv]) (use inv in \<open>auto simp: client_inv_def\<close>)
  have "P + {#i#} \<subseteq># mset (held ?c)" using client_invD(2) [OF inv] Some by (simp add: tcp_refs_def)
  then have i: "i \<in> set (held ?c)" by (rule mset_held)
  then obtain t where t: "objs ?c i = Some t" using conn_okD(3) [OF client_invD(1) [OF inv1]] by blast
  from close_inv [OF inv1 i t] Some obtain c1 where
    c1: "TcpClient_close i ?c = Inr c1" "client_inv P c1" "closed i t ?c c1" "g_conn_map c1 = []"
    by auto
  have more: "net.more c1 = net.more ?c" using c1(3) by (simp add: closed_def)
  have tcp1: "tcp_client c1 = Some i" using same_fields(3) [OF more] Some by simp
  let ?c2 = "c1\<lparr>tcp_client := None\<rparr>"
  have "client_inv (add_mset i P) ?c2"
    using c1(2,4) tcp1 by (simp add: client_inv_def tcp_refs_def conn_ok_def)
  from release_inv [OF this] obtain c2 where
    c2: "release i ?c2 = Inr c2" "client_inv P c2" "net.more c2 = net.more ?c2"
      "set (g_conn_map c2) \<subseteq> set (g_conn_map ?c2)" "loop_is_run c2 = loop_is_run ?c2" by blast
  have "logout S c = Inr c2"
    using c1(1) c2(1) Some client_invD(3) [OF inv] by (simp add: logout_def)
  moreover have "net.more c2 = net.more (c\<lparr>login_status := LoginStatus_kDefault, tcp_client := None\<rparr>)"
    using c2(3) more by (cases c; cases c1; cases c2) simp
  moreover have "loop_is_run c2 = loop_is_run c" using c2(5) c1(3) by (simp add: closed_def)
  ultimately show ?thesis using c2(2,4) c1(4) by auto
qed

lemma logout_keeps:
  assumes "client_inv P c"
  shows "keeps P c (logout S c)"
proof -
  from logout_ok [OF assms, of S] obtain c' where
    "logout S c = Inr c'" "client_inv P c'"
    "net.more c' = net.more (c\<lparr>login_status := LoginStatus_kDefault, tcp_client := None\<rparr>)" by blast
  then show ?thesis
    using same_fields(4) [of c' "c\<lparr>login_status := LoginStatus_kDefault, tcp_client := None\<rparr>"] by simp
qed

section \<open>Sending\<close>

lemma tcp_client_live:
  assumes "client_inv P c" "tcp_client c = Some i"
  shows "i \<in> set (held c)" "\<exists>t. objs c i = Some t"
proof -
  have "P + {#i#} \<subseteq># mset (held c)" using client_invD(2) [OF assms(1)] assms(2) by (simp add: tcp_refs_def)
  then show i: "i \<in> set (held c)" by (rule mset_held)
  then show "\<exists>t. objs c i = Some t" using conn_okD(3) [OF client_invD(1) [OF assms(1)]] by blast
qed

definition framable :: "message_lite \<Rightarrow> bool" where
  "framable msg \<longleftrightarrow> ml_size msg = length (ml_bytes msg) \<and> 16 + length (ml_bytes msg) < 2 ^ 31"

text \<open>A connected client puts exactly one packet on its socket; otherwise nothing is sent.\<close>

lemma send_result:
  assumes inv: "client_inv P c" and i: "tcp_client c = Some i" "objs c i = Some t"
    and msg: "framable msg"
  shows "Client_send S cmd msg c =
     (let c1 = c\<lparr>client_seq := client_seq c + 1\<rparr>;
          p = packet (ucast cmd) (client_seq c + 1) (ml_bytes msg) in
      if connect_status t = kConnectOk
      then Inr (sys_send (uv S) (length (sent c)) (sock_fd t) p,
                c1\<lparr>last_send_time := now c, sent := sent c @ [(sock_fd t, p)]\<rparr>)
      else Inr (kError, c1))"
proof -
  from msg make_packet_holds [of msg "ucast cmd" "client_seq c + 1"] obtain b where
    b: "make_packet (ucast cmd) (client_seq c + 1) msg = Inr b"
      "holds b (packet (ucast cmd) (client_seq c + 1) (ml_bytes msg))" by (auto simp: framable_def)
  have "buf_ToString b = Inr (packet (ucast cmd) (client_seq c + 1) (ml_bytes msg))"
    by (rule buf_ToString_holds [OF b(2)])
  then show ?thesis using b(1) i msg [unfolded framable_def]
    by (simp add: Client_send_def getSeq_def connStatus_def Client_send_raw_def TcpClient_send_def INT_MAX_def Let_def)
qed

lemma send_keeps:
  assumes inv: "client_inv P c" and i: "tcp_client c \<noteq> None" and msg: "framable msg"
  shows "keeps P c (bind_r (Client_send S cmd msg c) (\<lambda>(_, c). Inr c))"
proof -
  from i obtain i where i: "tcp_client c = Some i" by blast
  from tcp_client_live(2) [OF inv i] obtain t where t: "objs c i = Some t" by blast
  show ?thesis using inv by (simp add: send_result [OF inv i t msg] Let_def)
qed

lemma send_unconnected: "tcp_client c = None \<Longrightarrow> framable msg \<Longrightarrow> Client_send S cmd msg c = Inl NullDeref"
  using make_packet_holds [of msg "ucast cmd" "client_seq c + 1"]
  by (auto simp: framable_def Client_send_def getSeq_def connStatus_def Let_def)

lemma auth_req_framable:
  assumes "wire R" "length name < 2 ^ 30" "length pwd \<le> 32"
  shows "framable (auth_req R name pwd)"
proof -
  let ?m = "CIMAuthReq_new\<lparr>AuthReq_user_name := name, AuthReq_user_pwd := pwd,
     AuthReq_client_version := kClientVersion, AuthReq_client_type := kCIM_CLIENT_TYPE_PC_WINDOWS\<rparr>"
  note bd = wire.size_bounds [OF assms(1)]
  have "CIMAuthReq_ByteSizeLong R ?m \<le>
      (1 + (length name + 10)) + (1 + (length pwd + 10)) + (1 + (length kClientVersion + 10)) + (1 + 10)"
    using bd(5) [of "length name"] bd(5) [of "length pwd"] bd(5) [of "length kClientVersion"]
      bd(4) [of kCIM_CLIENT_TYPE_PC_WINDOWS] assms(2,3)
    by (simp add: CIMAuthReq_ByteSizeLong_def CIMAuthReq_new_def kClientVersion_def ascii_def)
  also have "\<dots> < 2 ^ 31 - 16" using assms(2,3) by (simp add: kClientVersion_def ascii_def)
  finally show ?thesis
    using wire.CIMAuthReq_size [OF assms(1), of ?m] by (simp add: framable_def auth_req_def Let_def)
qed

section \<open>login\<close>

text \<open>\<open>login\<close> drops the old connection, remembers who logs in, and connects a new \<open>TcpClient\<close>.\<close>

definition logging_in :: "byte list \<Rightarrow> byte list \<Rightarrow> nat option \<Rightarrow> nat option \<Rightarrow> 'a client_scheme \<Rightarrow>
    nat \<Rightarrow> 'a client_scheme \<Rightarrow> bool" where
  "logging_in name pwd cb tcb c i c' \<longleftrightarrow>
     tcp_client c' = Some i \<and> g_conn_map c' = [] \<and> loop_is_run c' = loop_is_run c \<and>
     (\<exists>t. objs c' i = Some t \<and> tcp_connection_cb t = Some kOnConnectionStatusChanged \<and>
          message_cb t = Some kOnMessage) \<and>
     md5_hex TYPE(64) pwd = Inr (user_pwd c') \<and> user_name c' = name \<and> login_status c' = kLogining \<and>
     login_cb c' = cb \<and> login_timeout_cb c' = tcb \<and> last_login_time c' = now c \<and> now c' = now c \<and>
     g_config c' = g_config c \<and> connection_cb c' = connection_cb c \<and> client_seq c' = client_seq c \<and>
     recv_buffer c' = recv_buffer c \<and> recv_cb c' = recv_cb c \<and> client.more c' = client.more c"

lemma login_run:
  assumes inv: "client_inv P c" and name: "length name < 2 ^ 30"
  shows "\<exists>i c'. client_inv P c' \<and> logging_in name pwd cb tcb c i c' \<and>
     login S name pwd cb tcb c =
       bind_r (TcpClient_connect (uv S) i (cfg_ip (cfg_serverInfo (g_config c')))
         (cfg_gatePort (cfg_serverInfo (g_config c'))) c') (\<lambda>(_, c). Inr c)"
proof -
  from logout_ok [OF inv, of S] obtain c1 where c1: "logout S c = Inr c1" "client_inv P c1"
    "net.more c1 = net.more (c\<lparr>login_status := LoginStatus_kDefault, tcp_client := None\<rparr>)"
    "g_conn_map c1 = []" "loop_is_run c1 = loop_is_run c" by blast
  note f1 = same_fields [OF c1(3)]
  from md5_hex_total [where 'u = 64, of pwd] obtain h where h: "md5_hex TYPE(64) pwd = Inr h" "length h = 32"
    by auto
  define c2 where "c2 = c1\<lparr>login_cb := cb, login_timeout_cb := tcb, login_status := kLogining,
     last_login_time := now c1, user_name := name, user_pwd := h\<rparr>"
  have inv2: "client_inv P c2"
    using c1(2) name h(2) by (simp add: c2_def client_inv_def conn_ok_def tcp_refs_def)
  have c2: "tcp_client c2 = None" "recv_buffer c2 = recv_buffer c" "g_conn_map c2 = []"
    using f1(3,4) c1(4) by (simp_all add: c2_def)
  define i where "i = next_obj c2"
  define n where "n = snd (TcpClient_new c2)"
  define c3 where "c3 = n\<lparr>tcp_client := Some i\<rparr>"
  have new: "TcpClient_new c2 = (i, n)"
    by (simp add: TcpClient_new_def i_def n_def Let_def)
  have inv3: "client_inv P c3"
    using inv2 TcpClient_new_ok(1) [OF client_invD(1) [OF inv2]] c2
    by (simp add: client_inv_def conn_ok_def tcp_refs_def c3_def n_def TcpClient_new_def Let_def i_def)
  obtain t where t: "objs c3 i = Some t" by (simp add: c3_def n_def TcpClient_new_def Let_def i_def)
  define c4 where "c4 = c3\<lparr>objs := (objs c3)(i \<mapsto> t\<lparr>tcp_connection_cb := Some kOnConnectionStatusChanged,
      message_cb := Some kOnMessage\<rparr>)\<rparr>"
  have c4: "TcpClient_setConnectionCallback i (Some kOnConnectionStatusChanged) c3 =
      Inr (c3\<lparr>objs := (objs c3)(i \<mapsto> t\<lparr>tcp_connection_cb := Some kOnConnectionStatusChanged\<rparr>)\<rparr>)"
    "setMessageCallback i (Some kOnMessage)
      (c3\<lparr>objs := (objs c3)(i \<mapsto> t\<lparr>tcp_connection_cb := Some kOnConnectionStatusChanged\<rparr>)\<rparr>) = Inr c4"
    using t by (simp_all add: TcpClient_setConnectionCallback_def setMessageCallback_def set_tcp_def c4_def)
  have "conn_ok c4" using client_invD(1) [OF inv3] t by (auto simp: conn_ok_def c4_def)
  then have inv4: "client_inv P c4" using inv3 by (simp add: client_inv_def tcp_refs_def c4_def)
  have tcp4: "tcp_client c4 = Some i" "recv_buffer c4 = recv_buffer c"
    using c2(2) by (simp_all add: c4_def c3_def n_def TcpClient_new_def Let_def)
  let ?con = "TcpClient_connect (uv S) i (cfg_ip (cfg_serverInfo (g_config c4)))
      (cfg_gatePort (cfg_serverInfo (g_config c4))) c4"
  have run: "login S name pwd cb tcb c = bind_r ?con (\<lambda>(_, c). Inr c)"
    by (simp only: login_def c1(1) bind_r_Inr Let_def h(1) c2_def [symmetric] c2(1) option.case new
        prod.case c3_def [symmetric] c4)
  have "logging_in name pwd cb tcb c i c4"
    using c2 f1 h(1) tcp4 c1(5)
    by (simp add: logging_in_def c4_def c3_def n_def c2_def TcpClient_new_def Let_def)
  with run inv4 show ?thesis by blast
qed

lemma login_keeps:
  assumes inv: "client_inv P c" and env: "env_ok (uv S)" and name: "length name < 2 ^ 30"
  shows "keeps P c (login S name pwd cb tcb c)"
    and "loop_is_run c \<Longrightarrow> \<exists>c'. login S name pwd cb tcb c = Inr c'"
proof -
  from login_run [OF inv name, of pwd cb tcb S] obtain i c4 where
    inv4: "client_inv P c4" and l: "logging_in name pwd cb tcb c i c4"
    and run: "login S name pwd cb tcb c =
       bind_r (TcpClient_connect (uv S) i (cfg_ip (cfg_serverInfo (g_config c4)))
         (cfg_gatePort (cfg_serverInfo (g_config c4))) c4) (\<lambda>(_, c). Inr c)" by blast
  let ?con = "TcpClient_connect (uv S) i (cfg_ip (cfg_serverInfo (g_config c4)))
      (cfg_gatePort (cfg_serverInfo (g_config c4))) c4"
  have tcp4: "tcp_client c4 = Some i" "recv_buffer c4 = recv_buffer c" "loop_is_run c4 = loop_is_run c"
    using l by (simp_all add: logging_in_def)
  from tcp_client_live [OF inv4 tcp4(1)] obtain t4 where t4: "i \<in> set (held c4)" "objs c4 i = Some t4" by blast
  have "keeps P c (login S name pwd cb tcb c) \<and> (loop_is_run c \<longrightarrow> (\<exists>c'. login S name pwd cb tcb c = Inr c'))"
  proof (cases ?con)
    case (Inl e)
    then have "e = AssertFailed \<and> \<not> loop_is_run c"
      using connect_ok [OF client_invD(1) [OF inv4] t4(2,1) env, of "cfg_ip (cfg_serverInfo (g_config c4))"
        "cfg_gatePort (cfg_serverInfo (g_config c4))"] tcp4(3) by simp
    then show ?thesis using run Inl by simp
  next
    case (Inr r)
    obtain ok c5 where r: "r = (ok, c5)" by (cases r)
    have c5: "conn_ok c5 \<and> held c5 = held c4 \<and> net.more c5 = net.more c4 \<and>
        (\<forall>e \<in> set (g_conn_map c5). e \<in> set (g_conn_map c4) \<or> snd e = i)"
      using connect_ok [OF client_invD(1) [OF inv4] t4(2,1) env, of "cfg_ip (cfg_serverInfo (g_config c4))"
        "cfg_gatePort (cfg_serverInfo (g_config c4))"] Inr r by simp
    have "client_inv P c5"
      by (rule client_inv_more [OF inv4]) (use c5 tcp4(1) client_invD(2,4) [OF inv4] in auto)
    moreover have "recv_buffer c5 = recv_buffer c" using c5 tcp4(2) same_fields(4) [of c5 c4] by simp
    ultimately show ?thesis using run Inr r by simp
  qed
  then show "keeps P c (login S name pwd cb tcb c)"
    and "loop_is_run c \<Longrightarrow> \<exists>c'. login S name pwd cb tcb c = Inr c'" by auto
qed

section \<open>Status changes and the timer\<close>

lemma status_keeps:
  assumes inv: "client_inv P c" and S: "user_ok S" "wire (pb S)"
    and conn: "status = kConnectOk \<longrightarrow> tcp_client c \<noteq> None"
  shows "keeps P c (onConnectionStatusChanged S conn status c)"
proof -
  have user: "keeps P c' (case connection_cb c' of None \<Rightarrow> Inr c' | Some f \<Rightarrow> on_status S f (Some conn) status c')"
    if "client_inv P c'" for c'
    using S(1) that by (auto simp: user_ok_def split: option.split)
  show ?thesis
  proof (cases "status = kConnectOk")
    case True
    have "framable (auth_req (pb S) (user_name c) (user_pwd c))"
      by (rule auth_req_framable [OF S(2)]) (use inv in \<open>simp_all add: client_inv_def\<close>)
    from send_keeps [OF inv _ this] conn True
    have "keeps P c (bind_r (Client_send S kCIM_CID_LOGIN_AUTH_REQ
        (auth_req (pb S) (user_name c) (user_pwd c)) c) (\<lambda>(_, c). Inr c))" by blast
    from keeps_bind [OF this user] show ?thesis unfolding True
      by (simp add: onConnectionStatusChanged_def)
  next
    case False
    have "keeps P c (if login_status c = kLogining then
        (case login_cb c of None \<Rightarrow> Inr c | Some f \<Rightarrow> on_login S f failed_rsp c) else Inr c)"
      using S(1) inv by (auto simp: user_ok_def split: option.split)
    from keeps_bind [OF keeps_bind [OF this logout_keeps] user] show ?thesis
      using False by (simp add: onConnectionStatusChanged_def)
  qed
qed

lemma timer_keeps:
  assumes inv: "client_inv P c" and S: "user_ok S"
  shows "keeps P c (onTimer S c)"
proof -
  have "keeps P c (if login_status c = kLogining then
      (let timeout = ucast (cfg_login_time_out (cfg_loginConfig (g_config c))) :: u16 in
       if now c - last_login_time c > ucast timeout then
         (case login_timeout_cb c of None \<Rightarrow> Inr c | Some f \<Rightarrow> on_login_timeout S f c)
       else Inr c) else Inr c)"
    using S inv by (auto simp: user_ok_def Let_def split: option.split)
  from keeps_bind [OF this] show ?thesis
    by (simp add: onTimer_def loginStatus_def Let_def client_invD(3))
qed

section \<open>Receiving\<close>

text \<open>What \<open>onHandleAuthRsp\<close> does with an answer once its bytes are skipped.\<close>

definition tell_login :: "'a client_scheme sdk \<Rightarrow> CIMAuthRsp \<Rightarrow> 'a client_scheme \<Rightarrow> 'a client_scheme res" where
  "tell_login S rsp c =
     bind_r (if AuthRsp_result_code rsp \<noteq> kCIM_ERR_SUCCESS then logout S c else Inr c) (\<lambda>c.
     case login_cb c of None \<Rightarrow> Inr c | Some f \<Rightarrow> on_login S f rsp c)"

lemma onHandleAuthRsp_tell:
  assumes "buf_ToString (recv_buffer c) = Inr bs"
  shows "onHandleAuthRsp S header c =
     (case CIMAuthRsp_ParseFromArray (pb S) bs CIMAuthRsp_new of None \<Rightarrow> Inr c
      | Some rsp \<Rightarrow> bind_r (Skip (CIMAuthRsp_ByteSizeLong (pb S) rsp) (recv_buffer c)) (\<lambda>b.
          tell_login S rsp (c\<lparr>recv_buffer := b\<rparr>)))"
  unfolding onHandleAuthRsp_def assms bind_r_Inr Let_def tell_login_def ..

lemma tell_login_keeps:
  assumes "client_inv P c" "user_ok S"
  shows "keeps P c (tell_login S rsp c)"
proof -
  have "keeps P c (if AuthRsp_result_code rsp \<noteq> kCIM_ERR_SUCCESS then logout S c else Inr c)"
    using assms(1) logout_keeps [OF assms(1)] by simp
  moreover have "keeps P c' (case login_cb c' of None \<Rightarrow> Inr c' | Some f \<Rightarrow> on_login S f rsp c')"
    if "client_inv P c'" for c'
    using assms(2) that by (auto simp: user_ok_def split: option.split)
  ultimately show ?thesis unfolding tell_login_def by (rule keeps_bind)
qed

lemma chat_keeps:
  assumes "client_inv P c" "user_ok S" "buf_ToString (recv_buffer c) = Inr bs"
  shows "keeps P c (ChatManager_onHandleData S header c)"
  using assms by (auto simp: ChatManager_onHandleData_def user_ok_def split: option.split)

text \<open>A handler takes bytes from the receive buffer and leaves it otherwise as it was.\<close>

definition received :: "nat multiset \<Rightarrow> 'a client_scheme \<Rightarrow> 'a client_scheme \<Rightarrow> bool" where
  "received P c c' \<longleftrightarrow> client_inv P c' \<and> (\<exists>bs. holds (recv_buffer c') bs) \<and>
     capacity (recv_buffer c') = capacity (recv_buffer c) \<and>
     reserved_prepend_size (recv_buffer c') = reserved_prepend_size (recv_buffer c)"

lemma received_keeps:
  assumes "keeps P c1 r" "holds (recv_buffer c1) bs" "capacity (recv_buffer c1) = capacity (recv_buffer c)"
    "reserved_prepend_size (recv_buffer c1) = reserved_prepend_size (recv_buffer c)"
  shows "safe (received P c) r"
  using assms(1) by (rule keeps_safe) (use assms(2-) in \<open>auto simp: received_def\<close>)

lemma frame_keeps:
  assumes inv: "client_inv P c" and S: "user_ok S" and h: "holds (recv_buffer c) bs"
  shows "safe (received P c) (Client_onHandleData S header c)"
proof -
  note str = buf_ToString_holds [OF h]
  have "safe (received P c) (onHandleAuthRsp S header c)"
  proof (cases "CIMAuthRsp_ParseFromArray (pb S) bs CIMAuthRsp_new")
    case None
    then show ?thesis using inv h by (auto simp: onHandleAuthRsp_tell [OF str] received_def)
  next
    case (Some rsp)
    from Skip_holds [OF h, of "CIMAuthRsp_ByteSizeLong (pb S) rsp"] obtain b where
      b: "Skip (CIMAuthRsp_ByteSizeLong (pb S) rsp) (recv_buffer c) = Inr b"
        "holds b (drop (CIMAuthRsp_ByteSizeLong (pb S) rsp) bs)" "capacity b = capacity (recv_buffer c)"
        "reserved_prepend_size b = reserved_prepend_size (recv_buffer c)" by blast
    have "client_inv P (c\<lparr>recv_buffer := b\<rparr>)" using inv by simp
    from received_keeps [OF tell_login_keeps [OF this S]] b show ?thesis
      by (simp add: onHandleAuthRsp_tell [OF str] Some)
  qed
  moreover have "safe (received P c) (ChatManager_onHandleData S header c)"
    by (rule received_keeps [OF chat_keeps [OF inv S str] h]) simp_all
  moreover from Skip_holds [OF h, of "unat (hdr_len header)"] obtain b where
    "Skip (unat (hdr_len header)) (recv_buffer c) = Inr b" "received P c (c\<lparr>recv_buffer := b\<rparr>)"
    using inv by (auto simp: received_def)
  ultimately show ?thesis by (simp add: Client_onHandleData_def)
qed

text \<open>
  The buffer between two events: empty, with room that stays bounded, since it grows only when
  its capacity is less than what arrives.
\<close>

definition buf_idle :: "buffer \<Rightarrow> bool" where
  "buf_idle b \<longleftrightarrow> holds b [] \<and> reserved_prepend_size b = 8 \<and> read_index b = 8 \<and> capacity b \<le> 2 ^ 33"

lemma recv_loop_ok:
  assumes "client_inv P c" "user_ok S" "holds (recv_buffer c) bs" "16 \<le> length bs" "length bs < 2 ^ 31"
  shows "\<exists>r. recv_loop S c = Some r \<and> safe (received P c) r"
  using assms(1,3-5)
proof (induction "length bs" arbitrary: c bs rule: less_induct)
  case less
  from recv_round_holds [OF less.prems(2-4), of S] obtain b4 b16 where
    b: "holds b4 (drop 4 bs)" "holds b16 (drop 16 bs)" "capacity b4 = capacity (recv_buffer c)"
      "capacity b16 = capacity (recv_buffer c)"
      "reserved_prepend_size b4 = reserved_prepend_size (recv_buffer c)"
      "reserved_prepend_size b16 = reserved_prepend_size (recv_buffer c)"
    and round: "recv_round S c = (if complete bs then
          bind_r (Client_onHandleData S (header_of bs) (c\<lparr>recv_buffer := b16\<rparr>)) (\<lambda>c'.
          bind_r (buf_length (recv_buffer c')) (\<lambda>k.
          if k = length bs - unat (packet_len bs) then Inr (16 \<le> k, c') else Inl AssertFailed))
        else Inr (False, c\<lparr>recv_buffer := b4\<rparr>))" by blast
  show ?case
  proof (cases "complete bs")
    case False
    then show ?thesis using round less.prems(1) b
      by (subst recv_loop.simps) (auto simp: received_def)
  next
    case True
    let ?c = "c\<lparr>recv_buffer := b16\<rparr>"
    have "client_inv P ?c" "holds (recv_buffer ?c) (drop 16 bs)" using less.prems(1) b(2) by simp_all
    note frame = frame_keeps [OF this(1) assms(2) this(2), of "header_of bs"]
    show ?thesis
    proof (cases "Client_onHandleData S (header_of bs) ?c")
      case (Inl e)
      with frame True round show ?thesis by (subst recv_loop.simps) simp
    next
      case (Inr c1)
      with frame b(4,6) obtain bs1 where
        c1: "client_inv P c1" "holds (recv_buffer c1) bs1" "received P c1 = received P c" "received P c c1"
        by (auto simp: received_def fun_eq_iff)
      have r: "recv_round S c = (if length bs1 = length bs - unat (packet_len bs)
          then Inr (16 \<le> length bs1, c1) else Inl AssertFailed)"
        using round True Inr buf_length_holds [OF c1(2)] by simp
      have "4 \<le> unat (packet_len bs)" using True by (simp add: complete_def)
      then have "length bs1 < length bs" "length bs1 < 2 ^ 31"
        if "length bs1 = length bs - unat (packet_len bs)" using that less.prems(3,4) by auto
      with less.hyps [of bs1 c1] c1 r show ?thesis
        by (subst recv_loop.simps) (auto split: if_splits)
    qed
  qed
qed

lemma onMessage_ok:
  assumes inv: "client_inv P c" and S: "user_ok S" and idle: "buf_idle (recv_buffer c)"
    and conn: "objs c conn \<noteq> None" and len: "length bs < 2 ^ 31"
  shows "safe (\<lambda>c'. client_inv P c' \<and> buf_idle (recv_buffer c')) (onMessage S conn bs c)"
proof (cases "length bs \<le> 16")
  case True
  then show ?thesis using inv idle conn by (auto simp: onMessage_def sizeof_IMHeader_def)
next
  case False
  let ?b = "recv_buffer c"
  have b: "holds ?b []" "reserved_prepend_size ?b = 8" "read_index ?b = 8" "capacity ?b \<le> 2 ^ 33"
    using idle by (auto simp: buf_idle_def)
  have w: "write_index ?b = 8" using holds_bounds [OF b(1)] b(3) by simp
  have "room ?b (length bs)" using b len by (simp add: room_def ptrdiff_max_def)
  from Write_holds [OF b(1) this] obtain b1 where
    b1: "Write (map Some bs) ?b = Inr b1" "holds b1 bs" "grown ?b (length bs) b1" by auto
  have cap: "capacity b1 \<le> 2 ^ 33" "reserved_prepend_size b1 = 8"
    using b1(3) b w len holds_bounds [OF b(1)] by (auto simp: grown_def)
  have h1: "holds (recv_buffer (c\<lparr>recv_buffer := b1\<rparr>)) bs" using b1(2) by simp
  have "client_inv P (c\<lparr>recv_buffer := b1\<rparr>)" using inv by simp
  from recv_loop_ok [OF this S h1 _ len] False obtain r where
    r: "recv_loop S (c\<lparr>recv_buffer := b1\<rparr>) = Some r"
      "safe (received P (c\<lparr>recv_buffer := b1\<rparr>)) r" by auto
  have "onMessage S conn bs c = bind_r r (\<lambda>c. Inr (c\<lparr>recv_buffer := Reset (recv_buffer c)\<rparr>))"
    using conn False b1(1) r(1) by (auto simp: onMessage_def sizeof_IMHeader_def)
  then show ?thesis using r(2) cap Reset_holds holds_inv
    by (cases r) (auto simp: buf_idle_def received_def)
qed

end
