(* ===== verification/StringUtil.thy ===== *)
theory StringUtil
  imports Prelude
begin

text \<open>
  The conversions of \<open>cim/base/util/string_util.cpp\<close>, with the \<open>std::codecvt_utf8<wchar_t>\<close> they use:
  where \<open>wchar_t\<close> has 32 bits a wide string is a list of code points, whatever the name
  \<open>UTF8ToUTF16\<close> says. Surrogates, overlong forms and numbers beyond 0x10FFFF are refused in both
  directions; \<open>std::wstring_convert\<close> then throws \<open>std::range_error\<close>.
\<close>

section \<open>One code point\<close>

type_synonym wchar = u32

definition scalar :: "nat \<Rightarrow> bool" where
  "scalar n \<longleftrightarrow> n < 0xD800 \<or> 0xE000 \<le> n \<and> n \<le> 0x10FFFF"

definition utf8_char :: "nat \<Rightarrow> nat list" where
  "utf8_char n =
     (if n < 0x80 then [n]
      else if n < 0x800 then [0xC0 + n div 64, 0x80 + n mod 64]
      else if n < 0x10000 then [0xE0 + n div 64 div 64, 0x80 + n div 64 mod 64, 0x80 + n mod 64]
      else [0xF0 + n div 64 div 64 div 64, 0x80 + n div 64 div 64 mod 64, 0x80 + n div 64 mod 64, 0x80 + n mod 64])"

text \<open>The bytes after the first one carry six bits each.\<close>

definition put6 :: "nat \<Rightarrow> nat \<Rightarrow> nat" where "put6 a x = a * 64 + x"

fun tail_bits :: "nat \<Rightarrow> nat \<Rightarrow> nat list \<Rightarrow> (nat \<times> nat list) option" where
  "tail_bits 0 acc bs = Some (acc, bs)"
| "tail_bits (Suc k) acc [] = None"
| "tail_bits (Suc k) acc (b # bs) =
     (if 0x80 \<le> b \<and> b < 0xC0 then tail_bits k (put6 acc (b - 0x80)) bs else None)"

text \<open>A code point at the front; its length is the least that can hold it.\<close>

definition utf8_next :: "nat \<Rightarrow> nat list \<Rightarrow> (nat \<times> nat list) option" where
  "utf8_next b bs =
     (let more = (\<lambda>k least acc. case tail_bits k acc bs of None \<Rightarrow> None
                    | Some (n, rest) \<Rightarrow> if least \<le> n \<and> scalar n then Some (n, rest) else None) in
      if b < 0x80 then Some (b, bs)
      else if 0xC0 \<le> b \<and> b < 0xE0 then more 1 0x80 (b - 0xC0)
      else if 0xE0 \<le> b \<and> b < 0xF0 then more 2 0x800 (b - 0xE0)
      else if 0xF0 \<le> b \<and> b < 0xF8 then more 3 0x10000 (b - 0xF0)
      else None)"

lemma tail_bits_length: "tail_bits k acc bs = Some (n, rest) \<Longrightarrow> length rest \<le> length bs"
  by (induction k acc bs rule: tail_bits.induct) (auto split: if_splits)

lemma utf8_next_length: "utf8_next b bs = Some (n, rest) \<Longrightarrow> length rest \<le> length bs"
  by (auto simp: utf8_next_def Let_def split: if_splits option.splits dest: tail_bits_length)

section \<open>The functions\<close>

function utf8_decode :: "nat list \<Rightarrow> nat list option" where
  "utf8_decode [] = Some []"
| "utf8_decode (b # bs) =
     (case utf8_next b bs of None \<Rightarrow> None
      | Some (n, rest) \<Rightarrow> (case utf8_decode rest of None \<Rightarrow> None | Some ns \<Rightarrow> Some (n # ns)))"
  by pat_completeness auto
termination
  by (relation "measure length") (auto dest: utf8_next_length simp: less_Suc_eq_le)

definition range_error :: fault where "range_error = Thrown ''std::range_error''"

definition UTF8ToUTF16 :: "byte list \<Rightarrow> wchar list res" where
  "UTF8ToUTF16 str =
     (case utf8_decode (map unat str) of None \<Rightarrow> Inl range_error | Some ns \<Rightarrow> Inr (map of_nat ns))"

definition ws2s :: "wchar list \<Rightarrow> byte list res" where
  "ws2s wstr =
     (if \<forall>c \<in> set wstr. scalar (unat c) then Inr (map of_nat (concat (map (utf8_char \<circ> unat) wstr)))
      else Inl range_error)"

section \<open>The two are inverse\<close>

lemma six_bits [simp]:
  "put6 (n div 64) (n mod 64) = n"
  "x < 64 \<Longrightarrow> put6 a x div 64 = a" "x < 64 \<Longrightarrow> put6 a x mod 64 = x"
  by (simp_all add: put6_def)

lemma tail_bits_step:
  "tail_bits (Suc k) acc bs = Some (n, rest) \<longleftrightarrow>
     (\<exists>x bs'. bs = (0x80 + x) # bs' \<and> x < 64 \<and> tail_bits k (put6 acc x) bs' = Some (n, rest))"
proof (cases bs)
  case (Cons b bs')
  show ?thesis
  proof (cases "0x80 \<le> b \<and> b < 0xC0")
    case True
    then obtain x where "b = 0x80 + x" "x < 64" using le_Suc_ex [of "0x80" b] by auto
    then show ?thesis using Cons by auto
  qed (use Cons in auto)
qed simp

lemma utf8_next_char:
  assumes "scalar n"
  shows "utf8_next (hd (utf8_char n)) (tl (utf8_char n) @ rest) = Some (n, rest)"
proof -
  have top: "n < 0x110000" using assms by (auto simp: scalar_def)
  consider "n < 0x80" | "0x80 \<le> n" "n < 0x800" | "0x800 \<le> n" "n < 0x10000" | "0x10000 \<le> n" by linarith
  then show ?thesis
  proof cases
    case 1
    then show ?thesis by (simp add: utf8_char_def utf8_next_def)
  next
    case 2
    then have "n div 64 < 32" by linarith
    with 2 show ?thesis using assms by (simp add: utf8_char_def utf8_next_def)
  next
    case 3
    then have "n div 64 div 64 < 16" by linarith
    with 3 show ?thesis using assms by (simp add: utf8_char_def utf8_next_def numeral_2_eq_2)
  next
    case 4
    have "n div 64 div 64 div 64 < 5" using top by linarith
    with 4 show ?thesis using assms by (simp add: utf8_char_def utf8_next_def numeral_3_eq_3)
  qed
qed

lemma utf8_char_next:
  assumes "utf8_next b bs = Some (n, rest)"
  shows "b # bs = utf8_char n @ rest \<and> scalar n"
proof -
  consider "b < 0x80" | a where "b = 0xC0 + a" "a < 32" | a where "b = 0xE0 + a" "a < 16"
    | a where "b = 0xF0 + a" "a < 8" | "0x80 \<le> b" "b < 0xC0" | "0xF8 \<le> b"
    using le_Suc_ex [of "0xC0" b] le_Suc_ex [of "0xE0" b] le_Suc_ex [of "0xF0" b] by fastforce
  then show ?thesis
  proof cases
    case 1
    then show ?thesis using assms by (auto simp: utf8_next_def utf8_char_def scalar_def)
  next
    case (2 a)
    then have "tail_bits (Suc 0) a bs = Some (n, rest)" "0x80 \<le> n" "scalar n"
      using assms by (auto simp: utf8_next_def Let_def split: option.splits if_splits)
    moreover have "put6 a x < 2048" if "x < 64" for x using 2(2) that by (simp add: put6_def)
    ultimately show ?thesis using 2 by (force simp: tail_bits_step utf8_char_def)
  next
    case (3 a)
    then have "tail_bits (Suc (Suc 0)) a bs = Some (n, rest)" "0x800 \<le> n" "scalar n"
      using assms by (auto simp: utf8_next_def Let_def numeral_2_eq_2 split: option.splits if_splits)
    moreover have "put6 (put6 a x) y < 65536" if "x < 64" "y < 64" for x y
      using 3(2) that by (simp add: put6_def)
    ultimately show ?thesis using 3 by (auto simp: tail_bits_step utf8_char_def)
  next
    case (4 a)
    then have "tail_bits (Suc (Suc (Suc 0))) a bs = Some (n, rest)" "0x10000 \<le> n" "scalar n"
      using assms by (auto simp: utf8_next_def Let_def numeral_3_eq_3 split: option.splits if_splits)
    then show ?thesis using 4 by (auto simp: tail_bits_step utf8_char_def)
  qed (use assms in \<open>auto simp: utf8_next_def\<close>)
qed

lemma utf8_char_nonempty: "utf8_char n = hd (utf8_char n) # tl (utf8_char n)"
  by (simp add: utf8_char_def)

lemma utf8_decode_iff: "utf8_decode bs = Some ns \<longleftrightarrow> (\<forall>n \<in> set ns. scalar n) \<and> bs = concat (map utf8_char ns)"
proof
  show "utf8_decode bs = Some ns \<Longrightarrow> (\<forall>n \<in> set ns. scalar n) \<and> bs = concat (map utf8_char ns)"
  proof (induction bs arbitrary: ns rule: utf8_decode.induct)
    case (2 b bs)
    then obtain n rest ns' where "utf8_next b bs = Some (n, rest)" "utf8_decode rest = Some ns'" "ns = n # ns'"
      by (auto split: option.splits)
    then show ?case using utf8_char_next [of b bs n rest] "2.IH" [of "(n, rest)" n rest ns'] by simp
  qed simp
next
  have "utf8_decode (concat (map utf8_char ns)) = Some ns" if "\<forall>n \<in> set ns. scalar n"
    using that
  proof (induction ns)
    case (Cons n ns)
    have "utf8_decode (utf8_char n @ concat (map utf8_char ns)) = Some (n # ns)"
      by (subst utf8_char_nonempty) (use Cons utf8_next_char [of n] in simp)
    then show ?case by simp
  qed simp
  then show "(\<forall>n \<in> set ns. scalar n) \<and> bs = concat (map utf8_char ns) \<Longrightarrow> utf8_decode bs = Some ns" by blast
qed

lemma utf8_char_bytes: "scalar n \<Longrightarrow> b \<in> set (utf8_char n) \<Longrightarrow> b < 256"
proof -
  assume n: "scalar n" and b: "b \<in> set (utf8_char n)"
  have "n < 0x110000" using n by (auto simp: scalar_def)
  then have "n div 64 div 64 div 64 < 5" by linarith
  moreover have "n div 64 < 32" if "n < 0x800" using that by linarith
  moreover have "n div 64 div 64 < 16" if "n < 0x10000" using that by linarith
  moreover have "x mod 64 < 64" for x :: nat by simp
  ultimately show "b < 256" using b by (auto simp: utf8_char_def split: if_splits)
qed

lemma utf8_bytes:
  assumes "\<forall>n \<in> set ns. scalar n"
  shows "map unat (map of_nat (concat (map utf8_char ns)) :: byte list) = concat (map utf8_char ns)"
proof -
  have "unat (of_nat b :: byte) = b" if "b \<in> set (concat (map utf8_char ns))" for b
    using that assms utf8_char_bytes by (auto simp: unat_of_nat take_bit_nat_eq_self)
  then show ?thesis unfolding map_map by (intro map_idI) simp
qed

text \<open>
  C21. The conversions are inverse to each other wherever they do not throw: \<open>UTF8ToUTF16\<close> takes a
  string to a wide string exactly when \<open>ws2s\<close> takes it back, and each throws exactly on what is not
  UTF-8, or no sequence of code points.
\<close>

theorem utf8_inverse:
  "UTF8ToUTF16 str = Inr wstr \<longleftrightarrow> ws2s wstr = Inr str"
proof
  assume "UTF8ToUTF16 str = Inr wstr"
  then obtain ns where ns: "utf8_decode (map unat str) = Some ns" "wstr = map of_nat ns"
    by (auto simp: UTF8ToUTF16_def split: option.splits)
  then have sc: "\<forall>n \<in> set ns. scalar n" and str: "map unat str = concat (map utf8_char ns)"
    by (simp_all add: utf8_decode_iff)
  have "unat (of_nat n :: wchar) = n" if "n \<in> set ns" for n
    using that sc by (auto simp: scalar_def unat_of_nat take_bit_nat_eq_self)
  then have w: "map unat wstr = ns" using ns(2) by (simp add: map_idI)
  have "map of_nat (map unat str) = str" by (simp add: map_idI)
  then have "map of_nat (concat (map utf8_char ns)) = str" using str by simp
  then show "ws2s wstr = Inr str" using sc unfolding ws2s_def map_map [symmetric] w
    by (metis (no_types, lifting) imageI list.set_map w)
next
  assume w: "ws2s wstr = Inr str"
  then have sc: "\<forall>n \<in> set (map unat wstr). scalar n"
    and "str = map of_nat (concat (map utf8_char (map unat wstr)))"
    by (auto simp: ws2s_def split: if_splits)
  then have "map unat str = concat (map utf8_char (map unat wstr))" using utf8_bytes by metis
  then have "utf8_decode (map unat str) = Some (map unat wstr)" using sc by (simp add: utf8_decode_iff)
  then show "UTF8ToUTF16 str = Inr wstr" by (simp add: UTF8ToUTF16_def map_idI)
qed

lemma UTF8ToUTF16_ascii:
  assumes "\<forall>b \<in> set s. b < 0x80"
  shows "UTF8ToUTF16 s = Inr (map ucast s)"
proof -
  have small: "unat b < 0x80" if "b \<in> set s" for b using assms that by (simp add: word_less_nat_alt)
  then have "\<forall>n \<in> set (map unat s). n < 0x80" by auto
  then have "concat (map utf8_char (map unat s)) = map unat s"
    by (induction "map unat s" arbitrary: s) (auto simp: utf8_char_def)
  moreover have "\<forall>n \<in> set (map unat s). scalar n" using small by (force simp: scalar_def)
  ultimately have "utf8_decode (map unat s) = Some (map unat s)" by (metis utf8_decode_iff)
  moreover have "of_nat (unat b) = (ucast b :: wchar)" for b :: byte by (simp add: unsigned_of_nat)
  ultimately show ?thesis by (simp add: UTF8ToUTF16_def)
qed

end
