(* ===== verification/ChatManager.thy ===== *)
theory ChatManager
  imports Client StringUtil
begin

text \<open>
  \<open>cim::core::ChatManager\<close> (\<open>cim/core/chat_manager.h\<close>, \<open>chat_manager.cpp\<close>): sending a chat
  message, installing the receive callback, and the text shown for the time of a message.
  (\<open>onHandleData\<close>, which \<open>Client\<close> calls, is in theory \<open>Client\<close>.) The calendar is the parameter
  \<open>localtime\<close>, null for a time it cannot represent; the texts are converted by \<open>UTF8ToUTF16\<close>.
\<close>

section \<open>Sending\<close>

definition c_str :: "byte list \<Rightarrow> byte list" where
  "c_str s = takeWhile (\<lambda>b. b \<noteq> 0) s"

definition chat_msg :: "u64 \<Rightarrow> u64 \<Rightarrow> u32 \<Rightarrow> byte list \<Rightarrow> CIMMsgData" where
  "chat_msg uid to msg msg_data =
     CIMMsgData_new\<lparr>MsgData_from_user_id := uid, MsgData_from_nick_name := ascii ''unknow'',
                    MsgData_msg_type := msg, MsgData_to_session_id := to,
                    MsgData_msg_data := c_str msg_data\<rparr>"

definition sendMessage ::
    "'a client_scheme sdk \<Rightarrow> u64 \<Rightarrow> u32 \<Rightarrow> byte list \<Rightarrow> 'a client_scheme \<Rightarrow> 'a client_scheme res" where
  "sendMessage S to msg msg_data c =
     (let data = chat_msg (GetUserId c) to msg msg_data in
      bind_r (Client_send S kCIM_CID_MSG_DATA
                \<lparr>ml_bytes = CIMMsgData_InternalSerialize (pb S) data,
                 ml_size = CIMMsgData_ByteSizeLong (pb S) data\<rparr> c) (\<lambda>(_, c). Inr c))"

definition setRecvMsgCallback :: "nat option \<Rightarrow> 'a client_scheme \<Rightarrow> 'a client_scheme" where
  "setRecvMsgCallback cb c = c\<lparr>recv_cb := cb\<rparr>"

section \<open>FormatMsgTime\<close>

record tm =
  tm_min :: int
  tm_hour :: int
  tm_mday :: int
  tm_mon :: int
  tm_year :: int
  tm_wday :: int

definition kTimeSpanHalfHour :: int where "kTimeSpanHalfHour = 60 * 60"
definition kTimeSpanMin :: int where "kTimeSpanMin = 10 * 60"

text \<open>The literals: just now, minutes ago, week, long ago, and the days of the week.\<close>

definition kJustNow :: "wchar list" where "kJustNow = [21018, 21018]"
definition kMinutesAgo :: "wchar list" where "kMinutesAgo = [20998, 38047, 21069]"
definition kWeek :: "wchar list" where "kWeek = [26143, 26399]"
definition kLongAgo :: "wchar list" where "kLongAgo = [24456, 20037, 20197, 21069]"

definition weekStr :: "int \<Rightarrow> wchar list" where
  "weekStr wday =
     (if wday = 0 then [22825] else if wday = 2 then [20108] else if wday = 3 then [19977]
      else if wday = 4 then [22235] else if wday = 5 then [20116] else if wday = 6 then [20845]
      else [19968])"

text \<open>\<open>strftime\<close>'s two-digit numbers and its year.\<close>

definition two_digits :: "int \<Rightarrow> byte list" where
  "two_digits n = [of_int (48 + n div 10 mod 10), of_int (48 + n mod 10)]"

definition strftime_HM :: "tm \<Rightarrow> byte list" where
  "strftime_HM t = two_digits (tm_hour t) @ [58] @ two_digits (tm_min t)"

definition strftime_md :: "tm \<Rightarrow> byte list" where
  "strftime_md t = two_digits (tm_mon t + 1) @ [47] @ two_digits (tm_mday t)"

definition strftime_Ym :: "tm \<Rightarrow> byte list" where
  "strftime_Ym t = to_string (tm_year t + 1900) @ [47] @ two_digits (tm_mon t + 1)"

definition int64_sub :: "int \<Rightarrow> int \<Rightarrow> int res" where
  "int64_sub a b = bind_r (require Overflow (\<bar>a - b\<bar> < 2 ^ 63)) (\<lambda>_. Inr (a - b))"

definition FormatMsgTime :: "(int \<Rightarrow> tm option) \<Rightarrow> int \<Rightarrow> int \<Rightarrow> wchar list res" where
  "FormatMsgTime localtime curTime msgTimeStamp =
     (case localtime curTime of None \<Rightarrow> Inl NullDeref
      | Some curDay \<Rightarrow>
      (case localtime msgTimeStamp of None \<Rightarrow> Inl NullDeref
      | Some msgDay \<Rightarrow>
        bind_r (int64_sub msgTimeStamp curTime) (\<lambda>d.
        let timeSpan = \<bar>d\<bar> in
        if timeSpan \<le> kTimeSpanMin then Inr kJustNow
        else if timeSpan \<le> kTimeSpanHalfHour then
          bind_r (UTF8ToUTF16 (to_string (timeSpan div 60))) (\<lambda>s. Inr (s @ kMinutesAgo))
        else if tm_year curDay = tm_year msgDay then
          (if tm_mday curDay = tm_mday msgDay then UTF8ToUTF16 (strftime_HM msgDay)
           else if tm_mday curDay div 7 = tm_mday msgDay div 7 then Inr (kWeek @ weekStr (tm_wday msgDay))
           else UTF8ToUTF16 (strftime_md msgDay))
        else if \<bar>tm_year msgDay - tm_year curDay\<bar> \<le> 1 then UTF8ToUTF16 (strftime_Ym msgDay)
        else Inr kLongAgo)))"

text \<open>All the texts that are converted are ASCII: the conversion does not throw.\<close>

lemma digit_ascii: "0 \<le> n \<Longrightarrow> n < 10 \<Longrightarrow> (of_int (48 + n) :: byte) < 0x80"
  by (simp add: word_less_def uint_word_of_int take_bit_eq_mod del: of_int_add)

lemma two_digits_ascii: "\<forall>b \<in> set (two_digits n). b < 0x80"
  using digit_ascii [of "n div 10 mod 10"] digit_ascii [of "n mod 10"] by (simp add: two_digits_def)

lemma digits_ascii: "\<forall>b \<in> set (digits n). b < 0x80"
proof (induction n rule: digits.induct)
  case (1 n)
  then show ?case using digit_ascii [of "int n"] digit_ascii [of "int (n mod 10)"]
    by (cases "n < 10") (simp_all add: digits.simps [of n])
qed

lemma to_string_ascii: "\<forall>b \<in> set (to_string k). b < 0x80"
  using digits_ascii by (simp add: to_string_def)

lemma strftime_ascii:
  "UTF8ToUTF16 (strftime_HM t) = Inr (map ucast (strftime_HM t))"
  "UTF8ToUTF16 (strftime_md t) = Inr (map ucast (strftime_md t))"
  "UTF8ToUTF16 (strftime_Ym t) = Inr (map ucast (strftime_Ym t))"
  "UTF8ToUTF16 (to_string k) = Inr (map ucast (to_string k))"
  using two_digits_ascii to_string_ascii
  by (intro UTF8ToUTF16_ascii; fastforce simp: strftime_HM_def strftime_md_def strftime_Ym_def)+

lemma FormatMsgTime_total:
  assumes "localtime cur \<noteq> None" "localtime msg \<noteq> None" "\<bar>msg - cur\<bar> < 2 ^ 63"
  shows "ok (FormatMsgTime localtime cur msg)"
  using assms by (auto simp: FormatMsgTime_def int64_sub_def strftime_ascii ok_def Let_def)

lemma FormatMsgTime_same_mday:
  assumes "localtime cur = Some day" "localtime msg = Some (day\<lparr>tm_mon := m, tm_hour := h, tm_min := k\<rparr>)"
    and "3600 < \<bar>msg - cur\<bar>" "\<bar>msg - cur\<bar> < 2 ^ 63"
  shows "FormatMsgTime localtime cur msg = Inr (map ucast (two_digits h @ [58] @ two_digits k))"
  using assms
  by (simp add: FormatMsgTime_def int64_sub_def kTimeSpanMin_def kTimeSpanHalfHour_def strftime_ascii)
    (simp add: strftime_HM_def)


text \<open>Seen on the fifth of March: half past eight of the fifth of January and of the fifth of June.\<close>

definition march :: tm where
  "march = \<lparr>tm_min = 0, tm_hour = 12, tm_mday = 5, tm_mon = 2, tm_year = 121, tm_wday = 5\<rparr>"


end
