(* ===== verification/ClientSafe.thy ===== *)
theory ClientSafe
  imports ClientLaws ChatManager
begin

text \<open>
  The whole client, from libuv's events down to the user's functions: \<open>client_step\<close> is one call of
  a public member or one event, and the invariant holds along every run. Properties: no handler
  ever uses a destroyed object, the receive loop ends, the client never counts as logged in, and
  what sending without a connection does.
\<close>

section \<open>The handlers of the network layer with \<open>Client\<close>'s callbacks\<close>

lemma found_tcp:
  assumes "client_inv P c" "findTcpClient nd h c = Inr (Some i)"
  shows "tcp_client c = Some i" "\<exists>t. objs c i = Some t"
proof -
  from assms(2) obtain fd where "map_of (g_conn_map c) fd = Some i"
    by (auto simp: findTcpClient_def split: if_splits option.splits)
  from client_invD(4) [OF assms(1) map_of_SomeD [OF this]] show "tcp_client c = Some i" by simp
  show "\<exists>t. objs c i = Some t" by (rule found_live [OF client_invD(1) [OF assms(1)] assms(2)])
qed

lemma find_fails: "findTcpClient nd h c = Inl e \<Longrightarrow> e = AssertFailed"
  by (auto simp: findTcpClient_def split: if_splits option.splits)

lemma set_status_keeps:
  assumes inv: "client_inv P c" and t: "objs c i = Some t" and S: "user_ok S" "wire (pb S)"
    and st: "st = kConnectOk \<longrightarrow> tcp_client c \<noteq> None"
  shows "keeps P c (setConnectionStatus (client_cbs S) i st c)"
proof -
  let ?c = "c\<lparr>objs := (objs c)(i \<mapsto> t\<lparr>connect_status := st\<rparr>)\<rparr>"
  note set = set_tcp_ok [OF client_invD(1) [OF inv] t, of "\<lambda>t. t\<lparr>connect_status := st\<rparr>", simplified]
  have inv1: "client_inv P ?c" using inv set(2) by (simp add: client_inv_def tcp_refs_def)
  have "keeps P ?c (onConnectionStatusChanged S i st ?c)"
    by (rule status_keeps [OF inv1 S]) (use st in simp)
  then show ?thesis using set(1) inv1
    by (simp add: setConnectionStatus_def client_cbs_def keeps_def split: option.split)
qed

lemma keeps_release:
  assumes "keeps (add_mset i P) c r"
  shows "keeps P c (bind_r r (release i))"
proof (cases r)
  case (Inr c')
  with assms have "client_inv (add_mset i P) c'" "recv_buffer c' = recv_buffer c" by auto
  with release_keeps [OF this(1)] Inr show ?thesis by (simp add: keeps_def)
qed (use assms in simp)

lemma lost_keeps:
  assumes inv: "client_inv P c" and t: "objs c i = Some t" and S: "user_ok S" "wire (pb S)"
  shows "keeps P c (bind_r (TcpClient_close i (hold i c)) (\<lambda>w.
           bind_r (setConnectionStatus (client_cbs S) i kDisConnected w) (release i)))"
proof -
  have inv1: "client_inv (add_mset i P) (hold i c)" by (rule hold_inv [OF inv t])
  from close_inv [OF this, of i t] t obtain c1 where
    c1: "TcpClient_close i (hold i c) = Inr c1" "client_inv (add_mset i P) c1" "closed i t (hold i c) c1"
    by auto
  then obtain t1 where t1: "objs c1 i = Some t1" by (auto simp: closed_def)
  have more: "net.more c1 = net.more c" using c1(3) by (simp add: closed_def)
  from set_status_keeps [OF c1(2) t1 S, of kDisConnected]
  have "keeps P c1 (bind_r (setConnectionStatus (client_cbs S) i kDisConnected c1) (release i))"
    by (intro keeps_release) simp
  then show ?thesis using c1(1) same_fields(4) [OF more] by (simp add: keeps_def)
qed

lemma frame_net [simp]:
  "client_inv P (uv_read_start h c) = client_inv P c" "recv_buffer (uv_read_start h c) = recv_buffer c"
  "client_inv P (free_buf b c) = client_inv P c" "recv_buffer (free_buf b c) = recv_buffer c"
  "recv_buffer (hold i c) = recv_buffer c" "tcp_client (hold i c) = tcp_client c"
  by (simp_all add: client_inv_def conn_ok_def tcp_refs_def uv_read_start_def free_buf_def hold_def)

lemma onConnect_keeps:
  assumes inv: "client_inv P c" and S: "user_ok S" "wire (pb S)"
  shows "keeps P c (onConnect nd (client_cbs S) h status c)"
proof (cases "findTcpClient nd h c")
  case (Inl e)
  then show ?thesis using find_fails [OF Inl] by (simp add: onConnect_def)
next
  case (Inr f)
  show ?thesis
  proof (cases f)
    case None
    then show ?thesis using Inr inv by (auto simp: onConnect_def bind_r_require)
  next
    case (Some i)
    obtain t where t: "objs c i = Some t" and tcp: "tcp_client c = Some i"
      using found_tcp [OF inv] Inr Some by blast
    have "keeps (add_mset i P) (hold i c) (setConnectionStatus (client_cbs S) i kConnectOk (hold i c))"
      by (rule set_status_keeps [OF hold_inv [OF inv t] _ S, where t = t]) (use t tcp in simp_all)
    then have "keeps P c (bind_r (setConnectionStatus (client_cbs S) i kConnectOk (hold i c)) (release i))"
      using keeps_release by (fastforce simp: keeps_def)
    then have "keeps P c (bind_r (bind_r (setConnectionStatus (client_cbs S) i kConnectOk (hold i c)) (release i))
        (\<lambda>c. Inr (uv_read_start h c)))"
      by (rule keeps_bind) simp
    then show ?thesis using lost_keeps [OF inv t S] Inr Some by (simp add: onConnect_def)
  qed
qed

definition idle :: "nat multiset \<Rightarrow> 'a client_scheme \<Rightarrow> bool" where
  "idle P c \<longleftrightarrow> client_inv P c \<and> buf_idle (recv_buffer c)"

lemma keeps_idle: "keeps P c r \<Longrightarrow> idle P c \<Longrightarrow> safe (idle P) r"
  by (erule keeps_safe) (simp add: idle_def)

lemma onRead_idle:
  assumes idle: "idle P c" and S: "user_ok S" "wire (pb S)" and len: "length bs < 2 ^ 31"
  shows "safe (idle P) (onRead nd (client_cbs S) h n b bs c)"
proof (cases "findTcpClient nd h c")
  case (Inl e)
  then show ?thesis using find_fails [OF Inl] idle by (auto simp: onRead_def idle_def)
next
  case (Inr f)
  have inv: "client_inv P c" using idle by (simp add: idle_def)
  show ?thesis
  proof (cases f)
    case None
    then show ?thesis using Inr idle by (auto simp: onRead_def idle_def)
  next
    case (Some i)
    obtain t where t: "objs c i = Some t" using found_tcp [OF inv] Inr Some by blast
    have idle1: "idle (add_mset i P) (hold i c)" using idle hold_inv [OF inv t] by (simp add: idle_def)
    have "safe (idle (add_mset i P)) (case message_cb t of None \<Rightarrow> Inr (hold i c)
        | Some m \<Rightarrow> on_message (client_cbs S) m i bs (hold i c))"
      using idle1 onMessage_ok [OF _ S(1) _ _ len, of "add_mset i P" "hold i c" i] t
      by (auto simp: client_cbs_def idle_def [abs_def] split: option.split)
    then have got: "safe (idle P) (bind_r (case message_cb t of None \<Rightarrow> Inr (hold i c)
        | Some m \<Rightarrow> on_message (client_cbs S) m i bs (hold i c)) (release i))"
      by (rule safe_bind) (auto simp: idle_def intro: keeps_safe [OF release_keeps])
    have lost: "safe (idle P) (bind_r (bind_r (TcpClient_close i (hold i c)) (\<lambda>w.
           bind_r (setConnectionStatus (client_cbs S) i kDisConnected w) (release i))) (\<lambda>w. Inr (free_buf b w)))"
      by (rule safe_bind [OF keeps_idle [OF lost_keeps [OF inv t S] idle]]) (simp add: idle_def)
    show ?thesis using got lost Inr Some t idle
      by (auto simp: onRead_def idle_def)
  qed
qed

section \<open>Runs\<close>

inductive client_step :: "bool \<Rightarrow> 'a client_scheme sdk \<Rightarrow> 'a client_scheme \<Rightarrow> 'a client_scheme \<Rightarrow> bool"
  for nd S where
  login: "length name < 2 ^ 30 \<Longrightarrow> login S name pwd cb tcb c = Inr c' \<Longrightarrow> client_step nd S c c'"
| logout: "logout S c = Inr c' \<Longrightarrow> client_step nd S c c'"
| set_connection_cb: "client_step nd S c (Client_setConnectionCallback f c)"
| set_recv_cb: "client_step nd S c (setRecvMsgCallback f c)"
| send: "length body < 2 ^ 30 \<Longrightarrow> sendMessage S to msg body c = Inr c' \<Longrightarrow> client_step nd S c c'"
| timer: "onTimer S c = Inr c' \<Longrightarrow> client_step nd S c c'"
| connected: "onConnect nd (client_cbs S) h status c = Inr c' \<Longrightarrow> client_step nd S c c'"
| alloc: "client_step nd S c (snd (alloc_buffer c))"
| read: "length bs < 2 ^ 31 \<Longrightarrow> onRead nd (client_cbs S) h n b bs c = Inr c' \<Longrightarrow> client_step nd S c c'"
| tick: "client_step nd S c (c\<lparr>now := t\<rparr>)"
| configure: "client_step nd S c (c\<lparr>g_config := g\<rparr>)"

lemma msg_framable:
  assumes R: "wire R" and len: "length body < 2 ^ 30"
  shows "framable \<lparr>ml_bytes = CIMMsgData_InternalSerialize R (chat_msg uid to msg body),
                   ml_size = CIMMsgData_ByteSizeLong R (chat_msg uid to msg body)\<rparr>"
proof -
  note bd = wire.size_bounds [OF R]
  have c: "length (c_str body) \<le> length body" by (simp add: c_str_def length_takeWhile_le)
  have "CIMMsgData_ByteSizeLong R (chat_msg uid to msg body) \<le>
      (1 + 10) + (1 + (length (ascii ''unknow'') + 10)) + (1 + 10) + (1 + 10) + (1 + (length (c_str body) + 10))"
    using bd(3) [of uid] bd(3) [of to] bd(4) [of msg] bd(5) [of "length (ascii ''unknow'')"]
      bd(5) [of "length (c_str body)"] c len
    by (simp add: CIMMsgData_ByteSizeLong_def chat_msg_def CIMMsgData_new_def ascii_def)
  also have "\<dots> < 2 ^ 31 - 16" using c len by (simp add: ascii_def)
  finally show ?thesis
    using wire.CIMMsgData_size [OF R, of "chat_msg uid to msg body"] by (simp add: framable_def)
qed

lemma sendMessage_keeps:
  assumes "client_inv P c" "wire (pb S)" "length body < 2 ^ 30" "tcp_client c \<noteq> None"
  shows "keeps P c (sendMessage S to msg body c)"
  using send_keeps [OF assms(1,4) msg_framable [OF assms(2,3)]] by (simp add: sendMessage_def Let_def)

lemma sendMessage_unconnected:
  assumes "wire (pb S)" "length body < 2 ^ 30" "tcp_client c = None"
  shows "sendMessage S to msg body c = Inl NullDeref"
  using send_unconnected [OF assms(3) msg_framable [OF assms(1,2)]]
  by (simp add: sendMessage_def Let_def)

lemma client_step_idle:
  assumes S: "user_ok S" "wire (pb S)" "env_ok (uv S)"
    and "client_step nd S c c'" "idle P c"
  shows "idle P c'"
  using assms(4,5)
proof cases
  case (login name pwd cb tcb)
  from assms(5) login keeps_idle [OF login_keeps(1) [OF _ S(3) login(1)] assms(5), of pwd cb tcb]
  show ?thesis by (simp add: idle_def)
next
  case logout
  from assms(5) logout keeps_idle [OF logout_keeps assms(5), of S] show ?thesis by (simp add: idle_def)
next
  case (send body to msg)
  then have "tcp_client c \<noteq> None"
    using sendMessage_unconnected [OF S(2) send(1), of c to msg] by auto
  from assms(5) send keeps_idle [OF sendMessage_keeps [OF _ S(2) send(1) this] assms(5), of to msg]
  show ?thesis by (simp add: idle_def)
next
  case timer
  from assms(5) timer keeps_idle [OF timer_keeps [OF _ S(1)] assms(5)] show ?thesis by (simp add: idle_def)
next
  case (connected h status)
  from assms(5) connected keeps_idle [OF onConnect_keeps [OF _ S(1,2)] assms(5), of nd h status]
  show ?thesis by (simp add: idle_def)
next
  case (read bs h n b)
  from onRead_idle [OF assms(5) S(1,2) read(1), of nd h n b] read show ?thesis by simp
qed (use assms(5) in \<open>auto simp: idle_def Client_setConnectionCallback_def setRecvMsgCallback_def
    alloc_buffer_def client_inv_def conn_ok_def tcp_refs_def\<close>)

lemma client_run_idle:
  assumes "user_ok S" "wire (pb S)" "env_ok (uv S)" "(client_step nd S)\<^sup>*\<^sup>* c c'" "idle P c"
  shows "idle P c'"
  using assms(4,5) by (induction rule: rtranclp_induct) (auto intro: client_step_idle [OF assms(1-3)])

text \<open>A new client over a network layer that has no connection yet.\<close>

lemma Client_new_idle:
  assumes "conn_ok c0" "g_conn_map c0 = []" "Client_new c0 = Inr c"
  shows "idle {#} c" "tcp_client c = None"
proof -
  obtain b where b: "Buffer_new 1024 8 = Inr b" "holds b []" "read_index b = 8" "capacity b = 1032"
    "reserved_prepend_size b = 8" using Buffer_new_holds [of 8 1024] by (auto simp: ptrdiff_max_def)
  with assms show "idle {#} c" "tcp_client c = None"
    by (auto simp: Client_new_def kInitialSize_def kCheapPrependSize_def registerTimer_eq Let_def idle_def
        buf_idle_def client_inv_def conn_ok_def tcp_refs_def)
qed

end
