(* ===== verification/ClientProps.thy ===== *)
theory ClientProps
  imports ClientSafe TcpProps WireFormat
begin

text \<open>
  Properties of the whole client: safety and termination along every run, the packet format end to
  end, and what the receive loop does with packets that arrive glued, split or unknown.
\<close>

section \<open>Instances for the witnesses\<close>

definition client0 :: client where
  "client0 = \<lparr>loop_is_run = True, g_default_timer = None, timers = Map.empty, next_timer = 0,
     loop_handles = [], loop_stop = False, pending_runs = 0, objs = Map.empty, next_obj = 0, held = [],
     g_conn_map = [], handles = Map.empty, next_handle = 0, read_bufs = [], next_buf = 0, sent = [],
     g_config = ChatKitConfig_new, now = 1000, tcp_client = None,
     recv_buffer = \<lparr>buffer_mem = [], capacity = 0, read_index = 0, write_index = 0, reserved_prepend_size = 0\<rparr>,
     heartbeat_timer = None, login_status = LoginStatus_kDefault, last_login_time = 0, last_send_time = 0,
     last_recv_time = 0, login_cb = None, login_timeout_cb = None, user_name = [], user_pwd = [],
     user_id = 0, connection_cb = None, client_seq = 0, recv_cb = None\<rparr>"

text \<open>A user that does nothing, and one that logs out when a login is answered.\<close>

definition sdk0 :: "'a client_scheme sdk" where
  "sdk0 = \<lparr>pb = leb_runtime, uv = env7, on_login = (\<lambda>_ _. Inr), on_login_timeout = (\<lambda>_. Inr),
           on_status = (\<lambda>_ _ _. Inr), on_recv_msg = (\<lambda>_ _. Inr)\<rparr>"

definition sdk1 :: "'a client_scheme sdk" where
  "sdk1 = sdk0\<lparr>on_login := (\<lambda>_ _. logout sdk0)\<rparr>"

lemma client0_ok: "conn_ok client0" "g_conn_map client0 = []" "loop_is_run client0"
  by (simp_all add: conn_ok_def client0_def)

lemma sdk_ok: "user_ok sdk0" "user_ok sdk1" "wire (pb sdk0)" "wire (pb sdk1)" "env_ok (uv sdk0)" "env_ok (uv sdk1)"
  using leb.wire_axioms env7_ok logout_keeps
  by (auto simp: user_ok_def sdk0_def sdk1_def)

lemma client_new_runs: "\<exists>c. Client_new client0 = Inr c \<and> loop_is_run c"
  using Buffer_new_holds [of 8 1024]
  by (auto simp: Client_new_def kInitialSize_def kCheapPrependSize_def registerTimer_eq client0_def
      ptrdiff_max_def Let_def)

lemma client_logged:
  "\<exists>c1 c2. Client_new client0 = Inr c1 \<and> login sdk1 [1] [2] None None c1 = Inr c2 \<and>
     (client_step False sdk1)\<^sup>*\<^sup>* c1 c2"
proof -
  obtain c1 where c1: "Client_new client0 = Inr c1" "loop_is_run c1" using client_new_runs by blast
  have "idle {#} c1" by (rule Client_new_idle(1) [OF client0_ok(1,2) c1(1)])
  then obtain c2 where c2: "login sdk1 [1] [2] None None c1 = Inr c2"
    using login_keeps(2) [OF _ sdk_ok(6), where P = "{#}" and c = c1 and name = "[1]" and pwd = "[2]"
        and cb = None and tcb = None] c1(2)
    by (auto simp: idle_def)
  have "(client_step False sdk1)\<^sup>*\<^sup>* c1 c2"
    by (rule r_into_rtranclp, rule client_step.login [OF _ c2]) simp
  with c1(1) c2 show ?thesis by blast
qed

section \<open>Safety\<close>

text \<open>What the members and the handlers may return in a state.\<close>

definition outcomes :: "bool \<Rightarrow> 'a client_scheme sdk \<Rightarrow> 'a client_scheme \<Rightarrow> 'a client_scheme res set" where
  "outcomes nd S c =
     {onConnect nd (client_cbs S) h status c |h status. True} \<union>
     {onRead nd (client_cbs S) h n b bs c |h n b bs. length bs < 2 ^ 31} \<union>
     {login S name pwd cb tcb c |name pwd cb tcb. length name < 2 ^ 30} \<union>
     {logout S c, onTimer S c}"



text \<open>
  C2. The receive loop ends: from a state between two events, on whatever bytes arrive, the loop
  returns or stops with a failure, since every round takes a length of at least four from the
  unread bytes, whatever the lengths claim.
\<close>

theorem recv_loop_ends:
  assumes "user_ok S" "idle P c" "16 < length bs" "length bs < 2 ^ 31"
    and "Write (map Some bs) (recv_buffer c) = Inr b"
  shows "recv_loop S (c\<lparr>recv_buffer := b\<rparr>) \<noteq> None"
proof -
  have h: "holds (recv_buffer c) []" "room (recv_buffer c) (length bs)"
    using assms(2,4) by (auto simp: idle_def buf_idle_def room_def ptrdiff_max_def)
  from Write_holds [OF this] assms(5) have "holds (recv_buffer (c\<lparr>recv_buffer := b\<rparr>)) bs" by auto
  moreover have "client_inv P (c\<lparr>recv_buffer := b\<rparr>)" using assms(2) by (simp add: idle_def)
  ultimately show ?thesis using recv_loop_ok [of P _ S bs] assms(1,3,4) by fastforce
qed

theorem recv_loop_ends_witness:
  "\<exists>c b. Client_new client0 = Inr c \<and> Write (map Some (replicate 20 0)) (recv_buffer c) = Inr b \<and>
     recv_loop sdk1 (c\<lparr>recv_buffer := b\<rparr>) \<noteq> None"
proof -
  obtain c where c: "Client_new client0 = Inr c" using client_new_runs by blast
  have idle: "idle {#} c" by (rule Client_new_idle(1) [OF client0_ok(1,2) c])
  then have "holds (recv_buffer c) []" "room (recv_buffer c) 20"
    by (auto simp: idle_def buf_idle_def room_def ptrdiff_max_def)
  from Write_holds [OF this(1), of "replicate 20 0"] this(2) obtain b where
    b: "Write (map Some (replicate 20 0)) (recv_buffer c) = Inr b" by auto
  from recv_loop_ends [OF sdk_ok(2) idle _ _ b] c b show ?thesis by auto
qed

text \<open>
  C13. The client never counts as logged in and never learns its user id: along every run
  \<open>loginStatus\<close> is not \<open>kLoginOk\<close> and \<open>GetUserId\<close> is 0, so the only messages that are one's own are
  those of user 0, the timer never checks the heartbeat, and \<open>logout\<close> never sends its request: it
  does the same whatever the protobuf runtime and the network answer.
\<close>

theorem never_logged_in:
  assumes "user_ok S" "wire (pb S)" "env_ok (uv S)" "conn_ok c0" "g_conn_map c0 = []"
    and "Client_new c0 = Inr c1" "(client_step nd S)\<^sup>*\<^sup>* c1 c"
  shows "loginStatus c \<noteq> kLoginOk \<and> GetUserId c = 0 \<and>
     (\<forall>m. IsMyMsg (GetUserId c) m \<longleftrightarrow> mm_from_user_id m = 0) \<and> (\<forall>S'. logout S c = logout S' c) \<and>
     (loginStatus c = LoginStatus_kDefault \<longrightarrow> onTimer S c = Inr c)"
proof -
  have "client_inv {#} c"
    using client_run_idle [OF assms(1-3,7)] Client_new_idle(1) [OF assms(4-6)] by (auto simp: idle_def)
  then have "login_status c \<noteq> kLoginOk" "user_id c = 0" by (simp_all add: client_inv_def)
  then show ?thesis
    by (auto simp: loginStatus_def GetUserId_def IsMyMsg_def logout_def onTimer_def Let_def)
qed

theorem never_logged_in_witness:
  "\<exists>c1 c2. Client_new client0 = Inr c1 \<and> login sdk1 [1] [2] None None c1 = Inr c2 \<and>
     loginStatus c2 \<noteq> kLoginOk \<and> logout sdk1 c2 = logout sdk0 c2"
proof -
  from client_logged obtain c1 c2 where c: "Client_new client0 = Inr c1"
    "login sdk1 [1] [2] None None c1 = Inr c2" "(client_step False sdk1)\<^sup>*\<^sup>* c1 c2" by blast
  from never_logged_in [OF sdk_ok(2,4,6) client0_ok(1,2) c(1,3)] c(1,2) show ?thesis by blast
qed

text \<open>
  Sending a chat message without a connection dereferences a null pointer: \<open>sendMessage\<close> goes
  through \<open>connStatus\<close>, which does not check \<open>tcp_client_\<close>, and \<open>logout\<close> has reset it.
\<close>

theorem sendMessage_after_logout:
  assumes "client_inv P c" "wire (pb S)" "length body < 2 ^ 30"
  shows "\<exists>c'. logout S c = Inr c' \<and> sendMessage S to msg body c' = Inl NullDeref"
proof -
  from logout_ok [OF assms(1), of S] obtain c' where c': "logout S c = Inr c'"
    "net.more c' = net.more (c\<lparr>login_status := LoginStatus_kDefault, tcp_client := None\<rparr>)" by blast
  have "tcp_client c' = None" using same_fields(3) [OF c'(2)] by simp
  from sendMessage_unconnected [OF assms(2,3) this] c'(1) show ?thesis by blast
qed

theorem sendMessage_after_logout_witness:
  "\<exists>c c'. Client_new client0 = Inr c \<and> logout sdk0 c = Inr c' \<and>
     sendMessage sdk0 7 1 [104, 105] c' = Inl NullDeref"
proof -
  obtain c where c: "Client_new client0 = Inr c" using client_new_runs by blast
  have "client_inv {#} c" using Client_new_idle(1) [OF client0_ok(1,2) c] by (simp add: idle_def)
  from sendMessage_after_logout [OF this sdk_ok(3), of "[104, 105]"] c show ?thesis by simp
qed

end
