(* ===== verification/ClientPackets.thy ===== *)
theory ClientPackets
  imports ClientProps
begin

text \<open>
  The packet protocol end to end: what \<open>send\<close> puts on the wire is what \<open>onMessage\<close> reads, the
  answer to a login reaches the callback, and what happens to packets that are split, glued,
  unknown, or chat messages.
\<close>

section \<open>One delivery\<close>

lemma onMessage_start:
  assumes "idle P c" "objs c conn \<noteq> None" "16 < length bs" "length bs < 2 ^ 31"
  shows "\<exists>b. holds b bs \<and> reserved_prepend_size b = 8 \<and> capacity b \<le> 2 ^ 33 \<and>
     onMessage S conn bs c =
       (case recv_loop S (c\<lparr>recv_buffer := b\<rparr>) of None \<Rightarrow> Inl Diverges
        | Some r \<Rightarrow> bind_r r (\<lambda>c. Inr (c\<lparr>recv_buffer := Reset (recv_buffer c)\<rparr>)))"
proof -
  let ?b = "recv_buffer c"
  have b: "holds ?b []" "reserved_prepend_size ?b = 8" "read_index ?b = 8" "capacity ?b \<le> 2 ^ 33"
    using assms(1) by (auto simp: idle_def buf_idle_def)
  have w: "write_index ?b = 8" using holds_bounds [OF b(1)] b(3) by simp
  have "room ?b (length bs)" using b assms(4) by (simp add: room_def ptrdiff_max_def)
  from Write_holds [OF b(1) this] obtain b1 where
    b1: "Write (map Some bs) ?b = Inr b1" "holds b1 bs" "grown ?b (length bs) b1" by auto
  have "capacity b1 \<le> 2 ^ 33" "reserved_prepend_size b1 = 8"
    using b1(3) b w assms(4) holds_bounds [OF b(1)] by (auto simp: grown_def)
  then show ?thesis using b1 assms(2,3) by (auto simp: onMessage_def sizeof_IMHeader_def)
qed

text \<open>The loop on unread bytes that start with a packet, and on bytes that do not.\<close>

lemma complete_packet:
  "length body < 2 ^ 31 \<Longrightarrow> complete (packet cmd seq body @ rest) \<longleftrightarrow> length body + 16 < 10240"
  by (simp add: complete_def packet_len_packet kMaxBufferLen_def word_less_nat_alt unat_of_nat
      del: of_nat_add)

lemma recv_loop_packet:
  assumes h: "holds b (packet cmd seq body @ rest)" and len: "length body + 16 < 10240" "length rest < 2 ^ 30"
  shows "\<exists>b'. holds b' (body @ rest) \<and> capacity b' = capacity b \<and>
     reserved_prepend_size b' = reserved_prepend_size b \<and>
     recv_round S (c\<lparr>recv_buffer := b\<rparr>) =
       bind_r (Client_onHandleData S \<lparr>hdr_len = of_nat (16 + length body), hdr_version = kProtocolVersion,
           hdr_flag = 0, hdr_service_id = 0, hdr_cmd = cmd, hdr_seq = seq, hdr_reserved = 0\<rparr>
           (c\<lparr>recv_buffer := b'\<rparr>)) (\<lambda>c'.
       bind_r (buf_length (recv_buffer c')) (\<lambda>k.
       if k = length rest then Inr (16 \<le> k, c') else Inl AssertFailed))"
proof -
  have L: "unat (packet_len (packet cmd seq body @ rest)) = 16 + length body"
    using len(1) by (simp add: packet_len_packet unat_of_nat del: of_nat_add)
  have "complete (packet cmd seq body @ rest)" using complete_packet len(1) by simp
  then show ?thesis
    using recv_round_holds [of "c\<lparr>recv_buffer := b\<rparr>" "packet cmd seq body @ rest" S] h len L
      packet_header [of body cmd seq rest] packet_body [of cmd seq body rest]
    by (auto simp del: of_nat_add)
qed

lemma idle_buffer: "idle P c \<Longrightarrow> buf_idle b \<Longrightarrow> idle P (c\<lparr>recv_buffer := b\<rparr>)"
  by (simp add: idle_def)

lemma Reset_idle:
  "holds b bs \<Longrightarrow> reserved_prepend_size b = 8 \<Longrightarrow> capacity b \<le> 2 ^ 33 \<Longrightarrow> buf_idle (Reset b)"
  using Reset_holds [OF holds_inv] by (auto simp: buf_idle_def)

text \<open>
  A complete packet at the front of a read, with what follows it: the handler is called with the
  packet's header, on the bytes behind the header; then the loop checks what is left.
\<close>

abbreviation packet_hdr :: "u16 \<Rightarrow> u16 \<Rightarrow> byte list \<Rightarrow> IMHeader" where
  "packet_hdr cmd sq body \<equiv> \<lparr>hdr_len = of_nat (16 + length body), hdr_version = kProtocolVersion,
     hdr_flag = 0, hdr_service_id = 0, hdr_cmd = cmd, hdr_seq = sq, hdr_reserved = 0\<rparr>"

lemma delivered:
  assumes "idle P c" "objs c conn \<noteq> None" "body \<noteq> []" "length body + 16 < 10240" "length rest < 2 ^ 30"
  obtains b where "holds b (body @ rest)" "reserved_prepend_size b = 8" "capacity b \<le> 2 ^ 33"
    "onMessage S conn (packet cmd seq body @ rest) c =
       bind_r (Client_onHandleData S (packet_hdr cmd seq body) (c\<lparr>recv_buffer := b\<rparr>)) (\<lambda>c'.
       bind_r (buf_length (recv_buffer c')) (\<lambda>k.
       if k \<noteq> length rest then Inl AssertFailed
       else if k < 16 then Inr (c'\<lparr>recv_buffer := Reset (recv_buffer c')\<rparr>)
       else case recv_loop S c' of None \<Rightarrow> Inl Diverges
            | Some r \<Rightarrow> bind_r r (\<lambda>c. Inr (c\<lparr>recv_buffer := Reset (recv_buffer c)\<rparr>))))"
proof -
  let ?bs = "packet cmd seq body @ rest"
  have len: "16 < length ?bs" "length ?bs < 2 ^ 31" using assms(3-5) by auto
  from onMessage_start [OF assms(1,2) len, of S] obtain b where
    b: "holds b ?bs" "reserved_prepend_size b = 8" "capacity b \<le> 2 ^ 33"
      "onMessage S conn ?bs c = (case recv_loop S (c\<lparr>recv_buffer := b\<rparr>) of None \<Rightarrow> Inl Diverges
        | Some r \<Rightarrow> bind_r r (\<lambda>c. Inr (c\<lparr>recv_buffer := Reset (recv_buffer c)\<rparr>)))" by blast
  from recv_loop_packet [OF b(1) assms(4,5), of S c] obtain b' where
    b': "holds b' (body @ rest)" "capacity b' = capacity b" "reserved_prepend_size b' = reserved_prepend_size b"
      "recv_round S (c\<lparr>recv_buffer := b\<rparr>) =
       bind_r (Client_onHandleData S (packet_hdr cmd seq body) (c\<lparr>recv_buffer := b'\<rparr>)) (\<lambda>c'.
       bind_r (buf_length (recv_buffer c')) (\<lambda>k.
       if k = length rest then Inr (16 \<le> k, c') else Inl AssertFailed))" by blast
  show thesis
  proof (rule that [OF b'(1)])
    let ?h = "Client_onHandleData S (packet_hdr cmd seq body) (c\<lparr>recv_buffer := b'\<rparr>)"
    show "onMessage S conn ?bs c =
       bind_r ?h (\<lambda>c'. bind_r (buf_length (recv_buffer c')) (\<lambda>k.
       if k \<noteq> length rest then Inl AssertFailed
       else if k < 16 then Inr (c'\<lparr>recv_buffer := Reset (recv_buffer c')\<rparr>)
       else case recv_loop S c' of None \<Rightarrow> Inl Diverges
            | Some r \<Rightarrow> bind_r r (\<lambda>c. Inr (c\<lparr>recv_buffer := Reset (recv_buffer c)\<rparr>))))"
    proof (cases ?h)
      case (Inr c')
      then show ?thesis using b(4) b'(4)
        by (cases "buf_length (recv_buffer c')") (simp_all add: recv_loop.simps [of S "c\<lparr>recv_buffer := b\<rparr>"])
    qed (use b(4) b'(4) in \<open>simp add: recv_loop.simps [of S "c\<lparr>recv_buffer := b\<rparr>"]\<close>)
  qed (use b b' in simp_all)
qed

lemma nothing_follows: "length ([] :: byte list) < 2 ^ 30"
  by simp

text \<open>A handler that leaves the body where it is fails the \<open>assert\<close> after it.\<close>

lemma body_unread:
  assumes "idle P c" "objs c conn \<noteq> None" "body \<noteq> []" "length body + 16 < 10240" "length rest < 2 ^ 30"
    and keep: "\<forall>b c'. holds b (body @ rest) \<and>
      Client_onHandleData S (packet_hdr cmd seq body) (c\<lparr>recv_buffer := b\<rparr>) = Inr c' \<longrightarrow> recv_buffer c' = b"
  obtains b where "holds b (body @ rest)"
    "onMessage S conn (packet cmd seq body @ rest) c =
       bind_r (Client_onHandleData S (packet_hdr cmd seq body) (c\<lparr>recv_buffer := b\<rparr>)) (\<lambda>_. Inl AssertFailed)"
proof (rule delivered [OF assms(1-5), of S cmd seq])
  fix b
  let ?h = "Client_onHandleData S (packet_hdr cmd seq body) (c\<lparr>recv_buffer := b\<rparr>)"
  assume b: "holds b (body @ rest)" and on: "onMessage S conn (packet cmd seq body @ rest) c =
       bind_r ?h (\<lambda>c'. bind_r (buf_length (recv_buffer c')) (\<lambda>k.
       if k \<noteq> length rest then Inl AssertFailed
       else if k < 16 then Inr (c'\<lparr>recv_buffer := Reset (recv_buffer c')\<rparr>)
       else case recv_loop S c' of None \<Rightarrow> Inl Diverges
            | Some r \<Rightarrow> bind_r r (\<lambda>c. Inr (c\<lparr>recv_buffer := Reset (recv_buffer c)\<rparr>))))"
  have "onMessage S conn (packet cmd seq body @ rest) c = bind_r ?h (\<lambda>_. Inl AssertFailed)"
    using on keep b buf_length_holds [OF b] assms(3) by (cases ?h) simp_all
  with b that show thesis by blast
qed

text \<open>A client of the witnesses: logging in, with the defaults, and its connection open.\<close>

definition logged :: "client \<Rightarrow> nat \<Rightarrow> bool" where
  "logged c i \<longleftrightarrow>
     idle {#} c \<and> tcp_client c = Some i \<and> objs c i \<noteq> None \<and> login_status c = kLogining \<and>
     login_cb c = Some 3 \<and> login_timeout_cb c = Some 4 \<and> g_config c = ChatKitConfig_new \<and>
     last_login_time c = 1000 \<and> recv_cb c = None"

lemma login_logged:
  assumes idle: "idle P c" and env: "env_ok (uv S)" and name: "length name < 2 ^ 30" and run: "loop_is_run c"
  shows "\<exists>c' i. login S name pwd cb tcb c = Inr c' \<and> idle P c' \<and> tcp_client c' = Some i \<and> objs c' i \<noteq> None \<and>
     login_status c' = kLogining \<and> login_cb c' = cb \<and> login_timeout_cb c' = tcb \<and> g_config c' = g_config c \<and>
     last_login_time c' = now c \<and> user_name c' = name \<and> recv_cb c' = recv_cb c \<and> client.more c' = client.more c"
proof -
  from idle have inv: "client_inv P c" by (simp add: idle_def)
  obtain c2 where c2: "login S name pwd cb tcb c = Inr c2" using login_keeps(2) [OF inv env name run] by blast
  have idle2: "idle P c2" using keeps_idle [OF login_keeps(1) [OF inv env name] idle, of pwd cb tcb] c2
    by simp
  from login_run [OF inv name, of pwd cb tcb S] obtain i c4 where
    inv4: "client_inv P c4" and l: "logging_in name pwd cb tcb c i c4"
    and con: "login S name pwd cb tcb c =
       bind_r (TcpClient_connect (uv S) i (cfg_ip (cfg_serverInfo (g_config c4)))
         (cfg_gatePort (cfg_serverInfo (g_config c4))) c4) (\<lambda>(_, c). Inr c)" by blast
  have "tcp_client c4 = Some i" using l by (simp add: logging_in_def)
  from tcp_client_live [OF inv4 this] obtain t where t: "i \<in> set (held c4)" "objs c4 i = Some t" by blast
  let ?con = "TcpClient_connect (uv S) i (cfg_ip (cfg_serverInfo (g_config c4)))
         (cfg_gatePort (cfg_serverInfo (g_config c4))) c4"
  have "bind_r ?con (\<lambda>(_, c). Inr c) = Inr c2" using con c2 by simp
  then obtain r where "?con = Inr (r, c2)" unfolding bind_r_eq_Inr by auto
  then have m: "objs c2 i \<noteq> None" "net.more c2 = net.more c4"
    using connect_ok [OF client_invD(1) [OF inv4] t(2,1) env, of "cfg_ip (cfg_serverInfo (g_config c4))"
        "cfg_gatePort (cfg_serverInfo (g_config c4))"] by simp_all
  then show ?thesis using c2 idle2 same_fields [OF m(2)] l
    by (intro exI [of _ c2] exI [of _ i]) (simp add: logging_in_def)
qed

lemma logged_ex: "\<exists>c i. logged c i"
proof -
  obtain c1 where c1: "Client_new client0 = Inr c1" "loop_is_run c1" using client_new_runs by blast
  have f: "g_config c1 = ChatKitConfig_new" "recv_cb c1 = None" "now c1 = 1000"
    using c1(1) by (auto simp: Client_new_def registerTimer_eq client0_def bind_r_eq_Inr Let_def)
  have "idle {#} c1" by (rule Client_new_idle(1) [OF client0_ok(1,2) c1(1)])
  from login_logged [OF this sdk_ok(5), of "[1]" "[2]" "Some 3" "Some 4"] c1(2) f show ?thesis
    by (auto simp: logged_def)
qed

section \<open>Sending and receiving\<close>

text \<open>
  C3. What a connected client sends for a message is one packet on its socket, numbered by the
  next sequence number; the receive loop that finds it at the front of its buffer, whatever
  follows, hands exactly this header, and the body at the front of the buffer, to the handler.
\<close>

theorem packet_roundtrip:
  assumes "client_inv P c" "tcp_client c = Some i" "objs c i = Some t" "connect_status t = kConnectOk"
    and "framable msg" "length (ml_bytes msg) + 16 < 10240" "length rest < 2 ^ 30"
  shows "\<exists>p c'. Client_send S cmd msg c = Inr (sys_send (uv S) (length (sent c)) (sock_fd t) p, c') \<and>
     sent c' = sent c @ [(sock_fd t, p)] \<and> client_seq c' = client_seq c + 1 \<and>
     (\<forall>S' d b. holds b (p @ rest) \<longrightarrow>
       (\<exists>b'. holds b' (ml_bytes msg @ rest) \<and>
         recv_round S' (d\<lparr>recv_buffer := b\<rparr>) =
           bind_r (Client_onHandleData S' \<lparr>hdr_len = of_nat (16 + length (ml_bytes msg)),
             hdr_version = kProtocolVersion, hdr_flag = 0, hdr_service_id = 0, hdr_cmd = ucast cmd,
             hdr_seq = client_seq c', hdr_reserved = 0\<rparr> (d\<lparr>recv_buffer := b'\<rparr>)) (\<lambda>d'.
           bind_r (buf_length (recv_buffer d')) (\<lambda>k.
           if k = length rest then Inr (16 \<le> k, d') else Inl AssertFailed))))"
proof -
  let ?p = "packet (ucast cmd) (client_seq c + 1) (ml_bytes msg)"
  have "\<exists>b'. holds b' (ml_bytes msg @ rest) \<and>
         recv_round S' (d\<lparr>recv_buffer := b\<rparr>) =
           bind_r (Client_onHandleData S' \<lparr>hdr_len = of_nat (16 + length (ml_bytes msg)),
             hdr_version = kProtocolVersion, hdr_flag = 0, hdr_service_id = 0, hdr_cmd = ucast cmd,
             hdr_seq = client_seq c + 1, hdr_reserved = 0\<rparr> (d\<lparr>recv_buffer := b'\<rparr>)) (\<lambda>d'.
           bind_r (buf_length (recv_buffer d')) (\<lambda>k.
           if k = length rest then Inr (16 \<le> k, d') else Inl AssertFailed))"
    if "holds b (?p @ rest)" for S' :: "'b client_scheme sdk" and d b
    using recv_loop_packet [OF that assms(6,7), of S' d] by blast
  then show ?thesis
    by (simp add: send_result [OF assms(1,2,3,5)] assms(4) Let_def del: of_nat_add)
qed

section \<open>Split, glued and unknown packets\<close>

text \<open>
  C16. A packet that arrives in two reads is lost: any proper part of its beginning, and even a
  complete packet with an empty body, leaves the client as it was, with nothing called and
  nothing kept of it.
\<close>

theorem split_packet_lost:
  assumes "idle P c" "objs c conn \<noteq> None" "length body + 16 < 10240"
    and "n < 16 + length body \<or> body = []"
  shows "\<exists>b. onMessage S conn (take n (packet cmd seq body)) c = Inr (c\<lparr>recv_buffer := b\<rparr>) \<and> buf_idle b"
proof (cases "length (take n (packet cmd seq body)) \<le> 16")
  case True
  moreover have "c\<lparr>recv_buffer := recv_buffer c\<rparr> = c" by simp
  ultimately show ?thesis using assms(1,2)
    by (intro exI [of _ "recv_buffer c"]) (auto simp: onMessage_def sizeof_IMHeader_def idle_def)
next
  case False
  let ?bs = "take n (packet cmd seq body)"
  have n: "16 < n" "n < 16 + length body" using False assms(4) by auto
  have bs: "length ?bs = n" using n by simp
  have "take 4 ?bs = take 4 (packet cmd seq body @ [])" using n by (simp add: min_def)
  then have "packet_len ?bs = of_nat (16 + length body)"
    using packet_len_packet [of body cmd seq "[]"] assms(3) by (simp add: packet_len_def)
  then have nc: "\<not> complete ?bs"
    using n assms(3) bs by (simp add: complete_def unat_of_nat del: of_nat_add)
  from onMessage_start [OF assms(1,2), of ?bs S] n bs assms(3) obtain b where
    b: "holds b ?bs" "reserved_prepend_size b = 8" "capacity b \<le> 2 ^ 33"
      "onMessage S conn ?bs c = (case recv_loop S (c\<lparr>recv_buffer := b\<rparr>) of None \<Rightarrow> Inl Diverges
        | Some r \<Rightarrow> bind_r r (\<lambda>c. Inr (c\<lparr>recv_buffer := Reset (recv_buffer c)\<rparr>)))" by auto
  from recv_round_holds [of "c\<lparr>recv_buffer := b\<rparr>" ?bs S] b(1) n bs assms(3) nc obtain b4 where
    b4: "holds b4 (drop 4 ?bs)" "capacity b4 = capacity b" "reserved_prepend_size b4 = reserved_prepend_size b"
      "recv_round S (c\<lparr>recv_buffer := b\<rparr>) = Inr (False, c\<lparr>recv_buffer := b4\<rparr>)" by auto
  then have "recv_loop S (c\<lparr>recv_buffer := b\<rparr>) = Some (Inr (c\<lparr>recv_buffer := b4\<rparr>))"
    by (subst recv_loop.simps) simp
  then show ?thesis using b b4 Reset_idle [OF b4(1)] by auto
qed

theorem split_packet_lost_witness:
  "\<exists>c i b. logged c i \<and> onMessage sdk0 i (take 19 (packet 5 1 [1, 2, 3, 4])) c = Inr (c\<lparr>recv_buffer := b\<rparr>)"
proof -
  from logged_ex obtain c i where l: "logged c i" by blast
  then have "idle {#} c" "objs c i \<noteq> None" by (simp_all add: logged_def)
  from split_packet_lost [OF this, of "[1, 2, 3, 4]" 19 sdk0 5 1] l show ?thesis by auto
qed

text \<open>
  C17. A packet with an unknown command is ignored when it arrives alone; followed by anything, it
  ends the process: the handler skips the whole length although the header has been read already,
  16 bytes too many, and the \<open>assert\<close> on what is left fails.
\<close>

theorem unknown_packet:
  assumes "idle P c" "objs c conn \<noteq> None" "body \<noteq> []" "length body + 16 < 10240" "length rest < 2 ^ 30"
    and "cmd \<noteq> ucast kCIM_CID_LOGIN_AUTH_RSP" "cmd \<noteq> ucast kCIM_CID_MSG_DATA"
  shows "if rest = []
     then \<exists>b. onMessage S conn (packet cmd seq body) c = Inr (c\<lparr>recv_buffer := b\<rparr>) \<and> buf_idle b
     else onMessage S conn (packet cmd seq body @ rest) c = Inl AssertFailed"
proof (rule delivered [OF assms(1-5), of S cmd seq])
  fix b
  assume b: "holds b (body @ rest)" "reserved_prepend_size b = 8" "capacity b \<le> 2 ^ 33"
    and on: "onMessage S conn (packet cmd seq body @ rest) c =
       bind_r (Client_onHandleData S (packet_hdr cmd seq body) (c\<lparr>recv_buffer := b\<rparr>)) (\<lambda>c'.
       bind_r (buf_length (recv_buffer c')) (\<lambda>k.
       if k \<noteq> length rest then Inl AssertFailed
       else if k < 16 then Inr (c'\<lparr>recv_buffer := Reset (recv_buffer c')\<rparr>)
       else case recv_loop S c' of None \<Rightarrow> Inl Diverges
            | Some r \<Rightarrow> bind_r r (\<lambda>c. Inr (c\<lparr>recv_buffer := Reset (recv_buffer c)\<rparr>))))"
  have L: "unat (of_nat (16 + length body) :: u32) = 16 + length body"
    using assms(4) by (simp add: unat_of_nat del: of_nat_add)
  from Skip_holds [OF b(1), of "16 + length body"] obtain b2 where
    b2: "Skip (16 + length body) b = Inr b2" "holds b2 (drop 16 rest)" "capacity b2 = capacity b"
      "reserved_prepend_size b2 = reserved_prepend_size b" by auto
  have "Client_onHandleData S (packet_hdr cmd seq body) (c\<lparr>recv_buffer := b\<rparr>) = Inr (c\<lparr>recv_buffer := b2\<rparr>)"
    using assms(6,7) b2(1) L by (simp add: Client_onHandleData_def del: of_nat_add)
  then show ?thesis
    using on buf_length_holds [OF b2(2)] Reset_idle [OF b2(2)] b b2(3,4) by (cases rest) auto
qed

theorem unknown_packet_witness:
  "\<exists>c i. logged c i \<and> onMessage sdk0 i (packet 5 1 [1, 2, 3, 4] @ [0, 0]) c = Inl AssertFailed"
proof -
  from logged_ex obtain c i where l: "logged c i" by blast
  then have "idle {#} c" "objs c i \<noteq> None" by (simp_all add: logged_def)
  from unknown_packet [OF this, of "[1, 2, 3, 4]" "[0, 0]" 5 sdk0 1] l show ?thesis
    by (auto simp: kCIM_CID_LOGIN_AUTH_RSP_def kCIM_CID_MSG_DATA_def)
qed

lemma chat_handler:
  "hdr_cmd header = ucast kCIM_CID_MSG_DATA \<Longrightarrow>
     Client_onHandleData S header c = ChatManager_onHandleData S header c"
  by (simp add: Client_onHandleData_def kCIM_CID_MSG_DATA_def kCIM_CID_LOGIN_AUTH_RSP_def)

lemma ChatManager_keeps_buffer:
  assumes "idle P c" "user_ok S" "holds b bs" "ChatManager_onHandleData S header (c\<lparr>recv_buffer := b\<rparr>) = Inr c'"
  shows "recv_buffer c' = b"
  using chat_keeps [of P "c\<lparr>recv_buffer := b\<rparr>" S bs header] assms by (simp add: idle_def buf_ToString_holds)

text \<open>
  C14. Every chat message with a text ends the process: the receive callback gets it, but nothing
  skips the body in the buffer, so the \<open>assert\<close> on what is left fails (unless the callback has
  failed already). No delivery of a \<open>kCIM_CID_MSG_DATA\<close> packet returns.
\<close>

theorem chat_message_stops:
  assumes "idle P c" "user_ok S" "objs c conn \<noteq> None" "body \<noteq> []" "length body + 16 < 10240"
    and "length rest < 2 ^ 30"
  shows "\<exists>e. onMessage S conn (packet (ucast kCIM_CID_MSG_DATA) seq body @ rest) c = Inl e \<and>
     (recv_cb c = None \<longrightarrow> e = AssertFailed)"
proof -
  let ?hd = "packet_hdr (ucast kCIM_CID_MSG_DATA) seq body"
  have "\<forall>b c'. holds b (body @ rest) \<and> Client_onHandleData S ?hd (c\<lparr>recv_buffer := b\<rparr>) = Inr c' \<longrightarrow>
      recv_buffer c' = b"
    by (auto simp: chat_handler dest: ChatManager_keeps_buffer [OF assms(1,2)])
  from body_unread [OF assms(1,3-6) this] obtain b where
    "onMessage S conn (packet (ucast kCIM_CID_MSG_DATA) seq body @ rest) c =
       bind_r (Client_onHandleData S ?hd (c\<lparr>recv_buffer := b\<rparr>)) (\<lambda>_. Inl AssertFailed)" by blast
  then show ?thesis
    by (cases "ChatManager_onHandleData S ?hd (c\<lparr>recv_buffer := b\<rparr>)")
      (auto simp: chat_handler ChatManager_onHandleData_def simp del: of_nat_add)
qed

theorem chat_message_stops_witness:
  "\<exists>c i. logged c i \<and> onMessage sdk0 i (packet 769 1 [1, 2]) c = Inl AssertFailed"
proof -
  from logged_ex obtain c i where l: "logged c i" by blast
  then have "idle {#} c" "objs c i \<noteq> None" "recv_cb c = None" by (simp_all add: logged_def)
  from chat_message_stops [OF this(1) sdk_ok(1) this(2), of "[1, 2]" "[]" 1] this(3) l show ?thesis
    by (auto simp: kCIM_CID_MSG_DATA_def)
qed

section \<open>Logging in\<close>

lemma auth_answer_run:
  assumes "idle P c" "user_ok S" "wire (pb S)" "objs c conn \<noteq> None"
    and "CIMAuthRsp_valid (pb S) rsp" "body = CIMAuthRsp_InternalSerialize (pb S) rsp"
    and "body \<noteq> []" "length body + 16 < 10240"
  shows "\<exists>b. holds b [] \<and> buf_idle (Reset b) \<and>
     onMessage S conn (packet (ucast kCIM_CID_LOGIN_AUTH_RSP) seq body) c =
       bind_r (tell_login S rsp (c\<lparr>recv_buffer := b\<rparr>)) (\<lambda>c. Inr (c\<lparr>recv_buffer := Reset b\<rparr>))"
proof (rule delivered [OF assms(1,4,7,8) nothing_follows, of S "ucast kCIM_CID_LOGIN_AUTH_RSP" seq])
  let ?hd = "packet_hdr (ucast kCIM_CID_LOGIN_AUTH_RSP) seq body"
  fix b1
  assume b1: "holds b1 (body @ [])" "reserved_prepend_size b1 = 8" "capacity b1 \<le> 2 ^ 33"
    and on: "onMessage S conn (packet (ucast kCIM_CID_LOGIN_AUTH_RSP) seq body @ []) c =
       bind_r (Client_onHandleData S ?hd (c\<lparr>recv_buffer := b1\<rparr>)) (\<lambda>c'.
       bind_r (buf_length (recv_buffer c')) (\<lambda>k.
       if k \<noteq> length ([] :: byte list) then Inl AssertFailed
       else if k < 16 then Inr (c'\<lparr>recv_buffer := Reset (recv_buffer c')\<rparr>)
       else case recv_loop S c' of None \<Rightarrow> Inl Diverges
            | Some r \<Rightarrow> bind_r r (\<lambda>c. Inr (c\<lparr>recv_buffer := Reset (recv_buffer c)\<rparr>))))"
  have size: "CIMAuthRsp_ByteSizeLong (pb S) rsp = length body"
    using wire.CIMAuthRsp_size [OF assms(3), of rsp] assms(6) by simp
  have parse: "CIMAuthRsp_ParseFromArray (pb S) body CIMAuthRsp_new = Some rsp"
    unfolding assms(6) by (rule wire.CIMAuthRsp_roundtrip [OF assms(3,5)])
  from Skip_holds [OF b1(1), of "length body"] obtain b2 where
    b2: "Skip (length body) b1 = Inr b2" "holds b2 []" "capacity b2 = capacity b1"
      "reserved_prepend_size b2 = reserved_prepend_size b1" by auto
  let ?c = "c\<lparr>recv_buffer := b2\<rparr>"
  have handler: "Client_onHandleData S ?hd (c\<lparr>recv_buffer := b1\<rparr>) = tell_login S rsp ?c"
    using buf_ToString_holds [OF b1(1)] parse size b2(1)
    by (simp add: Client_onHandleData_def onHandleAuthRsp_tell)
  have "client_inv P ?c" using assms(1) by (simp add: idle_def)
  from tell_login_keeps [OF this assms(2), of rsp]
  have "onMessage S conn (packet (ucast kCIM_CID_LOGIN_AUTH_RSP) seq body) c =
      bind_r (tell_login S rsp ?c) (\<lambda>c. Inr (c\<lparr>recv_buffer := Reset b2\<rparr>))"
    using on handler buf_length_holds [OF b2(2)] by (cases "tell_login S rsp ?c") simp_all
  moreover have "buf_idle (Reset b2)" using Reset_idle [OF b2(2)] b2(3,4) b1(2,3) by simp
  ultimately show ?thesis using b2(2) by blast
qed

lemma packet_front:
  assumes "length body + 16 < 2 ^ 24"
  shows "\<exists>q. packet cmd seq body = 0 # q"
proof -
  let ?w = "of_nat (16 + length body) :: u32"
  have "unat (drop_bit 24 ?w) = 0"
    using assms by (simp add: unat_drop_bit_eq drop_bit_eq_div unat_div_distrib unat_of_nat del: of_nat_add)
  then have "drop_bit 24 ?w = 0" by (simp only: unat_eq_zero)
  moreover have "be_bytes w = ucast (drop_bit 24 w) # tl (be_bytes w)" for w :: u32
    by (simp add: be_bytes_def le_bytes_def upt_rec)
  ultimately have "be_bytes ?w = 0 # tl (be_bytes ?w)" by (metis ucast_0)
  then show ?thesis unfolding packet_def sizeof_IMHeader_def by (metis append_Cons)
qed

text \<open>
  C15. A login's answer that is received together with the next packet ends the process: the parser is
  given everything buffered, not the packet's body, it fails at the first byte of the next packet,
  nothing is skipped, and the \<open>assert\<close> on what is left fails. No callback learns of the answer.
\<close>

theorem glued_answer:
  assumes "idle P c" "wire (pb S)" "objs c conn \<noteq> None" "CIMAuthRsp_valid (pb S) rsp"
    and "body = CIMAuthRsp_InternalSerialize (pb S) rsp" "body \<noteq> []" "length body + 16 < 10240"
    and "length next + 16 < 2 ^ 24" "length rest < 2 ^ 29"
  shows "onMessage S conn (packet (ucast kCIM_CID_LOGIN_AUTH_RSP) seq body @ packet cmd seq' next @ rest) c =
     Inl AssertFailed"
proof -
  from packet_front [OF assms(8)] obtain q where q: "packet cmd seq' next = 0 # q" by blast
  let ?more = "packet cmd seq' next @ rest"
  let ?hd = "packet_hdr (ucast kCIM_CID_LOGIN_AUTH_RSP) seq body"
  have more: "length ?more < 2 ^ 30" using assms(8,9) by simp
  have "CIMAuthRsp_ParseFromArray (pb S) (body @ ?more) CIMAuthRsp_new = None"
    using wire.CIMAuthRsp_glued [OF assms(2,4)] by (simp add: assms(5) q)
  then have handler: "Client_onHandleData S ?hd (c\<lparr>recv_buffer := b\<rparr>) = Inr (c\<lparr>recv_buffer := b\<rparr>)"
    if "holds b (body @ ?more)" for b
    using buf_ToString_holds [OF that] by (simp add: Client_onHandleData_def onHandleAuthRsp_def)
  then have "\<forall>b c'. holds b (body @ ?more) \<and> Client_onHandleData S ?hd (c\<lparr>recv_buffer := b\<rparr>) = Inr c' \<longrightarrow>
      recv_buffer c' = b" by auto
  from body_unread [OF assms(1,3,6,7) more this] obtain b where "holds b (body @ ?more)"
    "onMessage S conn (packet (ucast kCIM_CID_LOGIN_AUTH_RSP) seq body @ ?more) c =
       bind_r (Client_onHandleData S ?hd (c\<lparr>recv_buffer := b\<rparr>)) (\<lambda>_. Inl AssertFailed)" by blast
  then show ?thesis using handler by simp
qed

text \<open>The answers of the witnesses: a result code and nothing else.\<close>

lemma auth_rsp_body:
  fixes code :: u32
  assumes "code \<noteq> 0"
  shows "CIMAuthRsp_valid leb_runtime (CIMAuthRsp_new\<lparr>AuthRsp_result_code := code\<rparr>)"
    "CIMAuthRsp_InternalSerialize leb_runtime (CIMAuthRsp_new\<lparr>AuthRsp_result_code := code\<rparr>) \<noteq> []"
    "length (CIMAuthRsp_InternalSerialize leb_runtime (CIMAuthRsp_new\<lparr>AuthRsp_result_code := code\<rparr>)) + 16 < 10240"
proof -
  let ?s = "CIMAuthRsp_InternalSerialize leb_runtime (CIMAuthRsp_new\<lparr>AuthRsp_result_code := code\<rparr>)"
  have "length ?s = 1 + EnumSize leb_runtime code"
    using assms by (simp add: leb.CIMAuthRsp_size CIMAuthRsp_ByteSizeLong_def CIMAuthRsp_new_def)
  then show "?s \<noteq> []" "length ?s + 16 < 10240" using leb.size_bounds(4) [of code] by auto
qed (simp add: CIMAuthRsp_valid_def CIMAuthRsp_new_def leb_runtime_def)

theorem glued_answer_witness:
  "\<exists>c i. logged c i \<and> onMessage sdk1 i (packet 264 1 (CIMAuthRsp_InternalSerialize leb_runtime
       (CIMAuthRsp_new\<lparr>AuthRsp_result_code := 200\<rparr>)) @ packet 5 2 [7]) c = Inl AssertFailed"
proof -
  from logged_ex obtain c i where l: "logged c i" by blast
  then have c: "idle {#} c" "objs c i \<noteq> None" by (simp_all add: logged_def)
  have pb: "pb sdk1 = leb_runtime" by (simp add: sdk1_def sdk0_def)
  from glued_answer [OF c(1) sdk_ok(4) c(2), of "CIMAuthRsp_new\<lparr>AuthRsp_result_code := 200\<rparr>", unfolded pb,
      OF auth_rsp_body(1) refl auth_rsp_body(2,3), of "[7]" "[]" 1 5 2] l
  show ?thesis by (auto simp: kCIM_CID_LOGIN_AUTH_RSP_def)
qed

text \<open>
  C11. The answer to a login, alone in its read, reaches the login callback with every field the
  server sent: the callback gets the very message that was serialized, on the client as it was,
  and afterwards the buffer is empty again.
\<close>

theorem auth_answer:
  assumes "idle P c" "user_ok S" "wire (pb S)" "objs c conn \<noteq> None" "login_cb c = Some f"
    and "CIMAuthRsp_valid (pb S) rsp" "AuthRsp_result_code rsp = kCIM_ERR_SUCCESS"
    and "body = CIMAuthRsp_InternalSerialize (pb S) rsp" "body \<noteq> []" "length body + 16 < 10240"
  shows "\<exists>b. holds b [] \<and>
     onMessage S conn (packet (ucast kCIM_CID_LOGIN_AUTH_RSP) seq body) c =
       bind_r (on_login S f rsp (c\<lparr>recv_buffer := b\<rparr>)) (\<lambda>c. Inr (c\<lparr>recv_buffer := Reset b\<rparr>)) \<and>
     buf_idle (Reset b)"
  using auth_answer_run [OF assms(1-4,6,8-10), of seq] assms(5,7) by (auto simp: tell_login_def)

theorem auth_answer_witness:
  "\<exists>c i c' b. logged c i \<and> onMessage sdk1 i (packet 264 1 (CIMAuthRsp_InternalSerialize leb_runtime
       (CIMAuthRsp_new\<lparr>AuthRsp_result_code := 200\<rparr>))) c = Inr c' \<and> buf_idle (recv_buffer c')"
proof -
  let ?rsp = "CIMAuthRsp_new\<lparr>AuthRsp_result_code := 200\<rparr>"
  let ?body = "CIMAuthRsp_InternalSerialize leb_runtime ?rsp"
  from logged_ex obtain c i where l: "logged c i" by blast
  then have c: "idle {#} c" "objs c i \<noteq> None" "login_cb c = Some 3" by (simp_all add: logged_def)
  have pb: "pb sdk1 = leb_runtime" by (simp add: sdk1_def sdk0_def)
  have valid: "CIMAuthRsp_valid (pb sdk1) ?rsp" unfolding pb by (rule auth_rsp_body) simp
  have len: "?body \<noteq> []" "length ?body + 16 < 10240" by (rule auth_rsp_body, simp)+
  from auth_answer [OF c(1) sdk_ok(2,4) c(2,3) valid _ _ len, of 1] obtain b where
    b: "onMessage sdk1 i (packet 264 1 ?body) c =
      bind_r (on_login sdk1 3 ?rsp (c\<lparr>recv_buffer := b\<rparr>)) (\<lambda>c. Inr (c\<lparr>recv_buffer := Reset b\<rparr>))"
      "buf_idle (Reset b)"
    by (auto simp: pb kCIM_ERR_SUCCESS_def kCIM_CID_LOGIN_AUTH_RSP_def)
  have "client_inv {#} (c\<lparr>recv_buffer := b\<rparr>)" using c(1) by (simp add: idle_def)
  from logout_ok [OF this, of sdk0] obtain c' where "logout sdk0 (c\<lparr>recv_buffer := b\<rparr>) = Inr c'" by blast
  then have "onMessage sdk1 i (packet 264 1 ?body) c = Inr (c'\<lparr>recv_buffer := Reset b\<rparr>)"
    using b(1) by (simp add: sdk1_def)
  then show ?thesis using l b(2)
    by (intro exI [of _ c] exI [of _ i] exI [of _ "c'\<lparr>recv_buffer := Reset b\<rparr>"] exI [of _ "Reset b"]) simp
qed



text \<open>A client whose connect is pending on handle \<open>h\<close> with the socket \<open>fd\<close>.\<close>

definition dialling :: "byte list \<Rightarrow> byte list \<Rightarrow> 'a client_scheme \<Rightarrow> int \<Rightarrow> nat \<Rightarrow> nat \<Rightarrow>
    'a client_scheme \<Rightarrow> bool" where
  "dialling name pwd c fd i h c' \<longleftrightarrow>
     tcp_client c' = Some i \<and> i \<in> set (held c') \<and>
     (\<exists>t. objs c' i = Some t \<and> sock_fd t = fd \<and> connect_status t = kConnecting \<and>
          tcp_connection_cb t = Some kOnConnectionStatusChanged) \<and>
     map_of (g_conn_map c') fd = Some i \<and>
     handles c' h = Some \<lparr>h_fd = Some fd, h_closing = False, h_reading = False\<rparr> \<and>
     login_status c' = kLogining \<and> user_name c' = name \<and> md5_hex TYPE(64) pwd = Inr (user_pwd c') \<and>
     connection_cb c' = connection_cb c \<and> client_seq c' = client_seq c"

lemma login_dials:
  assumes "client_inv P c" "env_ok (uv S)" "length name < 2 ^ 30" "loop_is_run c"
    and "\<And>h. uv_tcp_init (uv S) h = 0 \<and> uv_tcp_connect (uv S) h = (0, Some fd)"
    and "\<And>ip port. uv_ip4_addr (uv S) ip port = 0"
  shows "\<exists>i h c1. login S name pwd cb tcb c = Inr c1 \<and> client_inv P c1 \<and> dialling name pwd c fd i h c1"
proof -
  from login_run [OF assms(1,3), of pwd cb tcb S] obtain i c4 where
    inv4: "client_inv P c4" and l: "logging_in name pwd cb tcb c i c4"
    and run: "login S name pwd cb tcb c =
       bind_r (TcpClient_connect (uv S) i (cfg_ip (cfg_serverInfo (g_config c4)))
         (cfg_gatePort (cfg_serverInfo (g_config c4))) c4) (\<lambda>(_, c). Inr c)" by blast
  from l assms(4) obtain t where tcp4: "tcp_client c4 = Some i" "g_conn_map c4 = []" "loop_is_run c4"
    and t: "objs c4 i = Some t" "tcp_connection_cb t = Some kOnConnectionStatusChanged"
    by (auto simp: logging_in_def)
  have held4: "i \<in> set (held c4)" by (rule tcp_client_live(1) [OF inv4 tcp4(1)])
  let ?ip = "cfg_ip (cfg_serverInfo (g_config c4))" and ?port = "cfg_gatePort (cfg_serverInfo (g_config c4))"
  let ?h = "next_handle c4"
  have uv: "uv_tcp_init (uv S) ?h \<noteq> kInvalidSocket" "uv_ip4_addr (uv S) ?ip ?port \<noteq> kInvalidSocket"
    "uv_tcp_connect (uv S) ?h = (0, Some fd)" using assms(5,6) by (simp_all add: kInvalidSocket_def)
  from connect_result [OF client_invD(1) [OF inv4] t(1) held4 tcp4(3) uv refl] tcp4(2) obtain c1 where
    c1: "TcpClient_connect (uv S) i ?ip ?port c4 = Inr (True, c1)"
      "objs c1 i = Some (t\<lparr>tcp_handle := Some ?h, sock_fd := fd, connect_status := kConnecting,
                         server_ip := ?ip, server_port := ?port\<rparr>)"
      "map_of (g_conn_map c1) fd = Some i" "held c1 = held c4"
      "handles c1 ?h = Some \<lparr>h_fd = Some fd, h_closing = False, h_reading = False\<rparr>" by auto
  have ok1: "conn_ok c1" "net.more c1 = net.more c4"
    "\<forall>e \<in> set (g_conn_map c1). e \<in> set (g_conn_map c4) \<or> snd e = i"
    using connect_ok [OF client_invD(1) [OF inv4] t(1) held4 assms(2), of ?ip ?port] c1(1) by auto
  have "client_inv P c1"
    by (rule client_inv_more [OF inv4 ok1(1,2)]) (use ok1(3) tcp4 c1(4) client_invD(2) [OF inv4] in auto)
  moreover have "dialling name pwd c fd i ?h c1"
    using same_fields [OF ok1(2)] l c1 held4 t(2) by (simp add: dialling_def logging_in_def)
  ultimately show ?thesis using run c1(1) by auto
qed

text \<open>The completion of the connect: the client becomes connected and sends the login request.\<close>

lemma dialled:
  assumes inv: "client_inv P c1" and d: "dialling name pwd c fd i h c1" and "wire (pb S)" "0 \<le> fd"
    and "connection_cb c = None" and h5: "md5_hex TYPE(64) pwd = Inr h5"
  shows "\<exists>c2. onConnect False (client_cbs S) h 0 c1 = Inr c2 \<and> connStatus c2 = Inr kConnectOk \<and>
     sent c2 = sent c1 @ [(fd, packet (ucast kCIM_CID_LOGIN_AUTH_REQ) (client_seq c + 1)
       (ml_bytes (auth_req (pb S) name h5)))] \<and> client_inv P c2 \<and>
     (\<exists>t. tcp_client c2 = Some i \<and> objs c2 i = Some t \<and> sock_fd t = fd)"
proof -
  from d obtain t where t: "objs c1 i = Some t" "sock_fd t = fd"
    "tcp_connection_cb t = Some kOnConnectionStatusChanged" by (auto simp: dialling_def)
  have fnd: "findTcpClient False h c1 = Inr (Some i)"
    using d by (simp add: findTcpClient_def uv_fileno_def dialling_def)
  let ?t2 = "t\<lparr>connect_status := kConnectOk\<rparr>"
  define c2 where "c2 = (hold i c1)\<lparr>objs := (objs c1)(i \<mapsto> ?t2)\<rparr>"
  have "client_inv (add_mset i P) (hold i c1)" by (rule hold_inv [OF inv]) (use t in simp)
  moreover from client_invD(1) [OF this] have "conn_ok c2"
    using t assms(4) by (auto simp: conn_ok_def c2_def)
  ultimately have inv2: "client_inv (add_mset i P) c2" by (simp add: client_inv_def tcp_refs_def c2_def)
  have tcp2: "tcp_client c2 = Some i" "objs c2 i = Some ?t2" "user_name c2 = name" "sent c2 = sent c1"
    "connection_cb c2 = None" "client_seq c2 = client_seq c" "user_pwd c2 = h5"
    using d assms(5) h5 by (simp_all add: c2_def hold_def dialling_def)
  have msg: "framable (auth_req (pb S) (user_name c2) (user_pwd c2))"
    by (rule auth_req_framable [OF assms(3)]) (use inv2 in \<open>simp_all add: client_inv_def\<close>)
  let ?p = "packet (ucast kCIM_CID_LOGIN_AUTH_REQ) (client_seq c + 1) (ml_bytes (auth_req (pb S) name h5))"
  define c3 where "c3 = c2\<lparr>client_seq := client_seq c + 1, last_send_time := now c2, sent := sent c1 @ [(fd, ?p)]\<rparr>"
  have "setConnectionStatus (client_cbs S) i kConnectOk (hold i c1) = onConnectionStatusChanged S i kConnectOk c2"
    using t by (simp add: setConnectionStatus_def set_tcp_def c2_def client_cbs_def)
  also have "\<dots> = Inr c3"
    using tcp2 t(2) send_result [OF inv2 tcp2(1,2) msg, of S kCIM_CID_LOGIN_AUTH_REQ]
    by (simp add: onConnectionStatusChanged_def c3_def Let_def)
  finally have set: "setConnectionStatus (client_cbs S) i kConnectOk (hold i c1) = Inr c3" .
  have held3: "held c3 = i # held c1" by (simp add: c3_def c2_def hold_def)
  have rel: "release i c3 = Inr (c3\<lparr>held := held c1\<rparr>)"
    using held3 d by (simp add: release_def drop_ref_def referenced_def dialling_def)
  let ?c = "uv_read_start h (c3\<lparr>held := held c1\<rparr>)"
  have "onConnect False (client_cbs S) h 0 c1 = Inr ?c"
    using fnd set rel by (simp add: onConnect_def)
  moreover have "connStatus ?c = Inr kConnectOk" "sent ?c = sent c1 @ [(fd, ?p)]"
    "tcp_client ?c = Some i" "objs ?c i = Some ?t2"
    using tcp2 by (simp_all add: connStatus_def uv_read_start_def c3_def)
  moreover have "client_inv (add_mset i P) c3" using inv2 by (simp add: c3_def)
  from release_keeps [OF this] rel have "client_inv P ?c" by simp
  ultimately show ?thesis using t(2) by auto
qed

lemma login_connects:
  assumes "client_inv P c" "wire (pb S)" "env_ok (uv S)" "length name < 2 ^ 30" "loop_is_run c"
    and "connection_cb c = None"
    and "\<And>h. uv_tcp_init (uv S) h = 0 \<and> uv_tcp_connect (uv S) h = (0, Some fd)"
    and "\<And>ip port. uv_ip4_addr (uv S) ip port = 0"
  shows "\<exists>c1 h c2 h5. login S name pwd cb tcb c = Inr c1 \<and> loginStatus c1 = kLogining \<and>
     connStatus c1 = Inr kConnecting \<and> onConnect False (client_cbs S) h 0 c1 = Inr c2 \<and>
     md5_hex TYPE(64) pwd = Inr h5 \<and> connStatus c2 = Inr kConnectOk \<and>
     sent c2 = sent c1 @ [(fd, packet (ucast kCIM_CID_LOGIN_AUTH_REQ) (client_seq c + 1)
       (ml_bytes (auth_req (pb S) name h5)))] \<and> client_inv P c2 \<and>
     (\<exists>i t. tcp_client c2 = Some i \<and> objs c2 i = Some t \<and> sock_fd t = fd)"
proof -
  from login_dials [OF assms(1,3-5,7,8), of pwd cb tcb] obtain i h c1 where
    c1: "login S name pwd cb tcb c = Inr c1" "client_inv P c1" "dialling name pwd c fd i h c1" by blast
  have "0 \<le> fd" using assms(3,7) by (metis env_ok_def snd_conv)
  moreover have "loginStatus c1 = kLogining" "connStatus c1 = Inr kConnecting"
    "md5_hex TYPE(64) pwd = Inr (user_pwd c1)"
    using c1(3) by (auto simp: dialling_def loginStatus_def connStatus_def)
  ultimately show ?thesis using dialled [OF c1(2,3) assms(2) _ assms(6)] c1(1) by blast
qed

text \<open>
  C4. From a login to the request on the wire: \<open>login\<close> with a server that accepts the connection
  starts connecting, and the completion event sends exactly one packet, the login request with the
  name and the MD5 text of the password, under the next sequence number.
\<close>

theorem login_sends_auth:
  assumes "client_inv P c" "wire (pb S)" "env_ok (uv S)" "length name < 2 ^ 30" "loop_is_run c"
    and "connection_cb c = None"
    and "\<And>h. uv_tcp_init (uv S) h = 0 \<and> uv_tcp_connect (uv S) h = (0, Some fd)"
    and "\<And>ip port. uv_ip4_addr (uv S) ip port = 0"
  shows "\<exists>c1 h c2 h5. login S name pwd cb tcb c = Inr c1 \<and> loginStatus c1 = kLogining \<and>
     connStatus c1 = Inr kConnecting \<and> onConnect False (client_cbs S) h 0 c1 = Inr c2 \<and>
     md5_hex TYPE(64) pwd = Inr h5 \<and> connStatus c2 = Inr kConnectOk \<and>
     sent c2 = sent c1 @ [(fd, packet (ucast kCIM_CID_LOGIN_AUTH_REQ) (client_seq c + 1)
       (ml_bytes (auth_req (pb S) name h5)))]"
  using login_connects [OF assms] by blast

theorem login_sends_auth_witness:
  "\<exists>c c1 h c2 p. Client_new client0 = Inr c \<and> login sdk1 [1] [2] None None c = Inr c1 \<and>
     onConnect False (client_cbs sdk1) h 0 c1 = Inr c2 \<and> sent c2 = sent c1 @ [(7, p)]"
proof -
  obtain c where c: "Client_new client0 = Inr c" "loop_is_run c" using client_new_runs by blast
  have "client_inv {#} c" using Client_new_idle(1) [OF client0_ok(1,2) c(1)] by (simp add: idle_def)
  moreover have "connection_cb c = None"
    using c(1) by (auto simp: Client_new_def registerTimer_eq client0_def bind_r_eq_Inr Let_def)
  ultimately show ?thesis
    using login_sends_auth [OF _ sdk_ok(4,6) _ c(2), of "{#}" "[1]" 7 "[2]" None None] c(1)
    by (auto simp: sdk1_def sdk0_def env7_def)
qed

theorem packet_roundtrip_witness:
  "\<exists>c c1 h c2 i p c3. Client_new client0 = Inr c \<and> login sdk1 [1] [2] None None c = Inr c1 \<and>
     onConnect False (client_cbs sdk1) h 0 c1 = Inr c2 \<and>
     Client_send sdk1 5 \<lparr>ml_bytes = [9], ml_size = 1\<rparr> c2 = Inr (i, c3) \<and> sent c3 = sent c2 @ [(7, p)]"
proof -
  obtain c where c: "Client_new client0 = Inr c" "loop_is_run c" using client_new_runs by blast
  have inv: "client_inv {#} c" using Client_new_idle(1) [OF client0_ok(1,2) c(1)] by (simp add: idle_def)
  have "connection_cb c = None"
    using c(1) by (auto simp: Client_new_def registerTimer_eq client0_def bind_r_eq_Inr Let_def)
  with login_connects [OF inv sdk_ok(4,6) _ c(2), of "[1]" 7 "[2]" None None] obtain c1 h c2 i t where
    c2: "login sdk1 [1] [2] None None c = Inr c1" "onConnect False (client_cbs sdk1) h 0 c1 = Inr c2"
      "connStatus c2 = Inr kConnectOk" "client_inv {#} c2" "tcp_client c2 = Some i" "objs c2 i = Some t"
      "sock_fd t = 7" by (auto simp: sdk1_def sdk0_def env7_def)
  then have "connect_status t = kConnectOk" by (simp add: connStatus_def)
  from packet_roundtrip [OF c2(4,5,6) this, of "\<lparr>ml_bytes = [9], ml_size = 1\<rparr>" "[]" sdk1 5] obtain p c3 where
    "Client_send sdk1 5 \<lparr>ml_bytes = [9], ml_size = 1\<rparr> c2 =
       Inr (sys_send (uv (sdk1 :: client sdk)) (length (sent c2)) (sock_fd t) p, c3)" "sent c3 = sent c2 @ [(sock_fd t, p)]"
    by (auto simp: framable_def)
  with c(1) c2(1,2,7) show ?thesis by metis
qed

end
