(* ===== verification/Delivery.thy ===== *)
theory Delivery
  imports ClientPackets
begin

text \<open>
  A chat message from one client to another: \<open>sendMessage\<close> on the sending side, \<open>onMessage\<close> and the
  receive callback on the receiving side, with the wire format and the buffers between them.
\<close>

lemma chat_msg_valid:
  assumes "VerifyUTF8 R (ascii ''unknow'')" "VerifyUTF8 R []" "length body < 2 ^ 30"
  shows "CIMMsgData_valid R (chat_msg uid to msg body)"
proof -
  have "length (c_str body) < 2 ^ 31"
    using length_takeWhile_le [of "\<lambda>b. b \<noteq> 0" body] assms(3) by (simp add: c_str_def)
  moreover have "length (ascii ''unknow'') < 2 ^ 31" by (simp add: ascii_def)
  ultimately show ?thesis using assms(1,2)
    by (simp add: CIMMsgData_valid_def chat_msg_def CIMMsgData_new_def)
qed

text \<open>One chat message, alone in its read.\<close>

lemma chat_received:
  assumes "idle P d" "user_ok S" "wire (pb S)" "objs d conn \<noteq> None" "recv_cb d = Some f"
    and "CIMMsgData_valid (pb S) m"
    and "body = CIMMsgData_InternalSerialize (pb S) m" "body \<noteq> []" "length body + 16 < 10240"
  shows "\<exists>b. onMessage S conn (packet (ucast kCIM_CID_MSG_DATA) sq body) d =
     bind_r (on_recv_msg S f m (d\<lparr>recv_buffer := b\<rparr>)) (\<lambda>_. Inl AssertFailed)"
proof -
  let ?hd = "packet_hdr (ucast kCIM_CID_MSG_DATA) sq body"
  have parse: "CIMMsgData_ParseFromArray (pb S) body CIMMsgData_new = Some m"
    unfolding assms(7) by (rule wire.CIMMsgData_roundtrip [OF assms(3,6)])
  have "\<forall>b c'. holds b (body @ []) \<and> Client_onHandleData S ?hd (d\<lparr>recv_buffer := b\<rparr>) = Inr c' \<longrightarrow>
      recv_buffer c' = b"
    by (auto simp: chat_handler dest: ChatManager_keeps_buffer [OF assms(1,2)])
  from body_unread [OF assms(1,4,8,9) nothing_follows this] obtain b where "holds b body"
    "onMessage S conn (packet (ucast kCIM_CID_MSG_DATA) sq body) d =
       bind_r (Client_onHandleData S ?hd (d\<lparr>recv_buffer := b\<rparr>)) (\<lambda>_. Inl AssertFailed)" by auto
  moreover from this(1) have "Client_onHandleData S ?hd (d\<lparr>recv_buffer := b\<rparr>) =
      on_recv_msg S f m (d\<lparr>recv_buffer := b\<rparr>)"
    using parse assms(5) by (simp add: chat_handler ChatManager_onHandleData_def buf_ToString_holds)
  ultimately show ?thesis by metis
qed

text \<open>
  C9. A chat message from one connected client reaches another: \<open>sendMessage\<close> puts one packet on the
  sender's socket; given to the receiver alone in a read, the receive callback gets the message with
  the text up to its first NUL, the sender's id, the nick name "unknow" and the session, all as sent,
  and then the process ends, since nobody takes the body from the buffer.
\<close>

theorem chat_delivered:
  assumes "client_inv P c" "tcp_client c = Some i" "objs c i = Some t" "connect_status t = kConnectOk"
    and "wire R" "pb S = R" "VerifyUTF8 R (ascii ''unknow'')" "VerifyUTF8 R []"
    and "length body < 10000"
  shows "\<exists>p c'. sendMessage S to msg body c = Inr c' \<and> sent c' = sent c @ [(sock_fd t, p)] \<and>
     (\<forall>Q d conn f U. idle Q d \<and> user_ok U \<and> pb U = R \<and> objs d conn \<noteq> None \<and> recv_cb d = Some f \<longrightarrow>
       (\<exists>b. onMessage U conn p d =
          bind_r (on_recv_msg U f (chat_msg (GetUserId c) to msg body) (d\<lparr>recv_buffer := b\<rparr>))
            (\<lambda>_. Inl AssertFailed)))"
proof -
  let ?m = "chat_msg (GetUserId c) to msg body"
  let ?s = "CIMMsgData_InternalSerialize R ?m"
  note bd = wire.size_bounds [OF assms(5)]
  have "length body < 2 ^ 30" using assms(9) by simp
  then have fr: "framable \<lparr>ml_bytes = ?s, ml_size = CIMMsgData_ByteSizeLong R ?m\<rparr>"
    and valid: "CIMMsgData_valid R ?m"
    using msg_framable [OF assms(5)] chat_msg_valid [OF assms(7,8)] by blast+
  have cl: "length (c_str body) < 10000"
    using length_takeWhile_le [of "\<lambda>b. b \<noteq> 0" body] assms(9) by (simp add: c_str_def)
  have u: "length (ascii ''unknow'') = 6" by (simp add: ascii_def)
  have size: "length ?s = CIMMsgData_ByteSizeLong R ?m" by (rule wire.CIMMsgData_size [OF assms(5)])
  also have "\<dots> \<le> 11 + 17 + 11 + 11 + (11 + length (c_str body))"
    using bd(3) [of "GetUserId c"] bd(3) [of to] bd(4) [of msg] bd(5) [of 6] bd(5) [of "length (c_str body)"] cl u
    by (simp add: CIMMsgData_ByteSizeLong_def chat_msg_def CIMMsgData_new_def)
  finally have len: "length ?s + 16 < 10240" using cl by simp
  have "0 < CIMMsgData_ByteSizeLong R ?m"
    using u by (auto simp: CIMMsgData_ByteSizeLong_def chat_msg_def CIMMsgData_new_def)
  then have ne: "?s \<noteq> []" using size by (metis length_0_conv less_irrefl)
  let ?p = "packet (ucast kCIM_CID_MSG_DATA) (client_seq c + 1) ?s"
  have "\<exists>b. onMessage U conn ?p d = bind_r (on_recv_msg U f ?m (d\<lparr>recv_buffer := b\<rparr>)) (\<lambda>_. Inl AssertFailed)"
    if "idle Q d" "user_ok U" "pb U = R" "objs d conn \<noteq> None" "recv_cb d = Some f"
    for Q and d :: "'b client_scheme" and conn f U
    by (rule chat_received [OF that(1,2) _ that(4,5) _ _ ne len]) (use assms(5) that(3) valid in simp_all)
  then have "\<forall>Q (d :: 'b client_scheme) conn f U.
      idle Q d \<and> user_ok U \<and> pb U = R \<and> objs d conn \<noteq> None \<and> recv_cb d = Some f \<longrightarrow>
      (\<exists>b. onMessage U conn ?p d = bind_r (on_recv_msg U f ?m (d\<lparr>recv_buffer := b\<rparr>)) (\<lambda>_. Inl AssertFailed))"
    by blast
  then show ?thesis
    using send_result [OF assms(1-3) fr, of S kCIM_CID_MSG_DATA] assms(4,6)
    by (simp add: sendMessage_def Let_def)
qed

theorem chat_delivered_witness:
  "\<exists>c c1 h c2 c3 p d j. Client_new client0 = Inr c \<and> login sdk1 [1] [2] None None c = Inr c1 \<and>
     onConnect False (client_cbs sdk1) h 0 c1 = Inr c2 \<and> sendMessage sdk1 7 1 [104, 105, 0, 33] c2 = Inr c3 \<and>
     sent c3 = sent c2 @ [(7, p)] \<and> logged d j \<and>
     onMessage (sdk0 :: client sdk) j p (setRecvMsgCallback (Some 9) d) = Inl AssertFailed"
proof -
  obtain c where c: "Client_new client0 = Inr c" "loop_is_run c" using client_new_runs by blast
  have inv: "client_inv {#} c" using Client_new_idle(1) [OF client0_ok(1,2) c(1)] by (simp add: idle_def)
  have "connection_cb c = None"
    using c(1) by (auto simp: Client_new_def registerTimer_eq client0_def bind_r_eq_Inr Let_def)
  with login_connects [OF inv sdk_ok(4,6) _ c(2), of "[1]" 7 "[2]" None None] obtain c1 h c2 i t where
    c2: "login sdk1 [1] [2] None None c = Inr c1" "onConnect False (client_cbs sdk1) h 0 c1 = Inr c2"
      "connStatus c2 = Inr kConnectOk" "client_inv {#} c2" "tcp_client c2 = Some i" "objs c2 i = Some t"
      "sock_fd t = 7" by (auto simp: sdk1_def sdk0_def env7_def)
  then have ok: "connect_status t = kConnectOk" by (simp add: connStatus_def)
  have pb: "pb (sdk1 :: client sdk) = leb_runtime" "pb (sdk0 :: client sdk) = leb_runtime"
    by (simp_all add: sdk1_def sdk0_def)
  have utf8: "VerifyUTF8 leb_runtime (ascii ''unknow'')" "VerifyUTF8 leb_runtime []"
    by (simp_all add: leb_runtime_def ascii_def cont_def)
  from logged_ex obtain d j where l: "logged d j" by blast
  let ?d = "setRecvMsgCallback (Some 9) d"
  have d: "idle {#} ?d" "objs ?d j \<noteq> None" "recv_cb ?d = Some 9"
    using l by (auto simp: logged_def idle_def setRecvMsgCallback_def client_inv_def conn_ok_def tcp_refs_def)
  have cb: "on_recv_msg (sdk0 :: client sdk) f m e = Inr e" for f m e by (simp add: sdk0_def)
  from chat_delivered [where 'b = unit, OF c2(4-6) ok leb.wire_axioms pb(1) utf8, of "[104, 105, 0, 33]" 7 1]
  obtain p c3 where p: "sendMessage sdk1 7 1 [104, 105, 0, 33] c2 = Inr c3" "sent c3 = sent c2 @ [(7, p)]"
    and "\<forall>Q (d :: client) conn f U. idle Q d \<and> user_ok U \<and> pb U = leb_runtime \<and> objs d conn \<noteq> None \<and>
        recv_cb d = Some f \<longrightarrow> (\<exists>b. onMessage U conn p d =
          bind_r (on_recv_msg U f (chat_msg (GetUserId c2) 7 1 [104, 105, 0, 33]) (d\<lparr>recv_buffer := b\<rparr>))
            (\<lambda>_. Inl AssertFailed))"
    using c2(7) by auto
  with d pb(2) sdk_ok(1) have "onMessage (sdk0 :: client sdk) j p ?d = Inl AssertFailed"
    by (fastforce simp: cb)
  with c(1) c2(1,2) p l show ?thesis by blast
qed

end
