(* ===== verification/PbSafe.thy ===== *)
theory PbSafe
  imports PbDef PbLogin PbMessage
begin

text \<open>
  The generated parsers on arbitrary bytes, not only on what was serialised: the loop of every
  \<open>_InternalParse\<close> ends, and what it accepts has UTF-8 text in every \<open>string\<close> field, nested
  messages included.
\<close>

section \<open>The loop as it is written\<close>

text \<open>
  \<open>while (!ctx->Done(&ptr)) ...\<close> without a bound on its rounds: the outer \<open>None\<close> is a loop that does
  not end. \<open>parse_run_loop\<close> below shows that the bound of \<open>parse_all\<close> is enough.
\<close>

partial_function (option) parse_run :: "pb_runtime \<Rightarrow> (u32 \<Rightarrow> byte list \<Rightarrow> 'm \<Rightarrow> 'm field_result) \<Rightarrow>
    (byte list \<Rightarrow> 'm \<Rightarrow> 'm) \<Rightarrow> byte list \<Rightarrow> 'm \<Rightarrow> ('m \<times> bool) option option" where
  "parse_run R switch unknown bs m =
     (if bs = [] then Some (Some (m, True)) else
      case ReadTag R bs of None \<Rightarrow> Some None
      | Some (tag, p) \<Rightarrow>
        (case switch tag p m of
           Continue m' q \<Rightarrow> parse_run R switch unknown q m'
         | Failure \<Rightarrow> Some None
         | Unusual \<Rightarrow>
           if tag AND 7 = 4 \<or> tag = 0 then Some (Some (m, False)) else
           case UnknownFieldParse R tag p of None \<Rightarrow> Some None
           | Some (raw, q) \<Rightarrow> parse_run R switch unknown q (unknown raw m)))"

text \<open>
  What the documented runtime does with the parse position: a tag takes at least a byte, and no
  reader moves backwards.
\<close>

locale reader =
  fixes R :: pb_runtime
  assumes tag_consumes: "ReadTag R bs = Some (t, p) \<Longrightarrow> length p < length bs"
    and varint32_forward: "ReadVarint32 R p = Some (v, q) \<Longrightarrow> length q \<le> length p"
    and varint64_forward: "ReadVarint64 R p = Some (w, q) \<Longrightarrow> length q \<le> length p"
    and string_forward: "InlineGreedyStringParser R p = Some (s, q) \<Longrightarrow> length q \<le> length p"
    and unknown_forward: "UnknownFieldParse R t p = Some (raw, q) \<Longrightarrow> length q \<le> length p"

definition forward :: "(u32 \<Rightarrow> byte list \<Rightarrow> 'm \<Rightarrow> 'm field_result) \<Rightarrow> bool" where
  "forward switch \<longleftrightarrow> (\<forall>t p m m' q. switch t p m = Continue m' q \<longrightarrow> length q \<le> length p)"

lemma forwardI:
  "(\<And>t p m m' q. switch t p m = Continue m' q \<Longrightarrow> length q \<le> length p) \<Longrightarrow> forward switch"
  by (auto simp: forward_def)

context reader begin

lemma parse_run_loop:
  assumes "forward switch"
  shows "length bs < k \<Longrightarrow> parse_run R switch unknown bs m = Some (parse_loop R switch unknown k bs m)"
proof (induction k arbitrary: bs m)
  case (Suc k)
  show ?case
  proof (cases "ReadTag R bs")
    case (Some r)
    obtain t p where r: "r = (t, p)" by (cases r)
    have p: "length p < length bs" using tag_consumes Some r by blast
    show ?thesis
    proof (cases "switch t p m")
      case (Continue m' q)
      then have "length q < k" using assms p Suc.prems by (fastforce simp: forward_def)
      then show ?thesis using Some r Continue Suc.IH by (subst parse_run.simps) simp
    next
      case Unusual
      have "length q < k" if "UnknownFieldParse R t p = Some (raw, q)" for raw q
        using unknown_forward [OF that] p Suc.prems by simp
      then show ?thesis using Some r Unusual Suc.IH
        by (subst parse_run.simps) (auto split: option.split)
    qed (use Some r in \<open>subst parse_run.simps, simp\<close>)
  qed (subst parse_run.simps, simp)
qed simp

lemma ParseMessage_forward:
  "ParseMessage R switch unknown p m = Some (m', q) \<Longrightarrow> length q \<le> length p"
  by (auto simp: ParseMessage_def string_forward split: option.splits)

lemmas forward_rules = varint32_forward varint64_forward string_forward ParseMessage_forward

lemma CIMUserInfo_forward: "forward (CIMUserInfo_switch R)"
  by (rule forwardI) (auto simp: CIMUserInfo_switch_def Let_def forward_rules split: if_splits option.splits)

lemma CIMAuthReq_forward: "forward (CIMAuthReq_switch R)"
  by (rule forwardI) (auto simp: CIMAuthReq_switch_def Let_def forward_rules split: if_splits option.splits)

lemma CIMAuthRsp_forward: "forward (CIMAuthRsp_switch R)"
  by (rule forwardI) (auto simp: CIMAuthRsp_switch_def Let_def forward_rules split: if_splits option.splits)

lemma CIMMsgData_forward: "forward (CIMMsgData_switch R)"
  by (rule forwardI) (auto simp: CIMMsgData_switch_def Let_def forward_rules split: if_splits option.splits)

lemma CIMMsgInfo_forward: "forward (CIMMsgInfo_switch R)"
  by (rule forwardI) (auto simp: CIMMsgInfo_switch_def Let_def forward_rules split: if_splits option.splits)

end

text \<open>The documented wire format reads forward.\<close>

lemma unleb_consumes: "unleb k bs = Some (v, q) \<Longrightarrow> length q < length bs"
  by (induction k bs arbitrary: v rule: unleb.induct) (fastforce split: if_splits)+

lemma leb_string_forward: "leb_string bs = Some (s, q) \<Longrightarrow> length q \<le> length bs"
  by (auto simp: leb_string_def split: option.splits if_splits dest!: unleb_consumes)

interpretation leb_reader: reader leb_runtime
proof unfold_locales
  fix bs p q raw s :: "byte list" and t v :: u32 and w :: u64
  show "ReadTag leb_runtime bs = Some (t, p) \<Longrightarrow> length p < length bs"
    by (auto simp: leb_runtime_def leb_u32_def dest: unleb_consumes)
  show "ReadVarint32 leb_runtime p = Some (v, q) \<Longrightarrow> length q \<le> length p"
    by (auto simp: leb_runtime_def leb_u32_def dest: unleb_consumes)
  show "ReadVarint64 leb_runtime p = Some (w, q) \<Longrightarrow> length q \<le> length p"
    by (auto simp: leb_runtime_def leb_u64_def dest: unleb_consumes)
  show "InlineGreedyStringParser leb_runtime p = Some (s, q) \<Longrightarrow> length q \<le> length p"
    by (auto simp: leb_runtime_def dest: leb_string_forward)
  show "UnknownFieldParse leb_runtime t p = Some (raw, q) \<Longrightarrow> length q \<le> length p"
    by (auto simp: leb_runtime_def leb_unknown_def Let_def split: if_splits
        dest: unleb_consumes leb_string_forward)
qed

section \<open>Text fields\<close>

text \<open>
  What the class promises its users: a \<open>string\<close> field holds UTF-8. \<open>bytes\<close> fields, like the body
  of a chat message, hold anything.
\<close>

definition CIMUserInfo_text :: "pb_runtime \<Rightarrow> CIMUserInfo \<Rightarrow> bool" where
  "CIMUserInfo_text R m \<longleftrightarrow>
     list_all (VerifyUTF8 R) [UserInfo_nick_name m, UserInfo_nick_name_spell m, UserInfo_phone m,
       UserInfo_avatar_url m, UserInfo_attach_info m]"

definition CIMAuthRsp_text :: "pb_runtime \<Rightarrow> CIMAuthRsp \<Rightarrow> bool" where
  "CIMAuthRsp_text R m \<longleftrightarrow>
     VerifyUTF8 R (AuthRsp_result_string m) \<and> pred_option (CIMUserInfo_text R) (AuthRsp_user_info m)"

definition CIMMsgData_text :: "pb_runtime \<Rightarrow> CIMMsgData \<Rightarrow> bool" where
  "CIMMsgData_text R m \<longleftrightarrow> list_all (VerifyUTF8 R) [MsgData_from_nick_name m, MsgData_client_msg_id m]"

text \<open>A field at a time: \<open>switch\<close> and the unknown fields keep what the loop keeps.\<close>

locale field_check =
  fixes switch :: "u32 \<Rightarrow> byte list \<Rightarrow> 'm \<Rightarrow> 'm field_result"
    and unknown :: "byte list \<Rightarrow> 'm \<Rightarrow> 'm"
    and good :: "'m \<Rightarrow> bool"
  assumes switch_good: "switch t p m = Continue m' q \<Longrightarrow> good m \<Longrightarrow> good m'"
    and unknown_good: "good m \<Longrightarrow> good (unknown raw m)"
begin

lemma parse_loop_good: "parse_loop R switch unknown k bs m = Some (r, b) \<Longrightarrow> good m \<Longrightarrow> good r"
proof (induction k arbitrary: bs m)
  case (Suc k)
  then show ?case
    by (auto split: if_splits option.splits prod.splits field_result.splits
        dest: switch_good intro: unknown_good)
qed simp

lemma parse_all_good: "parse_all R switch unknown bs m = Some r \<Longrightarrow> good m \<Longrightarrow> good r"
  by (auto simp: parse_all_def simp del: parse_loop.simps split: option.splits if_splits
      dest: parse_loop_good)

lemma ParseMessage_good: "ParseMessage R switch unknown p m = Some (r, q) \<Longrightarrow> good m \<Longrightarrow> good r"
  by (auto simp: ParseMessage_def split: option.splits dest: parse_all_good)

end

text \<open>A runtime that accepts the empty text, which is the value of every field at first.\<close>

locale text_runtime =
  fixes R :: pb_runtime
  assumes empty_text: "VerifyUTF8 R []"
begin

lemma CIMUserInfo_new_text: "CIMUserInfo_text R CIMUserInfo_new"
  by (simp add: CIMUserInfo_text_def CIMUserInfo_new_def empty_text)

lemma CIMAuthRsp_new_text: "CIMAuthRsp_text R CIMAuthRsp_new"
  by (simp add: CIMAuthRsp_text_def CIMAuthRsp_new_def empty_text)

lemma CIMMsgData_new_text: "CIMMsgData_text R CIMMsgData_new"
  by (simp add: CIMMsgData_text_def CIMMsgData_new_def empty_text)

end

sublocale text_runtime \<subseteq> user_info: field_check "CIMUserInfo_switch R" CIMUserInfo_unknown "CIMUserInfo_text R"
  by unfold_locales (auto simp: CIMUserInfo_switch_def CIMUserInfo_unknown_def CIMUserInfo_text_def Let_def
    split: if_splits option.splits)

sublocale text_runtime \<subseteq> msg_data: field_check "CIMMsgData_switch R" CIMMsgData_unknown "CIMMsgData_text R"
  by unfold_locales (auto simp: CIMMsgData_switch_def CIMMsgData_unknown_def CIMMsgData_text_def Let_def
    split: if_splits option.splits)

sublocale text_runtime \<subseteq> auth_rsp: field_check "CIMAuthRsp_switch R" CIMAuthRsp_unknown "CIMAuthRsp_text R"
  by unfold_locales (auto simp: CIMAuthRsp_switch_def CIMAuthRsp_unknown_def CIMAuthRsp_text_def Let_def
    dest!: user_info.ParseMessage_good intro: CIMUserInfo_new_text split: if_splits option.splits)

context text_runtime begin

lemma CIMAuthRsp_parsed_text:
  "CIMAuthRsp_ParseFromArray R bs m = Some r \<Longrightarrow> CIMAuthRsp_text R r"
  by (simp add: CIMAuthRsp_ParseFromArray_def CIMAuthRsp_Clear_new CIMAuthRsp_new_text auth_rsp.parse_all_good)

lemma CIMMsgData_parsed_text:
  "CIMMsgData_ParseFromArray R bs m = Some r \<Longrightarrow> CIMMsgData_text R r"
  by (simp add: CIMMsgData_ParseFromArray_def CIMMsgData_Clear_new CIMMsgData_new_text msg_data.parse_all_good)

end

interpretation leb_text: text_runtime leb_runtime
  by unfold_locales (simp add: leb_runtime_def)

section \<open>Every parse ends\<close>

lemma parse_all_run:
  assumes "reader R" "forward switch"
  shows "\<exists>out. parse_run R switch unknown bs m = Some out \<and>
     parse_all R switch unknown bs m = (case out of Some (r, True) \<Rightarrow> Some r | _ \<Rightarrow> None)"
  using reader.parse_run_loop [OF assms, of bs "Suc (length bs)"]
  by (auto simp: parse_all_def simp del: parse_loop.simps split: option.split bool.split)

text \<open>
  C20. The parsers the client gives received bytes to, and the one of the user they nest, return on
  any bytes: the loop of \<open>_InternalParse\<close>, written without a bound, ends, and the answer of
  \<open>ParseFromArray\<close> is the one it ends with, a message exactly when it stopped at the limit.
\<close>

theorem parsers_end:
  assumes "reader R"
  shows "\<exists>a d u. parse_run R (CIMAuthRsp_switch R) CIMAuthRsp_unknown bs CIMAuthRsp_new = Some a \<and>
      CIMAuthRsp_ParseFromArray R bs m = (case a of Some (r, True) \<Rightarrow> Some r | _ \<Rightarrow> None) \<and>
      parse_run R (CIMMsgData_switch R) CIMMsgData_unknown bs CIMMsgData_new = Some d \<and>
      CIMMsgData_ParseFromArray R bs m' = (case d of Some (r, True) \<Rightarrow> Some r | _ \<Rightarrow> None) \<and>
      parse_run R (CIMUserInfo_switch R) CIMUserInfo_unknown bs CIMUserInfo_new = Some u \<and>
      CIMUserInfo_ParseFromArray R bs m'' = (case u of Some (r, True) \<Rightarrow> Some r | _ \<Rightarrow> None)"
  using parse_all_run [OF assms reader.CIMAuthRsp_forward [OF assms], of CIMAuthRsp_unknown bs CIMAuthRsp_new]
    parse_all_run [OF assms reader.CIMMsgData_forward [OF assms], of CIMMsgData_unknown bs CIMMsgData_new]
    parse_all_run [OF assms reader.CIMUserInfo_forward [OF assms], of CIMUserInfo_unknown bs CIMUserInfo_new]
  by (simp add: CIMAuthRsp_ParseFromArray_def CIMMsgData_ParseFromArray_def CIMUserInfo_ParseFromArray_def
      CIMAuthRsp_Clear_new CIMMsgData_Clear_new CIMUserInfo_Clear_new)

theorem parsers_end_witness:
  "\<exists>a. parse_run leb_runtime (CIMAuthRsp_switch leb_runtime) CIMAuthRsp_unknown [0x1a, 5, 0xff] CIMAuthRsp_new = Some a"
  using parsers_end [OF leb_reader.reader_axioms, of "[0x1a, 5, 0xff]"] by blast

end
