(* ===== verification/ClientText.thy ===== *)
theory ClientText
  imports ClientProps PbSafe
begin

text \<open>
  What the callbacks of the SDK's user can be given by the network: messages whose text fields are
  UTF-8, whatever bytes a server sends.
\<close>

text \<open>
  Two users whose callbacks agree on such messages. \<open>checked\<close> is the SDK with the second user's.
\<close>

definition checked :: "(nat \<Rightarrow> CIMAuthRsp \<Rightarrow> 'w \<Rightarrow> 'w res) \<Rightarrow> (nat \<Rightarrow> CIMMsgData \<Rightarrow> 'w \<Rightarrow> 'w res) \<Rightarrow>
    'w sdk \<Rightarrow> 'w sdk" where
  "checked h g S = S\<lparr>on_login := h, on_recv_msg := g\<rparr>"

lemma checked_simps [simp]:
  "pb (checked h g S) = pb S" "uv (checked h g S) = uv S" "on_login (checked h g S) = h"
  "on_recv_msg (checked h g S) = g" "on_status (checked h g S) = on_status S"
  "on_login_timeout (checked h g S) = on_login_timeout S"
  by (simp_all add: checked_def)

lemma checked_sends [simp]:
  "Client_send_raw (checked h g S) = Client_send_raw S"
  "Client_send (checked h g S) = Client_send S"
  "logout (checked h g S) = logout S"
proof -
  show raw: "Client_send_raw (checked h g S) = Client_send_raw S"
    by (intro ext) (simp add: Client_send_raw_def cong: option.case_cong)
  show send: "Client_send (checked h g S) = Client_send S"
    by (intro ext) (simp only: Client_send_def raw)
  show "logout (checked h g S) = logout S"
    by (intro ext) (simp only: logout_def send checked_simps)
qed

text \<open>The loop of \<open>onMessage\<close> is determined by its rounds.\<close>

lemma recv_loop_sub:
  assumes "recv_round S = recv_round T" "recv_loop S c = Some r"
  shows "recv_loop T c = Some r"
proof -
  have "recv_round S' = recv_round T \<longrightarrow> recv_loop T c' = Some r'" if "recv_loop S' c' = Some r'" for S' c' r'
  proof (rule recv_loop.raw_induct [where P = "\<lambda>S c r. recv_round S = recv_round T \<longrightarrow> recv_loop T c = Some r",
        OF _ that], intro impI)
    fix f :: "'a client_scheme sdk \<Rightarrow> 'a client_scheme \<Rightarrow> 'a client_scheme res option" and S c r
    assume "\<And>S c r. f S c = Some r \<Longrightarrow> recv_round S = recv_round T \<longrightarrow> recv_loop T c = Some r"
      and "(case recv_round S c of Inl e \<Rightarrow> Some (Inl e)
            | Inr r \<Rightarrow> if fst r then f S (snd r) else Some (Inr (snd r))) = Some r"
      and "recv_round S = recv_round T"
    then show "recv_loop T c = Some r"
      by (subst recv_loop.simps) (auto split: sum.splits if_splits)
  qed
  then show ?thesis using assms by blast
qed

lemma recv_loop_cong: "recv_round S = recv_round T \<Longrightarrow> recv_loop S = recv_loop T"
proof
  fix c assume "recv_round S = recv_round T"
  then show "recv_loop S c = recv_loop T c"
    using recv_loop_sub [of S T c] recv_loop_sub [of T S c] by (cases "recv_loop S c") force+
qed

lemma onHandleAuthRsp_checked:
  assumes "text_runtime (pb S)" "\<And>f m d. CIMAuthRsp_text (pb S) m \<Longrightarrow> h f m d = on_login S f m d"
  shows "onHandleAuthRsp (checked h g S) header c = onHandleAuthRsp S header c"
  unfolding onHandleAuthRsp_def
  using text_runtime.CIMAuthRsp_parsed_text [OF assms(1)] assms(2)
  by (simp add: Let_def cong: bind_r_cong option.case_cong if_cong)

lemma ChatManager_checked:
  assumes "text_runtime (pb S)" "\<And>f m d. CIMMsgData_text (pb S) m \<Longrightarrow> g f m d = on_recv_msg S f m d"
  shows "ChatManager_onHandleData (checked h g S) header c = ChatManager_onHandleData S header c"
  unfolding ChatManager_onHandleData_def
  using text_runtime.CIMMsgData_parsed_text [OF assms(1)] assms(2)
  by (simp cong: bind_r_cong option.case_cong)

lemma client_cbs_checked:
  assumes "text_runtime (pb S)"
    and "\<And>f m d. CIMAuthRsp_text (pb S) m \<Longrightarrow> h f m d = on_login S f m d"
    and "\<And>f m d. CIMMsgData_text (pb S) m \<Longrightarrow> g f m d = on_recv_msg S f m d"
    and "CIMAuthRsp_text (pb S) failed_rsp"
  shows "client_cbs (checked h g S) = client_cbs S"
proof -
  have "Client_onHandleData (checked h g S) = Client_onHandleData S"
    by (intro ext) (simp add: Client_onHandleData_def onHandleAuthRsp_checked [OF assms(1,2)]
        ChatManager_checked [OF assms(1,3)])
  then have "recv_round (checked h g S) = recv_round S"
    by (intro ext) (simp only: recv_round_def)
  from recv_loop_cong [OF this] have "onMessage (checked h g S) conn bs c = onMessage S conn bs c" for conn bs c
    by (simp only: onMessage_def)
  moreover have "onConnectionStatusChanged (checked h g S) conn status c = onConnectionStatusChanged S conn status c"
    for conn status c
    using assms(2) [OF assms(4)]
    by (simp add: onConnectionStatusChanged_def cong: bind_r_cong option.case_cong if_cong)
  ultimately show ?thesis by (simp only: client_cbs_def)
qed

lemma checked_members:
  "login (checked h g S) = login S" "sendMessage (checked h g S) = sendMessage S"
  "onTimer (checked h g S) = onTimer S"
  by (intro ext; simp only: login_def sendMessage_def onTimer_def checked_sends checked_simps)+

inductive_simps client_step_iff: "client_step nd S c c'"

text \<open>
  C7. Nothing a server sends makes the SDK hand its user text that is not UTF-8: every event of the
  network, a read of any bytes or a completion, and every step of a run does the same whatever the
  login callback and the receive callback do with messages whose text fields, the nested user's
  included, are not UTF-8. The runtime has to accept the empty text and the SDK's own message, which
  are UTF-8.
\<close>

theorem received_text:
  assumes "VerifyUTF8 (pb S) []" "VerifyUTF8 (pb S) kConnectFailed"
    and "\<And>f m d. CIMAuthRsp_text (pb S) m \<Longrightarrow> on_login' f m d = on_login S f m d"
    and "\<And>f m d. CIMMsgData_text (pb S) m \<Longrightarrow> on_recv' f m d = on_recv_msg S f m d"
  defines "S' \<equiv> S\<lparr>on_login := on_login', on_recv_msg := on_recv'\<rparr>"
  shows "onRead ndebug (client_cbs S') h nread b bs c = onRead ndebug (client_cbs S) h nread b bs c \<and>
    onConnect ndebug (client_cbs S') h status c = onConnect ndebug (client_cbs S) h status c \<and>
    client_step ndebug S' = client_step ndebug S"
proof -
  have S': "S' = checked on_login' on_recv' S" by (simp add: S'_def checked_def)
  have "CIMAuthRsp_text (pb S) failed_rsp"
    using assms(1,2) by (simp add: failed_rsp_def CIMAuthRsp_text_def CIMAuthRsp_new_def)
  from client_cbs_checked [OF text_runtime.intro [OF assms(1)] assms(3,4) this]
  have cbs: "client_cbs S' = client_cbs S" by (simp add: S')
  moreover have "client_step ndebug S' = client_step ndebug S"
    by (intro ext) (simp only: client_step_iff cbs; simp only: S' checked_members checked_sends)
  ultimately show ?thesis by simp
qed

text \<open>
  A user who stops the process on any other text: on every state and read it does what the user does
  who takes every message, so it never stops the process.
\<close>

definition strict_user :: "client sdk" where
  "strict_user = sdk0\<lparr>
     on_login := (\<lambda>f m d. if CIMAuthRsp_text leb_runtime m then Inr d else Inl AssertFailed),
     on_recv_msg := (\<lambda>f m d. if CIMMsgData_text leb_runtime m then Inr d else Inl AssertFailed)\<rparr>"

theorem received_text_witness:
  "(\<forall>h n b bs c. onRead False (client_cbs strict_user) h n b bs c = onRead False (client_cbs sdk0) h n b bs c) \<and>
   client_step False strict_user = client_step False sdk0 \<and>
   on_recv_msg strict_user 9 (CIMMsgData_new\<lparr>MsgData_from_nick_name := [0xff]\<rparr>) client0 = Inl AssertFailed"
proof -
  have pb: "pb (sdk0 :: client sdk) = leb_runtime" by (simp add: sdk0_def)
  have utf: "VerifyUTF8 leb_runtime []" "VerifyUTF8 leb_runtime kConnectFailed"
    by (simp_all add: leb_runtime_def kConnectFailed_def cont_def)
  have "on_login (sdk0 :: client sdk) = (\<lambda>_ _. Inr)" "on_recv_msg (sdk0 :: client sdk) = (\<lambda>_ _. Inr)"
    by (simp_all add: sdk0_def)
  with received_text [of "sdk0 :: client sdk", unfolded pb, OF utf] show ?thesis
    by (simp add: strict_user_def CIMMsgData_text_def leb_runtime_def)
qed

end
