(* ===== verification/FileUtil.thy ===== *)
theory FileUtil
  imports Prelude
begin

text \<open>
  Paths and directories (\<open>cim/base/file/file_util.h\<close>, \<open>file_util.cpp\<close>). A \<open>const char *\<close> is an
  offset in a block of cells; reading past the block is the fault \<open>OutOfBounds\<close>. The file system is
  the parameter \<open>file_sys\<close>: what \<open>access\<close>, \<open>opendir\<close> and \<open>mkdir\<close> answer in a state, and the state
  after \<open>mkdir\<close>.
\<close>

section \<open>C strings\<close>

definition char_at :: "memory \<Rightarrow> nat \<Rightarrow> byte res" where
  "char_at m i = bind_r (mem_read m i 1) (\<lambda>bs. Inr (hd bs))"

text \<open>\<open>std::string::c_str()\<close>: the characters and a terminator.\<close>

definition c_block :: "byte list \<Rightarrow> memory" where
  "c_block s = map Some (s @ [0])"

definition until_nul :: "byte list \<Rightarrow> byte list" where
  "until_nul s = takeWhile (\<lambda>b. b \<noteq> 0) s"

section \<open>Path components\<close>

definition kFilePathSeparators :: "byte list" where "kFilePathSeparators = [47]"

text \<open>
  \<open>for (c = seperators; *c && *next != *c; c++);\<close> stops at a separator equal to the character, or at
  the terminator of the separators: \<open>*c\<close> is then non-null just when one was found.
\<close>

fun at_sep :: "byte list \<Rightarrow> byte \<Rightarrow> bool" where
  "at_sep [] b = False"
| "at_sep (c # cs) b = (if b \<noteq> c then at_sep cs b else True)"

lemma char_at_bound: "char_at m i = Inr b \<Longrightarrow> i < length m"
  by (auto simp: char_at_def mem_read_def mem_get_def bind_r_eq_Inr split: if_splits)

function to_sep :: "byte list \<Rightarrow> memory \<Rightarrow> nat \<Rightarrow> nat res" where
  "to_sep seps m next =
     bind_r (char_at m next) (\<lambda>b.
     if at_sep seps b \<or> b = 0 then Inr next else to_sep seps m (next + 1))"
  by pat_completeness auto
termination
  by (relation "measure (\<lambda>(seps, m, next). length m - next)") (auto dest: char_at_bound)

function past_seps :: "byte list \<Rightarrow> memory \<Rightarrow> nat \<Rightarrow> nat res" where
  "past_seps seps m next =
     bind_r (char_at m next) (\<lambda>b.
     if \<not> at_sep seps b then Inr next else past_seps seps m (next + 1))"
  by pat_completeness auto
termination
  by (relation "measure (\<lambda>(seps, m, next). length m - next)") (auto dest: char_at_bound)

declare to_sep.simps [simp del] past_seps.simps [simp del]

lemma to_sep_ge: "to_sep seps m next = Inr e \<Longrightarrow> next \<le> e"
proof (induction seps m "next" rule: to_sep.induct)
  case (1 seps m "next")
  from "1.prems" show ?case
    by (subst (asm) to_sep.simps) (auto simp: bind_r_eq_Inr split: if_splits dest: "1.IH")
qed

lemma past_seps_ge: "past_seps seps m next = Inr e \<Longrightarrow> next \<le> e"
proof (induction seps m "next" rule: past_seps.induct)
  case (1 seps m "next")
  from "1.prems" show ?case
    by (subst (asm) past_seps.simps) (auto simp: bind_r_eq_Inr split: if_splits dest: "1.IH")
qed

text \<open>The outer loop of \<open>ParsePathComponentsT\<close>, from \<open>while (*next)\<close>.\<close>

function path_loop :: "byte list \<Rightarrow> memory \<Rightarrow> nat \<Rightarrow> byte list list \<Rightarrow> byte list list res" where
  "path_loop seps m next components =
     bind_r (char_at m next) (\<lambda>b.
     if b = 0 then Inr components
     else
       bind_r (to_sep seps m next) (\<lambda>e.
       bind_r (mem_read m next (e - next)) (\<lambda>s.
       bind_r (char_at m e) (\<lambda>b.
       bind_r (past_seps seps m (e + 1)) (\<lambda>next'.
       path_loop seps m next' (components @ [if b \<noteq> 0 then s @ [hd seps] else s]))))))"
  by pat_completeness auto
termination
proof (relation "measure (\<lambda>(seps, m, next, components). length m - next)", goal_cases)
  case (2 seps m "next" components b e s b' next')
  then have "next < length m" "next + 1 \<le> next'"
    using to_sep_ge past_seps_ge char_at_bound by fastforce+
  then show ?case by simp
qed simp

declare path_loop.simps [simp del]

text \<open>\<open>ParsePathComponents\<close>; the flag it returns is false only for a null pointer.\<close>

definition ParsePathComponents :: "memory option \<Rightarrow> (bool \<times> byte list list) res" where
  "ParsePathComponents path =
     (case path of None \<Rightarrow> Inr (False, [])
      | Some m \<Rightarrow> bind_r (path_loop kFilePathSeparators m 0 []) (\<lambda>cs. Inr (True, cs)))"

section \<open>Directories\<close>

record 'w file_sys =
  sys_access :: "byte list \<Rightarrow> 'w \<Rightarrow> int"
  sys_opendir :: "byte list \<Rightarrow> 'w \<Rightarrow> bool"
  sys_mkdir :: "byte list \<Rightarrow> nat \<Rightarrow> 'w \<Rightarrow> int \<times> 'w"

definition FilePathIsExist :: "'w file_sys \<Rightarrow> byte list \<Rightarrow> bool \<Rightarrow> 'w \<Rightarrow> bool" where
  "FilePathIsExist fs filepath is_directory w =
     (if \<not> is_directory then sys_access fs (until_nul filepath) w = 0
      else sys_opendir fs (until_nul filepath) w)"

text \<open>The list of all parent directories: each component after the ones before it.\<close>

fun collect :: "byte list \<Rightarrow> byte list list \<Rightarrow> byte list list" where
  "collect prev [] = []"
| "collect prev (c # cs) = (prev @ c) # collect (prev @ c) cs"

fun make_dirs :: "'w file_sys \<Rightarrow> byte list list \<Rightarrow> 'w \<Rightarrow> bool \<times> 'w" where
  "make_dirs fs [] w = (True, w)"
| "make_dirs fs (d # ds) w =
     (if FilePathIsExist fs d True w then make_dirs fs ds w
      else
        let (ret, w) = sys_mkdir fs (until_nul d) 448 w in
        if ret = 0 then make_dirs fs ds w
        else if \<not> FilePathIsExist fs d True w then (False, w)
        else make_dirs fs ds w)"

definition CreateDirectory_ptr :: "'w file_sys \<Rightarrow> memory option \<Rightarrow> 'w \<Rightarrow> (bool \<times> 'w) res" where
  "CreateDirectory_ptr fs full_path w =
     (if full_path = None then Inr (False, w)
      else
        bind_r (ParsePathComponents full_path) (\<lambda>(_, subpaths).
        if subpaths = [] then Inr (False, w)
        else Inr (make_dirs fs (collect [] subpaths) w)))"

definition CreateDirectory :: "'w file_sys \<Rightarrow> byte list \<Rightarrow> 'w \<Rightarrow> (bool \<times> 'w) res" where
  "CreateDirectory fs full_path w = CreateDirectory_ptr fs (Some (c_block full_path)) w"

section \<open>What parsing returns\<close>

lemma at_sep_slash [simp]: "at_sep kFilePathSeparators b \<longleftrightarrow> b = 47"
  by (simp add: kFilePathSeparators_def)

lemma char_at_block [simp]:
  "char_at (map Some (pre @ rest @ [0])) (length pre) = Inr (hd (rest @ [0]))"
  by (cases rest) (simp_all add: char_at_def mem_read_def mem_values_def)

lemma mem_read_block: "mem_read (map Some (pre @ xs @ ys)) (length pre) (length xs) = Inr xs"
  by (simp add: mem_read_def mem_get_def)

lemma char_at_end: "length m \<le> i \<Longrightarrow> char_at m i = Inl OutOfBounds"
  by (simp add: char_at_def mem_read_def mem_get_def)

lemma block_shift: "map Some (pre @ (x # rest) @ [0]) = map Some ((pre @ [x]) @ rest @ [0])"
  by simp

lemma to_sep_block:
  "0 \<notin> set rest \<Longrightarrow>
   to_sep kFilePathSeparators (map Some (pre @ rest @ [0])) (length pre) =
     Inr (length pre + length (takeWhile (\<lambda>b. b \<noteq> 47) rest))"
proof (induction rest arbitrary: pre)
  case Nil
  show ?case by (subst to_sep.simps, subst char_at_block) simp
next
  case (Cons x rest)
  have "to_sep kFilePathSeparators (map Some ((pre @ [x]) @ rest @ [0])) (length (pre @ [x])) =
     Inr (length (pre @ [x]) + length (takeWhile (\<lambda>b. b \<noteq> 47) rest))"
    by (rule Cons.IH) (use Cons.prems in simp)
  then show ?case using Cons.prems
    by (subst to_sep.simps, subst char_at_block) (auto simp: block_shift)
qed

lemma past_seps_block:
  "past_seps kFilePathSeparators (map Some (pre @ rest @ [0])) (length pre) =
     Inr (length pre + length (takeWhile (\<lambda>b. b = 47) rest))"
proof (induction rest arbitrary: pre)
  case Nil
  show ?case by (subst past_seps.simps, subst char_at_block) simp
next
  case (Cons x rest)
  have "past_seps kFilePathSeparators (map Some ((pre @ [x]) @ rest @ [0])) (length (pre @ [x])) =
     Inr (length (pre @ [x]) + length (takeWhile (\<lambda>b. b = 47) rest))"
    by (rule Cons.IH)
  then show ?case
    by (subst past_seps.simps, subst char_at_block) (auto simp: block_shift)
qed

text \<open>The components of a path: names with one separator each, runs of separators joined.\<close>

function components_of :: "byte list \<Rightarrow> byte list list" where
  "components_of p =
     (case dropWhile (\<lambda>b. b \<noteq> 47) p of [] \<Rightarrow> []
      | _ # rest \<Rightarrow>
        (takeWhile (\<lambda>b. b \<noteq> 47) p @ [47]) # components_of (dropWhile (\<lambda>b. b = 47) rest))"
  by pat_completeness auto
termination
proof (relation "measure length", goal_cases)
  case (2 p x rest)
  have "length (dropWhile (\<lambda>b. b = 47) rest) \<le> length rest" by (rule length_dropWhile_le)
  also have "\<dots> < length (dropWhile (\<lambda>b. b \<noteq> 47) p)" using 2 by (metis length_Cons lessI)
  also have "\<dots> \<le> length p" by (rule length_dropWhile_le)
  finally show ?case by simp
qed simp

declare components_of.simps [simp del]

lemma components_of_none: "dropWhile (\<lambda>b. b \<noteq> 47) p = [] \<Longrightarrow> components_of p = []"
  by (subst components_of.simps) (simp only: list.case)

lemma components_of_some:
  "dropWhile (\<lambda>b. b \<noteq> 47) p = x # r \<Longrightarrow>
   components_of p = (takeWhile (\<lambda>b. b \<noteq> 47) p @ [47]) # components_of (dropWhile (\<lambda>b. b = 47) r)"
  by (subst components_of.simps) (simp only: list.case)

lemmas components = components_of_none components_of_some

text \<open>
  A path that does not end in a separator is read past its end: after the last name \<open>++next\<close> steps
  over the terminator.
\<close>

lemma past_seps_end: "length m \<le> i \<Longrightarrow> past_seps seps m i = Inl OutOfBounds"
  by (subst past_seps.simps) (simp add: char_at_end)

text \<open>
  What one round of the loop reads at \<open>rest\<close>, the path from the position on: the component up to the
  next separator.
\<close>

abbreviation block :: "byte list \<Rightarrow> byte list" where
  "block rest \<equiv> takeWhile (\<lambda>b. b \<noteq> 47) rest"

lemma round_reads:
  fixes pre rest :: "byte list"
  defines "m \<equiv> map Some (pre @ rest @ [0])"
  assumes "0 \<notin> set rest"
  shows "to_sep kFilePathSeparators m (length pre) = Inr (length pre + length (block rest))"
    "char_at m (length pre) = Inr (hd (rest @ [0]))" "rest \<noteq> [] \<Longrightarrow> hd (rest @ [0]) \<noteq> 0"
    "mem_read m (length pre) (length (block rest)) = Inr (block rest)"
proof -
  show "to_sep kFilePathSeparators m (length pre) = Inr (length pre + length (block rest))"
    unfolding m_def by (rule to_sep_block [OF assms(2)])
  show "char_at m (length pre) = Inr (hd (rest @ [0]))" unfolding m_def by (rule char_at_block)
  show "rest \<noteq> [] \<Longrightarrow> hd (rest @ [0]) \<noteq> 0" using assms(2) by (cases rest) auto
  show "mem_read m (length pre) (length (block rest)) = Inr (block rest)"
    unfolding m_def using mem_read_block [of pre "block rest" "dropWhile (\<lambda>b. b \<noteq> 47) rest @ [0]"]
    by (simp only: append_assoc [symmetric] takeWhile_dropWhile_id [of _ rest]
        append_assoc [of _ "block rest" "dropWhile (\<lambda>b. b \<noteq> 47) rest"])
qed

text \<open>Without a separator the search for the next component runs past the string.\<close>

lemma path_loop_last:
  assumes "0 \<notin> set rest" "\<forall>b \<in> set rest. b \<noteq> 47" "rest \<noteq> []"
  shows "path_loop kFilePathSeparators (map Some (pre @ rest @ [0])) (length pre) acc = Inl OutOfBounds"
proof -
  let ?m = "map Some (pre @ rest @ [0])"
  have n: "block rest = rest" using assms(2) by simp
  have b: "char_at ?m (length pre + length rest) = Inr 0"
    using char_at_block [of "pre @ rest" "[]"] by simp
  have p: "past_seps kFilePathSeparators ?m (length pre + length rest + 1) = Inl OutOfBounds"
    by (rule past_seps_end) simp
  show ?thesis
    by (subst path_loop.simps, subst round_reads(2) [OF assms(1)])
      (use round_reads(1,2,4) [OF assms(1), of pre] round_reads(3) [OF assms(1)] b p n assms(3) in simp)
qed

lemma path_loop_step:
  assumes "0 \<notin> set rest" "rest = block rest @ 47 # r"
  shows "path_loop kFilePathSeparators (map Some (pre @ rest @ [0])) (length pre) acc =
     path_loop kFilePathSeparators (map Some (pre @ rest @ [0]))
       (length pre + length (block rest) + 1 + length (takeWhile (\<lambda>b. b = 47) r)) (acc @ [block rest @ [47]])"
proof -
  let ?m = "map Some (pre @ rest @ [0])" and ?n = "block rest"
  have pre2: "pre @ rest @ [0] = (pre @ ?n) @ (47 # r) @ [0]" using assms(2) by simp
  have pre3: "pre @ rest @ [0] = (pre @ ?n @ [47]) @ r @ [0]" using assms(2) by simp
  have b: "char_at ?m (length pre + length ?n) = Inr 47"
    unfolding pre2 using char_at_block [of "pre @ ?n" "47 # r"] by simp
  have p: "past_seps kFilePathSeparators ?m (length pre + length ?n + 1) =
      Inr (length pre + length ?n + 1 + length (takeWhile (\<lambda>b. b = 47) r))"
    unfolding pre3 using past_seps_block [of "pre @ ?n @ [47]" r] by simp
  have "rest \<noteq> []" using assms(2) by auto
  then show ?thesis
    by (subst path_loop.simps, subst round_reads(2) [OF assms(1)])
      (use round_reads(1,2,4) [OF assms(1), of pre] round_reads(3) [OF assms(1)] b p in \<open>simp add: kFilePathSeparators_def\<close>)
qed

lemma path_loop_block:
  assumes "0 \<notin> set rest"
  shows "path_loop kFilePathSeparators (map Some (pre @ rest @ [0])) (length pre) acc =
     (if rest = [] \<or> last rest = 47 then Inr (acc @ components_of rest) else Inl OutOfBounds)"
  using assms
proof (induction rest arbitrary: pre acc rule: components_of.induct)
  case (1 rest)
  show ?case
  proof (cases "dropWhile (\<lambda>b. b \<noteq> 47) rest")
    case Nil
    then have all: "\<forall>b \<in> set rest. b \<noteq> 47" by (simp add: dropWhile_eq_Nil_conv)
    show ?thesis
    proof (cases "rest = []")
      case True
      then show ?thesis by (subst path_loop.simps, subst char_at_block) (simp add: components_of.simps)
    next
      case False
      then have "last rest \<noteq> 47" using all last_in_set by metis
      then show ?thesis using path_loop_last [OF "1.prems" all False] False by simp
    qed
  next
    case (Cons x r)
    then have "x = 47" using hd_dropWhile [of "\<lambda>b. b \<noteq> 47" rest] by auto
    then have split: "rest = block rest @ 47 # r"
      using takeWhile_dropWhile_id [of "\<lambda>b. b \<noteq> 47" rest] Cons by simp
    let ?k = "takeWhile (\<lambda>b. b = 47) r" and ?r = "dropWhile (\<lambda>b. b = 47) r"
    have r: "r = ?k @ ?r" by simp
    have pre4: "pre @ rest @ [0] = (pre @ block rest @ [47] @ ?k) @ ?r @ [0]" using split r by simp
    have z: "0 \<notin> set ?r"
      using "1.prems" set_dropWhileD [of 0 "\<lambda>b. b = 47" r] by (subst (asm) split) auto
    have "?r = [] \<or> last ?r = last r" by (metis r last_appendR)
    moreover have "last rest = (if r = [] then 47 else last r)" by (subst split) simp
    moreover have "last r = 47" if "?r = []" "r \<noteq> []"
      using that last_in_set [of r] by (simp add: dropWhile_eq_Nil_conv)
    ultimately have l: "(?r = [] \<or> last ?r = 47) \<longleftrightarrow> last rest = 47" by auto
    have "path_loop kFilePathSeparators (map Some (pre @ rest @ [0])) (length pre) acc =
        (if last rest = 47 then Inr ((acc @ [block rest @ [47]]) @ components_of ?r) else Inl OutOfBounds)"
      unfolding path_loop_step [OF "1.prems" split]
      unfolding pre4 using "1.IH" [OF Cons z, of "pre @ block rest @ [47] @ ?k" "acc @ [block rest @ [47]]"] l
      by (simp add: add.assoc)
    moreover have "rest \<noteq> []" using Cons by auto
    ultimately show ?thesis using Cons by (simp add: components [of rest])
  qed
qed

section \<open>Properties\<close>

text \<open>The file system as its clients rely on it: \<open>mkdir\<close> that succeeded made the directory, and no
  \<open>mkdir\<close> removes one.\<close>

definition fs_ok :: "'w file_sys \<Rightarrow> bool" where
  "fs_ok fs \<longleftrightarrow>
     (\<forall>d n w w'. sys_mkdir fs d n w = (0, w') \<longrightarrow> sys_opendir fs d w') \<and>
     (\<forall>d n w r w' d'. sys_mkdir fs d n w = (r, w') \<longrightarrow> sys_opendir fs d' w \<longrightarrow> sys_opendir fs d' w')"

lemma fs_okD:
  assumes "fs_ok fs"
  shows "sys_mkdir fs d n w = (0, w') \<Longrightarrow> sys_opendir fs d w'"
    and "sys_mkdir fs d n w = (r, w') \<Longrightarrow> sys_opendir fs d' w \<Longrightarrow> sys_opendir fs d' w'"
  using assms unfolding fs_ok_def by blast+

lemma make_dirs_keeps:
  assumes fs: "fs_ok fs"
  shows "make_dirs fs ds w = (b, w') \<Longrightarrow> sys_opendir fs d w \<Longrightarrow> sys_opendir fs d w'"
proof (induction ds arbitrary: w)
  case (Cons d' ds)
  then show ?case using fs_okD(2) [OF fs] by (fastforce split: if_splits prod.splits)
qed simp

lemma make_dirs_all:
  assumes fs: "fs_ok fs" and "make_dirs fs ds w = (True, w')"
  shows "\<forall>d \<in> set ds. FilePathIsExist fs d True w'"
  using assms(2)
proof (induction ds arbitrary: w)
  case (Cons d ds)
  obtain w1 where w1: "make_dirs fs ds w1 = (True, w')" "FilePathIsExist fs d True w1"
    using Cons.prems fs_okD(1) [OF fs]
    by (auto simp: FilePathIsExist_def split: if_splits prod.splits)
  from make_dirs_keeps [OF fs w1(1)] w1(2) have "FilePathIsExist fs d True w'"
    by (simp add: FilePathIsExist_def)
  with Cons.IH [OF w1(1)] show ?case by simp
qed simp

lemma collect_last: "cs \<noteq> [] \<Longrightarrow> last (collect prev cs) = prev @ concat cs \<and> collect prev cs \<noteq> []"
proof (induction cs arbitrary: prev)
  case (Cons c cs)
  show ?case
  proof (cases "cs = []")
    case False
    with Cons.IH [OF this, of "prev @ c"] show ?thesis by simp
  qed simp
qed simp

text \<open>Runs of separators become one.\<close>

fun squeeze :: "byte list \<Rightarrow> byte list" where
  "squeeze (a # b # bs) = (if a = 47 \<and> b = 47 then squeeze (b # bs) else a # squeeze (b # bs))"
| "squeeze bs = bs"

lemma squeeze_name: "47 \<notin> set n \<Longrightarrow> squeeze (n @ 47 # r) = n @ squeeze (47 # r)"
  by (induction n rule: squeeze.induct) auto

lemma squeeze_run: "squeeze (47 # r) = 47 # squeeze (dropWhile (\<lambda>b. b = 47) r)"
proof (induction r)
  case (Cons x r)
  then show ?case by (cases r) auto
qed simp

lemma concat_components:
  "p = [] \<or> last p = 47 \<Longrightarrow> concat (components_of p) = squeeze p"
proof (induction p rule: components_of.induct)
  case (1 p)
  let ?n = "takeWhile (\<lambda>b. b \<noteq> 47) p"
  show ?case
  proof (cases "dropWhile (\<lambda>b. b \<noteq> 47) p")
    case Nil
    then have "\<forall>b \<in> set p. b \<noteq> 47" by (simp only: dropWhile_eq_Nil_conv)
    then have "p = []" using "1.prems" last_in_set [of p] by blast
    then show ?thesis by (simp add: components)
  next
    case (Cons x r)
    let ?r = "dropWhile (\<lambda>b. b = 47) r"
    have "x = 47" using hd_dropWhile [of "\<lambda>b. b \<noteq> 47" p] Cons by auto
    then have split: "p = ?n @ 47 # r" using takeWhile_dropWhile_id [of "\<lambda>b. b \<noteq> 47" p] Cons by simp
    have "last p = (if r = [] then 47 else last r)" by (subst split) simp
    then have l: "?r = [] \<or> last ?r = 47"
      using "1.prems" split by (metis append_is_Nil_conv dropWhile_eq_Nil_conv last_appendR takeWhile_dropWhile_id list.distinct(1) dropWhile.simps(1))
    have "47 \<notin> set ?n" using set_takeWhileD by fastforce
    then have "squeeze p = ?n @ 47 # squeeze ?r"
      by (subst split) (simp add: squeeze_name squeeze_run)
    then show ?thesis using "1.IH" [OF Cons l] Cons by (simp add: components [of p])
  qed
qed

text \<open>
  C24. Parsing a path: one that ends in a separator (or is empty) gives its components, which put
  together are the path with runs of separators joined; any other path is read past its
  terminator, also the SDK's own "data" and "logs".
\<close>

theorem ParsePathComponents_spec:
  assumes "0 \<notin> set p"
  shows "ParsePathComponents (Some (c_block p)) =
      (if p = [] \<or> last p = 47 then Inr (True, components_of p) else Inl OutOfBounds) \<and>
    (p = [] \<or> last p = 47 \<longrightarrow> concat (components_of p) = squeeze p \<and>
       (\<forall>c \<in> set (components_of p). \<exists>n. c = n @ [47] \<and> 47 \<notin> set n))"
proof -
  have "\<forall>c \<in> set (components_of p). \<exists>n. c = n @ [47] \<and> 47 \<notin> set n"
  proof (induction p rule: components_of.induct)
    case (1 p)
    have "47 \<notin> set (takeWhile (\<lambda>b. b \<noteq> 47) p)" using set_takeWhileD by fastforce
    with "1.IH" show ?case
      by (cases "dropWhile (\<lambda>b. b \<noteq> 47) p") (auto simp: components [of p])
  qed
  then show ?thesis
    using path_loop_block [OF assms, of "[]" "[]"] concat_components [of p]
    by (simp add: ParsePathComponents_def c_block_def)
qed

theorem ParsePathComponents_spec_witness:
  "ParsePathComponents (Some (c_block (ascii ''data''))) = Inl OutOfBounds \<and>
   ParsePathComponents (Some (c_block (ascii ''a//b/''))) = Inr (True, [ascii ''a/'', ascii ''b/''])"
  using ParsePathComponents_spec [of "ascii ''data''"] ParsePathComponents_spec [of "ascii ''a//b/''"]
  by (simp add: ascii_def components)

text \<open>
  C25. When \<open>CreateDirectory\<close> returns true, every directory on the path exists, the last one being
  the path itself; it cannot return at all for a path that does not end in a separator.
\<close>

theorem CreateDirectory_makes:
  assumes "fs_ok fs" "0 \<notin> set p" "CreateDirectory fs p w = Inr (r, w')"
  shows "(p = [] \<or> last p = 47) \<and> (r \<longrightarrow> p \<noteq> [] \<and>
     (\<forall>d \<in> set (collect [] (components_of p)). FilePathIsExist fs d True w') \<and>
     FilePathIsExist fs (squeeze p) True w')"
proof -
  have loop: "path_loop kFilePathSeparators (c_block p) 0 [] =
      (if p = [] \<or> last p = 47 then Inr (components_of p) else Inl OutOfBounds)"
    using path_loop_block [OF assms(2), of "[]" "[]"] by (simp add: c_block_def)
  then have p: "p = [] \<or> last p = 47"
    using assms(3) by (auto simp: CreateDirectory_def CreateDirectory_ptr_def ParsePathComponents_def split: if_splits)
  show ?thesis
  proof (cases "components_of p = [] \<or> \<not> r")
    case True
    then show ?thesis using p loop assms(3)
      by (auto simp: CreateDirectory_def CreateDirectory_ptr_def ParsePathComponents_def split: if_splits)
  next
    case False
    then have cs: "components_of p \<noteq> []" and r by simp_all
    then have "make_dirs fs (collect [] (components_of p)) w = (True, w')"
      using p loop assms(3)
      by (simp add: CreateDirectory_def CreateDirectory_ptr_def ParsePathComponents_def)
    from make_dirs_all [OF assms(1) this] have
      all: "\<forall>d \<in> set (collect [] (components_of p)). FilePathIsExist fs d True w'" .
    have "squeeze p \<in> set (collect [] (components_of p))"
      using collect_last [OF cs, of "[]"] concat_components [OF p] last_in_set by fastforce
    with all p cs show ?thesis by (auto simp: components [of "[]"])
  qed
qed

text \<open>A file system that is the list of its directories.\<close>

definition list_fs :: "byte list list file_sys" where
  "list_fs = \<lparr>sys_access = (\<lambda>p w. if p \<in> set w then 0 else -1), sys_opendir = (\<lambda>p w. p \<in> set w),
              sys_mkdir = (\<lambda>p n w. (0, p # w))\<rparr>"

lemma list_fs_ok: "fs_ok list_fs"
  by (auto simp: fs_ok_def list_fs_def)

lemma list_fs_makes: "\<exists>w'. make_dirs list_fs ds w = (True, w')"
proof (induction ds arbitrary: w)
  case (Cons d ds)
  have mk: "sys_mkdir list_fs d' n w = (0, d' # w)" for d' n by (simp add: list_fs_def)
  show ?case using Cons.IH by (simp add: mk Let_def)
qed simp

theorem CreateDirectory_makes_witness:
  "\<exists>w'. CreateDirectory list_fs (ascii ''a/b/'') [] = Inr (True, w') \<and>
        FilePathIsExist list_fs (ascii ''a/b/'') True w'"
proof -
  have "path_loop kFilePathSeparators (c_block (ascii ''a/b/'')) 0 [] = Inr [ascii ''a/'', ascii ''b/'']"
    using path_loop_block [of "ascii ''a/b/''" "[]" "[]"]
    by (simp add: c_block_def ascii_def components)
  moreover obtain w' where "make_dirs list_fs (collect [] [ascii ''a/'', ascii ''b/'']) [] = (True, w')"
    using list_fs_makes by blast
  ultimately have w': "CreateDirectory list_fs (ascii ''a/b/'') [] = Inr (True, w')"
    by (simp add: CreateDirectory_def CreateDirectory_ptr_def ParsePathComponents_def
        del: collect.simps make_dirs.simps)
  have "0 \<notin> set (ascii ''a/b/'')" "squeeze (ascii ''a/b/'') = ascii ''a/b/''" by (simp_all add: ascii_def)
  with CreateDirectory_makes [OF list_fs_ok _ w'] have
    "FilePathIsExist list_fs (ascii ''a/b/'') True w'" by simp
  with w' show ?thesis by blast
qed

end
