(* ===== verification/ConfigDao.thy ===== *)
theory ConfigDao
  imports CimDef FileUtil TcpClient
begin

text \<open>
  The configuration store (\<open>cim/db/sqlite3_helper.cpp\<close>, \<open>cim/db/config_dao.cpp\<close>): SQL statements
  over SQLite, which is the parameter \<open>sqlite\<close>; a database is a value of the type \<open>'d\<close>. \<open>None\<close> is
  an exception of SQLiteCpp, which leaves the database as it was; a query that was prepared gives
  its rows, and whether stepping on after the last of them threw.
\<close>

section \<open>SQLite\<close>

record 'd sqlite =
  sql_open :: "byte list \<Rightarrow> bool \<Rightarrow> 'd option"
  sql_tableExists :: "byte list \<Rightarrow> 'd \<Rightarrow> bool option"
  sql_exec :: "byte list \<Rightarrow> byte list list \<Rightarrow> 'd \<Rightarrow> (int \<times> 'd) option"
  sql_columns :: "byte list \<Rightarrow> 'd \<Rightarrow> nat option"
  sql_query :: "byte list \<Rightarrow> byte list list \<Rightarrow> 'd \<Rightarrow> (byte list list list \<times> bool) option"

text \<open>\<open>SqliteHelper\<close>'s members.\<close>

record 'd sqlite_helper =
  helper_db :: "'d option"
  db_is_open :: bool

definition getConn :: "'d sqlite_helper \<Rightarrow> 'd res" where
  "getConn s = (case helper_db s of None \<Rightarrow> Inl AssertFailed | Some d \<Rightarrow> Inr d)"

text \<open>\<open>getColumn\<close> throws for a column the row does not have.\<close>

definition column :: "byte list list \<Rightarrow> nat \<Rightarrow> byte list option" where
  "column row n = (if n < length row then Some (row ! n) else None)"

section \<open>The statements\<close>

definition CREATE_SQL_USER_CONFIG :: "byte list" where
  "CREATE_SQL_USER_CONFIG = ascii (''CREATE TABLE [im_user_config]('' @
     ''[id] INTEGER PRIMARY KEY AUTOINCREMENT NOT NULL,'' @ ''[key] VARCHAR(64) NOT NULL,'' @
     ''[value] VARCHAR(128) NOT NULL,'' @ ''[reserved1] VARCHAR(32),'' @ ''[reserved2] VARCHAR(32));'')"

definition CREATE_SQL_INDEX_USER_CONFIG :: "byte list" where
  "CREATE_SQL_INDEX_USER_CONFIG =
     ascii (''CREATE UNIQUE INDEX[im_index_key]'' @ ''ON[im_user_config]('' @ ''[key]);'')"

definition INSERT_DATA_USER_CONFIG_IP :: "byte list" where
  "INSERT_DATA_USER_CONFIG_IP =
     ascii ''insert into im_user_config(key,value) values('' @ [39] @ ascii ''serverIp'' @ [39, 44, 39] @
     ascii ''127.0.0.1'' @ [39, 41]"

definition INSERT_DATA_USER_CONFIG_MSG_PORT :: "byte list" where
  "INSERT_DATA_USER_CONFIG_MSG_PORT =
     ascii ''insert into im_user_config(key,value) values('' @ [39] @ ascii ''gatePort'' @ [39, 44, 39] @
     ascii ''8000'' @ [39, 41]"

definition INSERT_DATA_USER_CONFIG_HTTP_PORT :: "byte list" where
  "INSERT_DATA_USER_CONFIG_HTTP_PORT =
     ascii ''insert into im_user_config(key,value) values('' @ [39] @ ascii ''httpPort'' @ [39, 44, 39] @
     ascii ''18080'' @ [39, 41]"

definition kTableNameUserConfig :: "byte list" where
  "kTableNameUserConfig = ascii ''im_user_config''"

definition SELECT_USER_CONFIG_SQL :: "byte list" where
  "SELECT_USER_CONFIG_SQL = ascii ''select id,key,value from '' @ kTableNameUserConfig"

definition SELECT_USER_CONFIG_SQL_SINGLE :: "byte list" where
  "SELECT_USER_CONFIG_SQL_SINGLE =
     ascii ''select id,key,value from '' @ kTableNameUserConfig @ ascii '' where key=?''"

definition UPDATE_USER_CONFIG_SQL_IP :: "byte list" where
  "UPDATE_USER_CONFIG_SQL_IP =
     ascii ''update '' @ kTableNameUserConfig @ ascii '' set value=? where key=?''"

definition INSERT_USER_CONFIG_SQL :: "byte list" where
  "INSERT_USER_CONFIG_SQL =
     ascii ''insert into '' @ kTableNameUserConfig @ ascii ''(key,value) values(?,?)''"

section \<open>ConfigDao\<close>

text \<open>The three statements of \<open>insertDefaultData\<close>, up to the first that throws.\<close>

fun exec_all :: "'d sqlite \<Rightarrow> byte list list \<Rightarrow> 'd \<Rightarrow> bool \<times> 'd" where
  "exec_all Q [] d = (True, d)"
| "exec_all Q (s # ss) d =
     (case sql_exec Q s [] d of None \<Rightarrow> (False, d) | Some (_, d) \<Rightarrow> exec_all Q ss d)"

definition insertDefaultData :: "'d sqlite \<Rightarrow> 'd sqlite_helper \<Rightarrow> 'd sqlite_helper res" where
  "insertDefaultData Q s =
     bind_r (getConn s) (\<lambda>conn.
     let (_, d) = exec_all Q [INSERT_DATA_USER_CONFIG_IP, INSERT_DATA_USER_CONFIG_MSG_PORT,
                              INSERT_DATA_USER_CONFIG_HTTP_PORT] conn in
     Inr (s\<lparr>helper_db := Some d\<rparr>))"

text \<open>
  \<open>createTable\<close> is \<open>noexcept\<close> and asks \<open>tableExists\<close> outside its \<open>try\<close>: an exception there ends the
  process.
\<close>

definition createTable :: "'d sqlite \<Rightarrow> 'd sqlite_helper \<Rightarrow> (bool \<times> 'd sqlite_helper) res" where
  "createTable Q s =
     bind_r (getConn s) (\<lambda>db.
     case sql_tableExists Q kTableNameUserConfig db of
       None \<Rightarrow> Inl (Thrown ''SQLite::Exception'')
     | Some True \<Rightarrow> Inr (True, s)
     | Some False \<Rightarrow>
       (let (ok, d) = exec_all Q [CREATE_SQL_USER_CONFIG, CREATE_SQL_INDEX_USER_CONFIG] db;
            s = s\<lparr>helper_db := Some d\<rparr> in
        if \<not> ok then Inr (False, s)
        else bind_r (insertDefaultData Q s) (\<lambda>s. Inr (True, s))))"

definition queryKey :: "'d sqlite \<Rightarrow> byte list \<Rightarrow> 'd sqlite_helper \<Rightarrow> byte list option res" where
  "queryKey Q key s =
     bind_r (getConn s) (\<lambda>conn.
     case sql_query Q SELECT_USER_CONFIG_SQL_SINGLE [key] conn of
       None \<Rightarrow> Inr None
     | Some ([], _) \<Rightarrow> Inr None
     | Some (row # _, _) \<Rightarrow> Inr (column row 2))"

definition updateKey :: "'d sqlite \<Rightarrow> byte list \<Rightarrow> byte list \<Rightarrow> 'd sqlite_helper \<Rightarrow> 'd sqlite_helper res" where
  "updateKey Q key newValue s =
     bind_r (getConn s) (\<lambda>conn.
     bind_r (queryKey Q key s) (\<lambda>outV.
     if outV \<noteq> None then
       (case sql_exec Q UPDATE_USER_CONFIG_SQL_IP [newValue, key] conn of
          None \<Rightarrow> Inr s | Some (_, d) \<Rightarrow> Inr (s\<lparr>helper_db := Some d\<rparr>))
     else
       (case sql_exec Q INSERT_USER_CONFIG_SQL [key, newValue] conn of
          None \<Rightarrow> Inr s | Some (_, d) \<Rightarrow> Inr (s\<lparr>helper_db := Some d\<rparr>))))"

text \<open>
  \<open>std::atoi\<close>: white space, a sign, digits; a value outside of \<open>int\<close> is undefined.
\<close>

definition is_space :: "byte \<Rightarrow> bool" where
  "is_space b \<longleftrightarrow> b = 32 \<or> 9 \<le> b \<and> b \<le> 13"

definition is_digit :: "byte \<Rightarrow> bool" where
  "is_digit b \<longleftrightarrow> 48 \<le> b \<and> b \<le> 57"

definition digits_value :: "byte list \<Rightarrow> nat" where
  "digits_value ds = foldl (\<lambda>n b. 10 * n + (unat b - 48)) 0 ds"

definition atoi :: "byte list \<Rightarrow> int res" where
  "atoi s =
     (let s = dropWhile is_space s;
          neg = (case s of [] \<Rightarrow> False | b # _ \<Rightarrow> b = 45);
          s = (case s of [] \<Rightarrow> [] | b # t \<Rightarrow> if b = 45 \<or> b = 43 then t else s);
          n = int (digits_value (takeWhile is_digit s));
          k = (if neg then - n else n) in
      bind_r (require Overflow (- (2 ^ 31) \<le> k \<and> k < 2 ^ 31)) (\<lambda>_. Inr k))"

text \<open>The body of \<open>query\<close>'s loop; a port is cut to 16 bits.\<close>

fun config_rows :: "byte list list list \<Rightarrow> ServerInfoConfig \<Rightarrow> (bool \<times> ServerInfoConfig) res" where
  "config_rows [] out = Inr (True, out)"
| "config_rows (row # rows) out =
     (case column row 1 of None \<Rightarrow> Inr (False, out)
      | Some key \<Rightarrow>
      (case column row 2 of None \<Rightarrow> Inr (False, out)
      | Some v \<Rightarrow>
        bind_r (if key = ascii ''serverIp'' then Inr (out\<lparr>cfg_ip := v\<rparr>)
                else if key = ascii ''gatePort'' then
                  bind_r (atoi v) (\<lambda>k. Inr (out\<lparr>cfg_gatePort := word_of_int k\<rparr>))
                else if key = ascii ''httpPort'' then
                  bind_r (atoi v) (\<lambda>k. Inr (out\<lparr>cfg_httpPort := word_of_int k\<rparr>))
                else Inr out) (config_rows rows)))"

definition query :: "'d sqlite \<Rightarrow> ServerInfoConfig \<Rightarrow> 'd sqlite_helper \<Rightarrow> (bool \<times> ServerInfoConfig) res" where
  "query Q out s =
     bind_r (getConn s) (\<lambda>conn.
     case sql_columns Q SELECT_USER_CONFIG_SQL conn of
       None \<Rightarrow> Inr (False, out)
     | Some n \<Rightarrow>
       if n \<noteq> 3 then Inr (False, out)
       else
         (case sql_query Q SELECT_USER_CONFIG_SQL [] conn of
            None \<Rightarrow> Inr (False, out)
          | Some (rows, threw) \<Rightarrow>
            bind_r (config_rows rows out) (\<lambda>(ok, out). Inr (ok \<and> \<not> threw, out))))"

definition updateServerIp :: "'d sqlite \<Rightarrow> byte list \<Rightarrow> 'd sqlite_helper \<Rightarrow> 'd sqlite_helper res" where
  "updateServerIp Q ip = updateKey Q (ascii ''serverIp'') ip"

definition updateMsgPort :: "'d sqlite \<Rightarrow> u16 \<Rightarrow> 'd sqlite_helper \<Rightarrow> 'd sqlite_helper res" where
  "updateMsgPort Q msgPort = updateKey Q (ascii ''gatePort'') (to_string (uint msgPort))"

definition updateHttpPort :: "'d sqlite \<Rightarrow> u16 \<Rightarrow> 'd sqlite_helper \<Rightarrow> 'd sqlite_helper res" where
  "updateHttpPort Q httpPort = updateKey Q (ascii ''httpPort'') (to_string (uint httpPort))"

section \<open>SqliteHelper\<close>

text \<open>
  \<open>init\<close>. \<open>g\<close> is the configuration, \<open>fs\<close> the file system; the flag of \<open>sql_open\<close> says whether the
  file may be created. The result of \<open>CreateDirectory\<close> is not looked at.
\<close>

definition SqliteHelper_init ::
    "'w file_sys \<Rightarrow> 'd sqlite \<Rightarrow> ChatKitConfig \<Rightarrow> 'd sqlite_helper \<times> 'w \<Rightarrow> (bool \<times> 'd sqlite_helper \<times> 'w) res"
  where
  "SqliteHelper_init fs Q g sw =
     (let (s, w) = sw; dir = cfg_app_data_dir g;
          filename = dir @ [47] @ kDefaultAppDataFilename;
          filename = (if dir = [] then kDefaultAppDataFilename else filename) in
      bind_r (if dir \<noteq> [] \<and> \<not> FilePathIsExist fs dir True w
              then bind_r (CreateDirectory fs dir w) (\<lambda>(_, w). Inr w)
              else Inr w) (\<lambda>w.
      case sql_open Q filename (\<not> FilePathIsExist fs filename False w) of
        None \<Rightarrow> Inr (False, s, w)
      | Some d \<Rightarrow>
        bind_r (createTable Q (s\<lparr>helper_db := Some d\<rparr>)) (\<lambda>(ok, s).
        if \<not> ok then Inr (False, s, w)
        else Inr (True, s\<lparr>db_is_open := True\<rparr>, w))))"

definition SqliteHelper_cleanup :: "'d sqlite_helper \<Rightarrow> 'd sqlite_helper" where
  "SqliteHelper_cleanup s =
     (if db_is_open s then s\<lparr>db_is_open := False, helper_db := None\<rparr> else s)"

section \<open>Numbers as text\<close>

lemma unat_digit: "k < 10 \<Longrightarrow> unat (of_nat (48 + k) :: byte) = 48 + k"
  by (simp add: unat_of_nat del: of_nat_add)

lemma is_digit_digit [simp]: "k < 10 \<Longrightarrow> is_digit (of_nat (48 + k))"
  using unat_digit [of k] by (simp add: is_digit_def word_le_nat_alt del: of_nat_add)

lemma digits_are_digits: "\<forall>b \<in> set (digits n). is_digit b"
proof (induction n rule: digits.induct)
  case (1 n)
  show ?case
  proof (cases "n < 10")
    case True
    then show ?thesis using is_digit_digit [of n] by (simp add: digits.simps [of n] del: of_nat_add)
  next
    case False
    with "1.IH" show ?thesis using is_digit_digit [of "n mod 10"]
      by (simp add: digits.simps [of n] del: of_nat_add)
  qed
qed

lemma digits_value_digits: "digits_value (digits n) = n"
proof (induction n rule: digits.induct)
  case (1 n)
  show ?case
  proof (cases "n < 10")
    case True
    then show ?thesis using unat_digit [of n]
      by (simp add: digits.simps [of n] digits_value_def del: of_nat_add)
  next
    case False
    have "digits_value (digits (n div 10) @ [of_nat (48 + n mod 10)]) =
        10 * digits_value (digits (n div 10)) + n mod 10"
      using unat_digit [of "n mod 10"] by (simp add: digits_value_def del: of_nat_add)
    then show ?thesis using "1.IH" [OF False] False by (simp add: digits.simps [of n] del: of_nat_add)
  qed
qed

lemma digits_nonempty: "digits n \<noteq> []"
  by (subst digits.simps) simp

lemma digit_bounds: "is_digit b \<Longrightarrow> \<not> is_space b \<and> b \<noteq> 45 \<and> b \<noteq> 43"
  by (auto simp: is_digit_def is_space_def word_le_nat_alt)

lemma atoi_to_string: "atoi (to_string (uint (p :: u16))) = Inr (uint p)"
proof -
  let ?d = "digits (nat (uint p))"
  have s: "to_string (uint p) = ?d" by (simp add: to_string_def)
  obtain b t where d: "?d = b # t" using digits_nonempty by (metis neq_Nil_conv)
  have b: "is_digit b" using digits_are_digits [of "nat (uint p)"] d by (metis list.set_intros(1))
  have tw: "takeWhile is_digit t = t" using digits_are_digits [of "nat (uint p)"] d by simp
  have dw: "dropWhile is_space ?d = ?d" using digit_bounds [OF b] d by simp
  have "uint p < 2 ^ 16" "0 \<le> uint p" using uint_bounded [of p] by simp_all
  moreover from this have "- 2147483648 \<le> uint p" by linarith
  ultimately show ?thesis
    using digit_bounds [OF b] b d digits_value_digits [of "nat (uint p)"]
    unfolding s atoi_def Let_def dw by (simp add: tw)
qed

section \<open>The store as a map\<close>

text \<open>
  What SQL says of these statements, with \<open>rows\<close> the keys and values of the table, in order, and
  \<open>None\<close> when there is no table.
\<close>

definition selected :: "(byte list \<times> byte list) list \<Rightarrow> (byte list list list \<times> bool) option \<Rightarrow> bool" where
  "selected kvs r \<longleftrightarrow>
     (\<exists>rws. r = Some (rws, False) \<and>
        map (\<lambda>w. (column w 1, column w 2)) rws = map (\<lambda>(k, v). (Some k, Some v)) kvs)"

definition becomes :: "('d \<Rightarrow> 'r option) \<Rightarrow> 'r \<Rightarrow> (int \<times> 'd) option \<Rightarrow> bool" where
  "becomes rows rs r \<longleftrightarrow> (\<exists>n d. r = Some (n, d) \<and> rows d = Some rs)"

definition sql_ok :: "'d sqlite \<Rightarrow> ('d \<Rightarrow> (byte list \<times> byte list) list option) \<Rightarrow> bool" where
  "sql_ok Q rows \<longleftrightarrow>
     (\<forall>d. sql_tableExists Q kTableNameUserConfig d = Some (rows d \<noteq> None)) \<and>
     (\<forall>d. rows d = None \<longrightarrow> becomes rows [] (sql_exec Q CREATE_SQL_USER_CONFIG [] d)) \<and>
     (\<forall>d rs. rows d = Some rs \<and> distinct (map fst rs) \<longrightarrow>
        becomes rows rs (sql_exec Q CREATE_SQL_INDEX_USER_CONFIG [] d) \<and>
        sql_columns Q SELECT_USER_CONFIG_SQL d = Some 3 \<and>
        selected rs (sql_query Q SELECT_USER_CONFIG_SQL [] d) \<and>
        (\<forall>k. selected (filter (\<lambda>e. fst e = k) rs) (sql_query Q SELECT_USER_CONFIG_SQL_SINGLE [k] d)) \<and>
        (\<forall>k v. becomes rows (map (\<lambda>e. if fst e = k then (k, v) else e) rs)
                 (sql_exec Q UPDATE_USER_CONFIG_SQL_IP [v, k] d)) \<and>
        (\<forall>k v. k \<notin> fst ` set rs \<longrightarrow>
                 becomes rows (rs @ [(k, v)]) (sql_exec Q INSERT_USER_CONFIG_SQL [k, v] d)) \<and>
        (\<forall>(sql, k, v) \<in> {(INSERT_DATA_USER_CONFIG_IP, ascii ''serverIp'', ascii ''127.0.0.1''),
                         (INSERT_DATA_USER_CONFIG_MSG_PORT, ascii ''gatePort'', ascii ''8000''),
                         (INSERT_DATA_USER_CONFIG_HTTP_PORT, ascii ''httpPort'', ascii ''18080'')}.
           k \<notin> fst ` set rs \<longrightarrow> becomes rows (rs @ [(k, v)]) (sql_exec Q sql [] d)))"

definition stores :: "('d \<Rightarrow> (byte list \<times> byte list) list option) \<Rightarrow> (byte list \<times> byte list) list \<Rightarrow>
    'd sqlite_helper \<Rightarrow> bool" where
  "stores rows rs s \<longleftrightarrow>
     (\<exists>d. helper_db s = Some d \<and> rows d = Some rs) \<and> distinct (map fst rs)"

lemma sql_okD:
  assumes "sql_ok Q rows" "rows d = Some rs" "distinct (map fst rs)"
  shows "becomes rows rs (sql_exec Q CREATE_SQL_INDEX_USER_CONFIG [] d)"
    "sql_columns Q SELECT_USER_CONFIG_SQL d = Some 3"
    "selected rs (sql_query Q SELECT_USER_CONFIG_SQL [] d)"
    "selected (filter (\<lambda>e. fst e = k) rs) (sql_query Q SELECT_USER_CONFIG_SQL_SINGLE [k] d)"
    "becomes rows (map (\<lambda>e. if fst e = k then (k, v) else e) rs) (sql_exec Q UPDATE_USER_CONFIG_SQL_IP [v, k] d)"
    "k \<notin> fst ` set rs \<Longrightarrow> becomes rows (rs @ [(k, v)]) (sql_exec Q INSERT_USER_CONFIG_SQL [k, v] d)"
    "ascii ''serverIp'' \<notin> fst ` set rs \<Longrightarrow> becomes rows (rs @ [(ascii ''serverIp'', ascii ''127.0.0.1'')])
       (sql_exec Q INSERT_DATA_USER_CONFIG_IP [] d)"
    "ascii ''gatePort'' \<notin> fst ` set rs \<Longrightarrow> becomes rows (rs @ [(ascii ''gatePort'', ascii ''8000'')])
       (sql_exec Q INSERT_DATA_USER_CONFIG_MSG_PORT [] d)"
    "ascii ''httpPort'' \<notin> fst ` set rs \<Longrightarrow> becomes rows (rs @ [(ascii ''httpPort'', ascii ''18080'')])
       (sql_exec Q INSERT_DATA_USER_CONFIG_HTTP_PORT [] d)"
  using assms unfolding sql_ok_def by simp_all

lemma queryKey_stores:
  assumes "sql_ok Q rows" "stores rows rs s"
  shows "queryKey Q k s = Inr (map_of rs k)"
proof -
  obtain d where d: "helper_db s = Some d" "rows d = Some rs" "distinct (map fst rs)"
    using assms(2) by (auto simp: stores_def)
  from sql_okD(4) [OF assms(1) d(2,3), of k] obtain rws where
    q: "sql_query Q SELECT_USER_CONFIG_SQL_SINGLE [k] d = Some (rws, False)"
      "map (\<lambda>w. (column w 1, column w 2)) rws = map (\<lambda>(k, v). (Some k, Some v)) (filter (\<lambda>e. fst e = k) rs)"
    by (auto simp: selected_def)
  have "map_of rs k = (case filter (\<lambda>e. fst e = k) rs of [] \<Rightarrow> None | e # _ \<Rightarrow> Some (snd e))"
    by (induction rs) auto
  then show ?thesis using d(1) q
    by (cases rws; cases "filter (\<lambda>e. fst e = k) rs") (auto simp: queryKey_def getConn_def)
qed

lemma map_of_set: "map_of (map (\<lambda>e. if fst e = k then (k, v) else e) rs) =
    (if k \<in> fst ` set rs then (map_of rs)(k \<mapsto> v) else map_of rs)"
  by (induction rs) (auto simp: fun_eq_iff)

lemma updateKey_stores:
  assumes "sql_ok Q rows" "stores rows rs s"
  shows "\<exists>s' rs'. updateKey Q k v s = Inr s' \<and> stores rows rs' s' \<and> map_of rs' = (map_of rs)(k \<mapsto> v)"
proof -
  obtain d where d: "helper_db s = Some d" "rows d = Some rs" "distinct (map fst rs)"
    using assms(2) by (auto simp: stores_def)
  note q = queryKey_stores [OF assms, of k]
  show ?thesis
  proof (cases "k \<in> fst ` set rs")
    case True
    then have some: "map_of rs k \<noteq> None" by (simp add: map_of_eq_None_iff)
    let ?rs = "map (\<lambda>e. if fst e = k then (k, v) else e) rs"
    have "map fst ?rs = map fst rs" by (induction rs) auto
    then have dist: "distinct (map fst ?rs)" using d(3) by (simp only:)
    from sql_okD(5) [OF assms(1) d(2,3), of k v] obtain n d' where
      d': "sql_exec Q UPDATE_USER_CONFIG_SQL_IP [v, k] d = Some (n, d')" "rows d' = Some ?rs"
      by (auto simp: becomes_def)
    have "updateKey Q k v s = Inr (s\<lparr>helper_db := Some d'\<rparr>)"
      using some q d(1) d'(1) by (simp add: updateKey_def getConn_def)
    moreover have "stores rows ?rs (s\<lparr>helper_db := Some d'\<rparr>)" using dist d'(2) by (simp only: stores_def) simp
    moreover have "map_of ?rs = (map_of rs)(k \<mapsto> v)" using True by (simp only: map_of_set if_True)
    ultimately show ?thesis by blast
  next
    case False
    then have none: "map_of rs k = None" by (simp add: map_of_eq_None_iff)
    then have "map_of (rs @ [(k, v)]) = (map_of rs)(k \<mapsto> v)" by (auto simp: fun_eq_iff map_add_def split: option.split)
    moreover have "distinct (map fst (rs @ [(k, v)]))" using d(3) False by simp
    moreover from sql_okD(6) [OF assms(1) d(2,3) False, of v] obtain n d' where
      "sql_exec Q INSERT_USER_CONFIG_SQL [k, v] d = Some (n, d')" "rows d' = Some (rs @ [(k, v)])"
      by (auto simp: becomes_def)
    ultimately show ?thesis using d(1) q none
      by (intro exI [of _ "s\<lparr>helper_db := Some d'\<rparr>"] exI [of _ "rs @ [(k, v)]"])
        (simp add: updateKey_def getConn_def stores_def)
  qed
qed

text \<open>Reading the rows into a configuration: each of the three keys that is there is taken.\<close>

definition loaded :: "(byte list \<rightharpoonup> byte list) \<Rightarrow> byte list \<Rightarrow> u16 \<Rightarrow> u16 \<Rightarrow> ServerInfoConfig \<Rightarrow> ServerInfoConfig" where
  "loaded m ip p h out =
     \<lparr>cfg_ip = if m (ascii ''serverIp'') \<noteq> None then ip else cfg_ip out,
      cfg_gatePort = if m (ascii ''gatePort'') \<noteq> None then p else cfg_gatePort out,
      cfg_httpPort = if m (ascii ''httpPort'') \<noteq> None then h else cfg_httpPort out\<rparr>"

lemma config_keys [simp]:
  "ascii ''serverIp'' \<noteq> ascii ''gatePort''" "ascii ''serverIp'' \<noteq> ascii ''httpPort''"
  "ascii ''gatePort'' \<noteq> ascii ''httpPort''" "ascii ''gatePort'' \<noteq> ascii ''serverIp''"
  "ascii ''httpPort'' \<noteq> ascii ''serverIp''" "ascii ''httpPort'' \<noteq> ascii ''gatePort''"
  by (simp_all add: ascii_def)

lemma config_rows_loaded:
  assumes "map (\<lambda>w. (column w 1, column w 2)) rws = map (\<lambda>(k, v). (Some k, Some v)) rs"
    and "\<forall>(k, v) \<in> set rs. (k = ascii ''serverIp'' \<longrightarrow> v = ip) \<and>
       (k = ascii ''gatePort'' \<longrightarrow> atoi v = Inr (uint p)) \<and> (k = ascii ''httpPort'' \<longrightarrow> atoi v = Inr (uint h))"
  shows "config_rows rws out = Inr (True, loaded (map_of rs) ip p h out)"
  using assms
proof (induction rs arbitrary: rws out)
  case Nil
  then show ?case by (simp add: loaded_def)
next
  case (Cons e rs)
  obtain k v where e: "e = (k, v)" by (cases e)
  from Cons.prems(1) e obtain w ws where w: "rws = w # ws" "column w 1 = Some k" "column w 2 = Some v"
    "map (\<lambda>w. (column w 1, column w 2)) ws = map (\<lambda>(k, v). (Some k, Some v)) rs" by (cases rws) auto
  have rest: "config_rows ws out = Inr (True, loaded (map_of rs) ip p h out)" for out
    using Cons.IH [OF w(4)] Cons.prems(2) by simp
  have v: "k = ascii ''serverIp'' \<Longrightarrow> v = ip" "k = ascii ''gatePort'' \<Longrightarrow> atoi v = Inr (uint p)"
    "k = ascii ''httpPort'' \<Longrightarrow> atoi v = Inr (uint h)" using Cons.prems(2) e by auto
  consider "k = ascii ''serverIp''" | "k = ascii ''gatePort''" | "k = ascii ''httpPort''"
    | "k \<noteq> ascii ''serverIp''" "k \<noteq> ascii ''gatePort''" "k \<noteq> ascii ''httpPort''" by blast
  then show ?case
    by cases (use w(1-3) rest v e in \<open>simp_all add: loaded_def\<close>)
qed

lemma query_stores:
  assumes "sql_ok Q rows" "stores rows rs s"
    and "map_of rs (ascii ''serverIp'') = Some ip" "map_of rs (ascii ''gatePort'') = Some pv"
      "map_of rs (ascii ''httpPort'') = Some hv" "atoi pv = Inr (uint p)" "atoi hv = Inr (uint h)"
  shows "query Q out s = Inr (True, \<lparr>cfg_ip = ip, cfg_gatePort = p, cfg_httpPort = h\<rparr>)"
proof -
  obtain d where d: "helper_db s = Some d" "rows d = Some rs" "distinct (map fst rs)"
    using assms(2) by (auto simp: stores_def)
  from sql_okD(3) [OF assms(1) d(2,3)] obtain rws where
    q: "sql_query Q SELECT_USER_CONFIG_SQL [] d = Some (rws, False)"
      "map (\<lambda>w. (column w 1, column w 2)) rws = map (\<lambda>(k, v). (Some k, Some v)) rs"
    by (auto simp: selected_def)
  have "map_of rs k = Some v" if "(k, v) \<in> set rs" for k v using that d(3) by simp
  then have "\<forall>(k, v) \<in> set rs. (k = ascii ''serverIp'' \<longrightarrow> v = ip) \<and>
       (k = ascii ''gatePort'' \<longrightarrow> atoi v = Inr (uint p)) \<and> (k = ascii ''httpPort'' \<longrightarrow> atoi v = Inr (uint h))"
    using assms(3-7) by fastforce
  from config_rows_loaded [OF q(2) this, of out] d(1) q(1) sql_okD(2) [OF assms(1) d(2,3)] assms(3-5)
  show ?thesis by (simp add: query_def getConn_def loaded_def)
qed

section \<open>A database that is the list of its rows\<close>

definition list_exec :: "byte list \<Rightarrow> byte list list \<Rightarrow> (byte list \<times> byte list) list option \<Rightarrow>
    (int \<times> (byte list \<times> byte list) list option) option" where
  "list_exec sql binds d =
     (case d of None \<Rightarrow> if sql = CREATE_SQL_USER_CONFIG then Some (0, Some []) else None
      | Some rs \<Rightarrow>
        let ins = (\<lambda>k v. if k \<in> fst ` set rs then None else Some (1, Some (rs @ [(k, v)]))) in
        if sql = CREATE_SQL_INDEX_USER_CONFIG then Some (0, d)
        else if sql = UPDATE_USER_CONFIG_SQL_IP then
          Some (1, Some (map (\<lambda>e. if fst e = binds ! 1 then (binds ! 1, binds ! 0) else e) rs))
        else if sql = INSERT_USER_CONFIG_SQL then ins (binds ! 0) (binds ! 1)
        else if sql = INSERT_DATA_USER_CONFIG_IP then ins (ascii ''serverIp'') (ascii ''127.0.0.1'')
        else if sql = INSERT_DATA_USER_CONFIG_MSG_PORT then ins (ascii ''gatePort'') (ascii ''8000'')
        else if sql = INSERT_DATA_USER_CONFIG_HTTP_PORT then ins (ascii ''httpPort'') (ascii ''18080'')
        else None)"

definition list_query :: "byte list \<Rightarrow> byte list list \<Rightarrow> (byte list \<times> byte list) list option \<Rightarrow>
    (byte list list list \<times> bool) option" where
  "list_query sql binds d =
     map_option (\<lambda>rs. (map (\<lambda>(k, v). [[], k, v])
       (if sql = SELECT_USER_CONFIG_SQL then rs else filter (\<lambda>e. fst e = binds ! 0) rs), False)) d"

definition list_sql :: "(byte list \<times> byte list) list option sqlite" where
  "list_sql = \<lparr>sql_open = (\<lambda>_ _. Some None), sql_tableExists = (\<lambda>_ d. Some (d \<noteq> None)),
     sql_exec = list_exec, sql_columns = (\<lambda>_ _. Some 3), sql_query = list_query\<rparr>"

lemmas sql_texts = CREATE_SQL_USER_CONFIG_def CREATE_SQL_INDEX_USER_CONFIG_def INSERT_DATA_USER_CONFIG_IP_def
  INSERT_DATA_USER_CONFIG_MSG_PORT_def INSERT_DATA_USER_CONFIG_HTTP_PORT_def SELECT_USER_CONFIG_SQL_def
  SELECT_USER_CONFIG_SQL_SINGLE_def UPDATE_USER_CONFIG_SQL_IP_def INSERT_USER_CONFIG_SQL_def
  kTableNameUserConfig_def

lemma sql_distinct:
  "distinct [CREATE_SQL_INDEX_USER_CONFIG, UPDATE_USER_CONFIG_SQL_IP, INSERT_USER_CONFIG_SQL,
     INSERT_DATA_USER_CONFIG_IP, INSERT_DATA_USER_CONFIG_MSG_PORT, INSERT_DATA_USER_CONFIG_HTTP_PORT]"
  "distinct [INSERT_DATA_USER_CONFIG_HTTP_PORT, INSERT_DATA_USER_CONFIG_MSG_PORT, INSERT_DATA_USER_CONFIG_IP,
     INSERT_USER_CONFIG_SQL, UPDATE_USER_CONFIG_SQL_IP, CREATE_SQL_INDEX_USER_CONFIG]"
  "SELECT_USER_CONFIG_SQL_SINGLE \<noteq> SELECT_USER_CONFIG_SQL"
  by (simp_all add: sql_texts ascii_def)

lemma list_exec_simps:
  "list_exec CREATE_SQL_USER_CONFIG [] None = Some (0, Some [])"
  "list_exec CREATE_SQL_INDEX_USER_CONFIG [] (Some rs) = Some (0, Some rs)"
  "list_exec UPDATE_USER_CONFIG_SQL_IP [v, k] (Some rs) =
     Some (1, Some (map (\<lambda>e. if fst e = k then (k, v) else e) rs))"
  "k \<notin> fst ` set rs \<Longrightarrow> list_exec INSERT_USER_CONFIG_SQL [k, v] (Some rs) = Some (1, Some (rs @ [(k, v)]))"
  "ascii ''serverIp'' \<notin> fst ` set rs \<Longrightarrow> list_exec INSERT_DATA_USER_CONFIG_IP [] (Some rs) =
     Some (1, Some (rs @ [(ascii ''serverIp'', ascii ''127.0.0.1'')]))"
  "ascii ''gatePort'' \<notin> fst ` set rs \<Longrightarrow> list_exec INSERT_DATA_USER_CONFIG_MSG_PORT [] (Some rs) =
     Some (1, Some (rs @ [(ascii ''gatePort'', ascii ''8000'')]))"
  "ascii ''httpPort'' \<notin> fst ` set rs \<Longrightarrow> list_exec INSERT_DATA_USER_CONFIG_HTTP_PORT [] (Some rs) =
     Some (1, Some (rs @ [(ascii ''httpPort'', ascii ''18080'')]))"
  using sql_distinct(1,2) by (simp_all add: list_exec_def Let_def)

lemma list_sql_selected:
  "selected rs (list_query SELECT_USER_CONFIG_SQL [] (Some rs))"
  "selected (filter (\<lambda>e. fst e = k) rs) (list_query SELECT_USER_CONFIG_SQL_SINGLE [k] (Some rs))"
  using sql_distinct(3) by (simp_all add: selected_def list_query_def column_def split_def)

lemma list_sql_ok: "sql_ok list_sql (\<lambda>d. d)"
  unfolding sql_ok_def becomes_def
  by (intro conjI allI impI)
    (simp_all add: list_sql_def list_exec_simps list_sql_selected)

section \<open>Properties\<close>

text \<open>
  C22. What is stored is what is read: after \<open>updateServerIp\<close>, \<open>updateMsgPort\<close> and \<open>updateHttpPort\<close>
  on a table with any rows, \<open>query\<close> succeeds and gives exactly this server, every port of 16 bits
  included, and \<open>queryKey\<close> of any other key gives what it gave before.
\<close>

theorem config_roundtrip:
  assumes "sql_ok Q rows" "stores rows rs s"
  shows "\<exists>s1 s2 s3. updateServerIp Q ip s = Inr s1 \<and> updateMsgPort Q p s1 = Inr s2 \<and>
     updateHttpPort Q h s2 = Inr s3 \<and>
     query Q out s3 = Inr (True, \<lparr>cfg_ip = ip, cfg_gatePort = p, cfg_httpPort = h\<rparr>) \<and>
     (\<forall>k. k \<notin> {ascii ''serverIp'', ascii ''gatePort'', ascii ''httpPort''} \<longrightarrow>
        queryKey Q k s3 = queryKey Q k s)"
proof -
  from updateKey_stores [OF assms, of "ascii ''serverIp''" ip] obtain s1 rs1 where
    s1: "updateServerIp Q ip s = Inr s1" "stores rows rs1 s1" "map_of rs1 = (map_of rs)(ascii ''serverIp'' \<mapsto> ip)"
    by (auto simp: updateServerIp_def)
  from updateKey_stores [OF assms(1) s1(2), of "ascii ''gatePort''" "to_string (uint p)"] obtain s2 rs2 where
    s2: "updateMsgPort Q p s1 = Inr s2" "stores rows rs2 s2"
      "map_of rs2 = (map_of rs1)(ascii ''gatePort'' \<mapsto> to_string (uint p))"
    by (auto simp: updateMsgPort_def)
  from updateKey_stores [OF assms(1) s2(2), of "ascii ''httpPort''" "to_string (uint h)"] obtain s3 rs3 where
    s3: "updateHttpPort Q h s2 = Inr s3" "stores rows rs3 s3"
      "map_of rs3 = (map_of rs2)(ascii ''httpPort'' \<mapsto> to_string (uint h))"
    by (auto simp: updateHttpPort_def)
  have m: "map_of rs3 = (map_of rs)(ascii ''serverIp'' \<mapsto> ip, ascii ''gatePort'' \<mapsto> to_string (uint p),
      ascii ''httpPort'' \<mapsto> to_string (uint h))" using s1(3) s2(3) s3(3) by simp
  have "query Q out s3 = Inr (True, \<lparr>cfg_ip = ip, cfg_gatePort = p, cfg_httpPort = h\<rparr>)"
    by (rule query_stores [OF assms(1) s3(2), where pv = "to_string (uint p)" and hv = "to_string (uint h)"])
      (simp_all add: m atoi_to_string)
  moreover have "queryKey Q k s3 = queryKey Q k s"
    if "k \<notin> {ascii ''serverIp'', ascii ''gatePort'', ascii ''httpPort''}" for k
    using that queryKey_stores [OF assms(1) s3(2), of k] queryKey_stores [OF assms, of k] m by simp
  ultimately show ?thesis using s1(1) s2(1) s3(1) by blast
qed

theorem config_roundtrip_witness:
  "\<exists>s1 s2 s3. updateServerIp list_sql (ascii ''10.0.0.1'')
       \<lparr>helper_db = Some (Some [(ascii ''gatePort'', [49])]), db_is_open = True\<rparr> = Inr s1 \<and>
     updateMsgPort list_sql 65535 s1 = Inr s2 \<and> updateHttpPort list_sql 80 s2 = Inr s3 \<and>
     query list_sql (cfg_serverInfo ChatKitConfig_new) s3 =
       Inr (True, \<lparr>cfg_ip = ascii ''10.0.0.1'', cfg_gatePort = 65535, cfg_httpPort = 80\<rparr>)"
proof -
  have "stores (\<lambda>d. d) [(ascii ''gatePort'', [49])]
      \<lparr>helper_db = Some (Some [(ascii ''gatePort'', [49])]), db_is_open = True\<rparr>"
    by (simp add: stores_def)
  from config_roundtrip [OF list_sql_ok this] show ?thesis by blast
qed

lemma createTable_defaults:
  assumes "sql_ok Q rows" "helper_db s = Some d" "rows d = None"
  shows "\<exists>s' rs. createTable Q s = Inr (True, s') \<and> stores rows rs s' \<and>
     query Q out s' = Inr (True, cfg_serverInfo ChatKitConfig_new)"
proof -
  note ok = sql_okD [OF assms(1)]
  have ex: "sql_tableExists Q kTableNameUserConfig d = Some False"
    "becomes rows [] (sql_exec Q CREATE_SQL_USER_CONFIG [] d)"
    using assms(1,3) by (simp_all add: sql_ok_def)
  from ex(2) obtain n1 d1 where d1: "sql_exec Q CREATE_SQL_USER_CONFIG [] d = Some (n1, d1)" "rows d1 = Some []"
    by (auto simp: becomes_def)
  from ok(1) [OF d1(2)] obtain n2 d2 where
    d2: "sql_exec Q CREATE_SQL_INDEX_USER_CONFIG [] d1 = Some (n2, d2)" "rows d2 = Some []"
    by (auto simp: becomes_def)
  from ok(7) [OF d2(2)] obtain n3 d3 where d3: "sql_exec Q INSERT_DATA_USER_CONFIG_IP [] d2 = Some (n3, d3)"
    "rows d3 = Some [(ascii ''serverIp'', ascii ''127.0.0.1'')]" by (auto simp: becomes_def)
  from ok(8) [OF d3(2)] obtain n4 d4 where d4: "sql_exec Q INSERT_DATA_USER_CONFIG_MSG_PORT [] d3 = Some (n4, d4)"
    "rows d4 = Some [(ascii ''serverIp'', ascii ''127.0.0.1''), (ascii ''gatePort'', ascii ''8000'')]"
    by (auto simp: becomes_def)
  let ?rs = "[(ascii ''serverIp'', ascii ''127.0.0.1''), (ascii ''gatePort'', ascii ''8000''),
              (ascii ''httpPort'', ascii ''18080'')]"
  from ok(9) [OF d4(2)] obtain n5 d5 where d5: "sql_exec Q INSERT_DATA_USER_CONFIG_HTTP_PORT [] d4 = Some (n5, d5)"
    "rows d5 = Some ?rs" by (auto simp: becomes_def)
  let ?s = "s\<lparr>helper_db := Some d5\<rparr>"
  have "createTable Q s = Inr (True, ?s)"
    using assms(2) ex(1) d1(1) d2(1) d3(1) d4(1) d5(1)
    by (simp add: createTable_def insertDefaultData_def getConn_def)
  moreover have st: "stores rows ?rs ?s" using d5(2) by (simp add: stores_def)
  moreover have "atoi (ascii ''8000'') = Inr (uint (8000 :: u16))" "atoi (ascii ''18080'') = Inr (uint (18080 :: u16))"
    by (simp_all add: ascii_def atoi_def is_space_def is_digit_def digits_value_def)
  then have "query Q out ?s = Inr (True, \<lparr>cfg_ip = ascii ''127.0.0.1'', cfg_gatePort = 8000, cfg_httpPort = 18080\<rparr>)"
    by (intro query_stores [OF assms(1) st]) simp_all
  ultimately show ?thesis
    by (auto simp: ChatKitConfig_new_def kDefaultServerIp_def kDefaultGateSrvPort_def kDefaultHttpSrvPort_def)
qed



end
