(* ===== verification/CimHelper.thy ===== *)
theory CimHelper
  imports ConfigDao ClientProps
begin

text \<open>
  Starting and stopping the SDK (\<open>cim/cim_helper.cpp\<close>) and the logger it configures
  (\<open>cim/base/log.cpp\<close>). The state \<open>app\<close> adds the remaining singletons to the client's: the database
  connection, the logger's level (none before the first use) and the file system.
\<close>

section \<open>The logger\<close>

text \<open>spdlog's levels; \<open>debug\<close> is the macro \<open>_DEBUG\<close>.\<close>

definition level_trace :: int where "level_trace = 0"
definition level_info :: int where "level_info = 2"
definition level_off :: int where "level_off = 6"

definition ZLogger_new :: "'w file_sys \<Rightarrow> bool \<Rightarrow> 'w \<Rightarrow> (int \<times> 'w) res" where
  "ZLogger_new fs debug w =
     bind_r (if sys_access fs (ascii ''logs'') w = -1
             then bind_r (CreateDirectory_ptr fs (Some (c_block (ascii ''logs''))) w) (\<lambda>(_, w). Inr w)
             else Inr w) (\<lambda>w.
     Inr (if debug then level_trace else level_info, w))"

definition setLevel :: "int \<Rightarrow> int" where
  "setLevel level = (if level = 0 then level_off else level - 1)"

section \<open>State\<close>

record ('d, 'w) app = client +
  app_db :: "'d sqlite_helper"
  app_files :: 'w
  app_client :: bool
  app_log :: "int option"

text \<open>\<open>Client::getInstance()\<close> and \<open>GetInstance()\<close> construct their object the first time.\<close>

definition Client_getInstance :: "('d, 'w) app \<Rightarrow> ('d, 'w) app res" where
  "Client_getInstance a =
     (if app_client a then Inr a
      else bind_r (Client_new a) (\<lambda>a. Inr (a\<lparr>app_client := True\<rparr>)))"

definition Logger_getInstance :: "'w file_sys \<Rightarrow> bool \<Rightarrow> ('d, 'w) app \<Rightarrow> ('d, 'w) app res" where
  "Logger_getInstance fs debug a =
     (if app_log a \<noteq> None then Inr a
      else bind_r (ZLogger_new fs debug (app_files a)) (\<lambda>(l, w).
           Inr (a\<lparr>app_log := Some l, app_files := w\<rparr>)))"

text \<open>
  The logging macros: the first one constructs the logger. \<open>spdlog\<close> writes what is at least at the
  logger's level; the flag says whether it does.
\<close>

definition spdlog_call :: "'w file_sys \<Rightarrow> bool \<Rightarrow> int \<Rightarrow> ('d, 'w) app \<Rightarrow> (bool \<times> ('d, 'w) app) res" where
  "spdlog_call fs debug level a =
     bind_r (Logger_getInstance fs debug a) (\<lambda>a.
     Inr (case app_log a of None \<Rightarrow> False | Some l \<Rightarrow> l \<le> level, a))"

definition level_critical :: int where "level_critical = 5"

definition LogCriticalIf :: "'w file_sys \<Rightarrow> bool \<Rightarrow> bool \<Rightarrow> ('d, 'w) app \<Rightarrow> (bool \<times> ('d, 'w) app) res" where
  "LogCriticalIf fs debug b a = (if b then spdlog_call fs debug level_critical a else Inr (False, a))"

section \<open>The functions\<close>

text \<open>\<open>initChatKit()\<close> flows off its end, without a \<open>return\<close>, unless the database failed.\<close>

definition initChatKit :: "'w file_sys \<Rightarrow> 'd sqlite \<Rightarrow> bool \<Rightarrow> ('d, 'w) app \<Rightarrow> (int \<times> ('d, 'w) app) res" where
  "initChatKit fs Q debug a =
     (let a = runInThread a in
      bind_r (Client_getInstance a) (\<lambda>a.
      bind_r (SqliteHelper_init fs Q (g_config a) (app_db a, app_files a)) (\<lambda>(ok, s, w).
      let a = a\<lparr>app_db := s, app_files := w\<rparr> in
      if \<not> ok then Inr (kError, a)
      else
        bind_r (Logger_getInstance fs debug a) (\<lambda>a.
        let a = a\<lparr>app_log := Some (setLevel (cfg_log_level (g_config a)))\<rparr> in
        Inl MissingReturn))))"

definition initChatKit_config ::
    "'w file_sys \<Rightarrow> 'd sqlite \<Rightarrow> bool \<Rightarrow> ChatKitConfig \<Rightarrow> ('d, 'w) app \<Rightarrow> (int \<times> ('d, 'w) app) res" where
  "initChatKit_config fs Q debug config a =
     (let a = a\<lparr>g_config := config\<rparr> in
      bind_r (initChatKit fs Q debug a) (\<lambda>(_, a). Inr (kSuccess, a)))"

definition cleanup :: "('d, 'w) app sdk \<Rightarrow> ('d, 'w) app \<Rightarrow> ('d, 'w) app res" where
  "cleanup S a =
     (let a = a\<lparr>app_db := SqliteHelper_cleanup (app_db a)\<rparr> in
      bind_r (Client_getInstance a) (\<lambda>a.
      bind_r (logout S a) EventLoop_stop))"

definition setChatKitServerInfo :: "ServerInfoConfig \<Rightarrow> ('d, 'w) app \<Rightarrow> ('d, 'w) app" where
  "setChatKitServerInfo info a = a\<lparr>g_config := (g_config a)\<lparr>cfg_serverInfo := info\<rparr>\<rparr>"

definition getChatKitConfig :: "('d, 'w) app \<Rightarrow> ChatKitConfig" where
  "getChatKitConfig a = g_config a"

section \<open>What logging does\<close>

text \<open>
  \<open>setLevel\<close> numbers spdlog's levels from 1, and 0 is off: a message of the SDK's level \<open>k\<close> is then
  written exactly when \<open>k\<close> is at least the level set, and with level 0 nothing is.
\<close>

lemma spdlog_call_level:
  assumes "app_log a = Some (setLevel n)" "1 \<le> k" "k \<le> 6"
  shows "spdlog_call fs debug (k - 1) a = Inr (n \<noteq> 0 \<and> n \<le> k, a)"
  using assms by (auto simp: spdlog_call_def Logger_getInstance_def setLevel_def level_off_def)

lemma no_slash_out_of_bounds:
  assumes "p \<noteq> []" "last p \<noteq> 47" "0 \<notin> set p"
  shows "CreateDirectory fs p w = Inl OutOfBounds"
  using path_loop_block [OF assms(3), of "[]" "[]"] assms(1,2)
  by (simp add: CreateDirectory_def CreateDirectory_ptr_def ParsePathComponents_def c_block_def)

text \<open>
  Where there is no directory \<open>logs\<close> yet, the first message of all, whatever its level, reads past
  the directory's name.
\<close>

lemma first_log_out_of_bounds:
  assumes "app_log a = None" "sys_access fs (ascii ''logs'') (app_files a) = -1"
  shows "spdlog_call fs debug level a = Inl OutOfBounds"
proof -
  have "ascii ''logs'' \<noteq> []" "last (ascii ''logs'') \<noteq> 47" "0 \<notin> set (ascii ''logs'')"
    by (simp_all add: ascii_def)
  from no_slash_out_of_bounds [OF this, of fs "app_files a"] show ?thesis using assms
    by (simp add: spdlog_call_def Logger_getInstance_def ZLogger_new_def CreateDirectory_def)
qed

section \<open>What initialising can do\<close>

lemma Client_getInstance_config:
  "Client_getInstance a = Inr a' \<Longrightarrow> g_config a' = g_config a \<and> app_db a' = app_db a \<and> app_files a' = app_files a"
  by (auto simp: Client_getInstance_def Client_new_def registerTimer_eq bind_r_eq_Inr Let_def split: if_splits)

lemma Client_getInstance_ok: "\<exists>a'. Client_getInstance a = Inr a'"
  using Buffer_new_holds [of 8 1024]
  by (auto simp: Client_getInstance_def Client_new_def kInitialSize_def kCheapPrependSize_def registerTimer_eq
      ptrdiff_max_def Let_def)

lemma initChatKit_result:
  assumes "initChatKit fs Q debug a = Inr (r, a')"
  shows "r = kError \<and> g_config a' = g_config a \<and>
     SqliteHelper_init fs Q (g_config a) (app_db a, app_files a) = Inr (False, app_db a', app_files a')"
proof -
  obtain a1 where a1: "Client_getInstance (runInThread a) = Inr a1" using Client_getInstance_ok by blast
  note same = Client_getInstance_config [OF a1, unfolded runInThread_def, simplified]
  let ?i = "SqliteHelper_init fs Q (g_config a1) (app_db a1, app_files a1)"
  show ?thesis
  proof (cases ?i)
    case (Inl e)
    then show ?thesis using assms a1 by (simp add: initChatKit_def Let_def)
  next
    case (Inr x)
    obtain ok s w where x: "x = (ok, s, w)" by (cases x)
    show ?thesis
    proof (cases ok)
      case True
      then show ?thesis using assms a1 Inr x
        by (cases "Logger_getInstance fs debug (a1\<lparr>app_db := s, app_files := w\<rparr>)")
          (simp_all add: initChatKit_def Let_def)
    next
      case False
      then have "r = kError" "a' = a1\<lparr>app_db := s, app_files := w\<rparr>"
        using assms a1 Inr x by (simp_all add: initChatKit_def Let_def)
      then show ?thesis using Inr x False same by simp
    qed
  qed
qed


text \<open>The client of the witnesses, in an empty directory.\<close>

definition app0 :: "((byte list \<times> byte list) list option, byte list list) app" where
  "app0 = client.extend client0 \<lparr>app_db = \<lparr>helper_db = None, db_is_open = False\<rparr>, app_files = [],
     app_client = False, app_log = None\<rparr>"


end
