(* ===== verification/UserManager.thy ===== *)
theory UserManager
  imports CimDef Md5Total TcpClient
begin

text \<open>
  \<open>cim::core::UserManager\<close> (\<open>cim/core/user_manager.h\<close>, \<open>user_manager.cpp\<close>): registering a user and
  asking for a nick name over HTTP. The HTTP client and the JSON library are the parameter \<open>web\<close>:
  \<open>'j\<close> are JSON values, \<open>None\<close> an exception of the library; a request takes the world \<open>'w\<close> to the
  next.
\<close>

section \<open>HTTP and JSON\<close>

record ('j, 'w) web =
  http_post :: "byte list \<Rightarrow> byte list \<Rightarrow> byte list \<Rightarrow> 'w \<Rightarrow> int \<times> byte list \<times> 'w"
  http_get :: "byte list \<Rightarrow> 'w \<Rightarrow> int \<times> byte list \<times> 'w"
  json_dump :: "(byte list \<times> byte list) list \<Rightarrow> byte list option"
  json_parse :: "byte list \<Rightarrow> 'j option"
  json_is_null :: "'j \<Rightarrow> bool"
  json_at :: "'j \<Rightarrow> byte list \<Rightarrow> 'j option"
  json_int :: "'j \<Rightarrow> int option"
  json_string :: "'j \<Rightarrow> byte list option"

definition json_r :: "'a option \<Rightarrow> 'a res" where
  "json_r x = (case x of None \<Rightarrow> Inl (Thrown ''json::exception'') | Some v \<Rightarrow> Inr v)"

text \<open>\<open>value[key].get<T>()\<close>\<close>

definition get_at :: "('j, 'w) web \<Rightarrow> ('j \<Rightarrow> 'a option) \<Rightarrow> 'j \<Rightarrow> byte list \<Rightarrow> 'a res" where
  "get_at W get value key = bind_r (json_r (json_at W value key)) (\<lambda>v. json_r (get v))"

section \<open>The class\<close>

record HttpResponseBase =
  rsp_code :: int
  rsp_msg :: "byte list"

definition kUrlRegisterUser :: "byte list" where "kUrlRegisterUser = ascii ''/user/register''"
definition kUrlGenerateNickName :: "byte list" where "kUrlGenerateNickName = ascii ''/user/nickname/generate''"
definition kGenerateNickNameVersion :: "byte list" where "kGenerateNickNameVersion = ascii ''1''"

definition service_url :: "ServerInfoConfig \<Rightarrow> byte list \<Rightarrow> byte list" where
  "service_url info path =
     ascii ''http://'' @ cfg_ip info @ [58] @ to_string (uint (cfg_httpPort info)) @ path"

definition server_unavailable :: HttpResponseBase where
  "server_unavailable =
     \<lparr>rsp_code = sint kCIM_ERR_INTERNAL_ERROR, rsp_msg = ascii ''server unavailable''\<rparr>"

definition registerUser ::
    "('j, 'w) web \<Rightarrow> ServerInfoConfig \<Rightarrow> byte list \<Rightarrow> byte list \<Rightarrow> byte list \<Rightarrow> HttpResponseBase \<Rightarrow> 'w \<Rightarrow>
     (bool \<times> HttpResponseBase \<times> 'w) res" where
  "registerUser W info userName userPwd nickName out w =
     bind_r (md5_hex TYPE(64) userPwd) (\<lambda>pwd.
     bind_r (json_r (json_dump W [(ascii ''userName'', userName), (ascii ''userNickName'', nickName),
                                  (ascii ''userPwd'', pwd)])) (\<lambda>root.
     let (code, body, w) = http_post W (service_url info kUrlRegisterUser)
                             (ascii ''application/json; charset=utf-8'') root w in
     if code \<noteq> 200 then Inr (False, server_unavailable, w)
     else
       bind_r (json_r (json_parse W body)) (\<lambda>value.
       if \<not> json_is_null W value then
         bind_r (get_at W (json_int W) value (ascii ''error_code'')) (\<lambda>c.
         bind_r (get_at W (json_string W) value (ascii ''error_msg'')) (\<lambda>m.
         Inr (c = sint kCIM_ERR_SUCCESS, \<lparr>rsp_code = c, rsp_msg = m\<rparr>, w)))
       else Inr (False, out, w))))"

text \<open>
  \<open>generateNickName\<close> changes \<open>random_nick\<close> on success only, and flows off its end, without a
  \<open>return\<close>, when the answer is the JSON value null.
\<close>

definition generateNickName ::
    "('j, 'w) web \<Rightarrow> ServerInfoConfig \<Rightarrow> byte list \<Rightarrow> HttpResponseBase \<Rightarrow> 'w \<Rightarrow>
     (bool \<times> byte list \<times> HttpResponseBase \<times> 'w) res" where
  "generateNickName W info random_nick out w =
     (let url = service_url info kUrlGenerateNickName @ ascii ''?version='' @ kGenerateNickNameVersion;
          (code, body, w) = http_get W url w in
      if code \<noteq> 200 then Inr (False, random_nick, server_unavailable, w)
      else
        bind_r (json_r (json_parse W body)) (\<lambda>value.
        if \<not> json_is_null W value then
          bind_r (get_at W (json_int W) value (ascii ''error_code'')) (\<lambda>c.
          bind_r (get_at W (json_string W) value (ascii ''error_msg'')) (\<lambda>m.
          if c = sint kCIM_ERR_SUCCESS then
            bind_r (get_at W (json_string W) value (ascii ''nick_name'')) (\<lambda>nick.
            Inr (True, nick, \<lparr>rsp_code = c, rsp_msg = m\<rparr>, w))
          else Inr (False, random_nick, \<lparr>rsp_code = c, rsp_msg = m\<rparr>, w)))
        else Inl MissingReturn))"

section \<open>Answers of the server\<close>

text \<open>The requests are observed in a world that is their log; the server answers by a function.\<close>

datatype request = Post "byte list" "byte list" | Get "byte list"

datatype json = JNull | JInt int | JStr "byte list" | JObj "(byte list \<times> json) list"

definition logging_web :: "(byte list \<Rightarrow> json option) \<Rightarrow> int \<Rightarrow> byte list \<Rightarrow> (json, request list) web" where
  "logging_web parse code body =
     \<lparr>http_post = (\<lambda>url _ b w. (code, body, w @ [Post url b])), http_get = (\<lambda>url w. (code, body, w @ [Get url])),
      json_dump = (\<lambda>kvs. Some (concat (map (\<lambda>(k, v). k @ [58] @ v @ [44]) kvs))), json_parse = parse,
      json_is_null = (\<lambda>v. v = JNull),
      json_at = (\<lambda>v k. case v of JObj kvs \<Rightarrow> map_of kvs k | _ \<Rightarrow> None),
      json_int = (\<lambda>v. case v of JInt n \<Rightarrow> Some n | _ \<Rightarrow> None),
      json_string = (\<lambda>v. case v of JStr s \<Rightarrow> Some s | _ \<Rightarrow> None)\<rparr>"

lemma success_code [simp]: "sint kCIM_ERR_SUCCESS = 200" "sint kCIM_ERR_INTERNAL_ERROR = 201"
  by (simp_all add: kCIM_ERR_SUCCESS_def kCIM_ERR_INTERNAL_ERROR_def)

text \<open>
  Registering with a server that answers: exactly one request is made, to the configured
  server, and it has the MD5 text of the password, never the password; the call succeeds just when
  the answer's code is 200, and the code and the message it returns are the server's.
\<close>

theorem registerUser_request:
  assumes "parse body = Some (JObj kvs)" "map_of kvs (ascii ''error_code'') = Some (JInt c)"
    and "map_of kvs (ascii ''error_msg'') = Some (JStr m)"
  shows "\<exists>h b. md5_hex TYPE(64) pwd = Inr h \<and> length h = 32 \<and>
     json_dump (logging_web parse 200 body) [(ascii ''userName'', name), (ascii ''userNickName'', nick),
       (ascii ''userPwd'', h)] = Some b \<and>
     registerUser (logging_web parse 200 body) info name pwd nick out w =
       Inr (c = 200, \<lparr>rsp_code = c, rsp_msg = m\<rparr>,
            w @ [Post (ascii ''http://'' @ cfg_ip info @ [58] @ to_string (uint (cfg_httpPort info)) @
                       ascii ''/user/register'') b])"
proof -
  from md5_hex_total [where 'u = 64] obtain h where "md5_hex TYPE(64) pwd = Inr h" "length h = 32"
    by fastforce
  then show ?thesis using assms
    by (simp add: registerUser_def logging_web_def json_r_def get_at_def service_url_def kUrlRegisterUser_def)
qed

text \<open>One answer of the witnesses: success, and a nick name.\<close>

definition answer_ok :: "(byte list \<times> json) list" where
  "answer_ok = [(ascii ''error_code'', JInt 200), (ascii ''error_msg'', JStr []),
                (ascii ''nick_name'', JStr (ascii ''kiwi''))]"

lemma answer_ok_at:
  "map_of answer_ok (ascii ''error_code'') = Some (JInt 200)"
  "map_of answer_ok (ascii ''error_msg'') = Some (JStr [])"
  "map_of answer_ok (ascii ''nick_name'') = Some (JStr (ascii ''kiwi''))"
  by (simp_all add: answer_ok_def ascii_def)

theorem registerUser_request_witness:
  "\<exists>r. registerUser (logging_web (\<lambda>_. Some (JObj answer_ok)) 200 []) (cfg_serverInfo ChatKitConfig_new)
       [97] [98] [99] server_unavailable [] = Inr (True, \<lparr>rsp_code = 200, rsp_msg = []\<rparr>, [r])"
  using registerUser_request [of "\<lambda>_. Some (JObj answer_ok)" "[]" answer_ok 200 "[]" "[98]" "[97]" "[99]"
      "cfg_serverInfo ChatKitConfig_new" server_unavailable "[]"] answer_ok_at by auto



end
