(* ===== verification/Dialogs.thy ===== *)
theory Dialogs
  imports CimHelper ClientPackets UserManager
begin

text \<open>
  The dialogs of the desktop program (\<open>src/mac/hellochat/gui\<close>): what their slots check, call and
  show. The texts of the input fields are arguments, lists of UTF-16 units; a message box is the
  value \<open>tip\<close>; \<open>QString::toStdString\<close>, \<open>fromStdString\<close> and \<open>toInt\<close> are parameters. The validator's
  regular expression is written out and matched by derivatives.
\<close>

section \<open>Regular expressions\<close>

datatype rx = Never | Empty | Chars "(u16 \<times> u16) list" | Then rx rx | Or rx rx | Plus rx

fun in_ranges :: "(u16 \<times> u16) list \<Rightarrow> u16 \<Rightarrow> bool" where
  "in_ranges [] c = False"
| "in_ranges ((lo, hi) # rs) c = (lo \<le> c \<and> c \<le> hi \<or> in_ranges rs c)"

fun nullable :: "rx \<Rightarrow> bool" where
  "nullable Never = False"
| "nullable Empty = True"
| "nullable (Chars rs) = False"
| "nullable (Then r q) = (nullable r \<and> nullable q)"
| "nullable (Or r q) = (nullable r \<or> nullable q)"
| "nullable (Plus r) = nullable r"

fun after :: "rx \<Rightarrow> u16 \<Rightarrow> rx" where
  "after Never c = Never"
| "after Empty c = Never"
| "after (Chars rs) c = (if in_ranges rs c then Empty else Never)"
| "after (Then r q) c =
     (if nullable r then Or (Then (after r c) q) (after q c) else Then (after r c) q)"
| "after (Or r q) c = Or (after r c) (after q c)"
| "after (Plus r) c = Or (after r c) (Then (after r c) (Plus r))"

definition exact_match :: "rx \<Rightarrow> u16 list \<Rightarrow> bool" where
  "exact_match r s = nullable (foldl after r s)"

text \<open>What a regular expression means.\<close>

inductive rx_match :: "rx \<Rightarrow> u16 list \<Rightarrow> bool" where
  empty: "rx_match Empty []"
| chars: "in_ranges rs c \<Longrightarrow> rx_match (Chars rs) [c]"
| "then": "rx_match r s \<Longrightarrow> rx_match q t \<Longrightarrow> rx_match (Then r q) (s @ t)"
| or_left: "rx_match r s \<Longrightarrow> rx_match (Or r q) s"
| or_right: "rx_match q s \<Longrightarrow> rx_match (Or r q) s"
| plus_one: "rx_match r s \<Longrightarrow> rx_match (Plus r) s"
| plus_more: "rx_match r s \<Longrightarrow> rx_match (Plus r) t \<Longrightarrow> rx_match (Plus r) (s @ t)"

inductive_simps rx_match_simps [simp]:
  "rx_match Never s" "rx_match Empty s" "rx_match (Chars rs) s" "rx_match (Then r q) s" "rx_match (Or r q) s"

lemma plus_nil: "rx_match (Plus r) [] \<longleftrightarrow> rx_match r []"
proof
  assume "rx_match (Plus r) []"
  then show "rx_match r []" by (induction "Plus r" "[] :: u16 list" rule: rx_match.induct) auto
qed (rule plus_one)

lemma nullable_match: "nullable r \<longleftrightarrow> rx_match r []"
  by (induction r) (auto simp: plus_nil)

lemma plus_after:
  assumes "\<And>s. rx_match r (c # s) \<Longrightarrow> rx_match (after r c) s" "rx_match (Plus r) (c # s)"
  shows "rx_match (after (Plus r) c) s"
  using assms(2)
proof (induction "Plus r" "c # s" arbitrary: s rule: rx_match.induct)
  case (plus_more t u)
  then show ?case
  proof (cases t)
    case (Cons a t')
    with plus_more have "a = c" "s = t' @ u" by auto
    with plus_more(1) Cons assms(1) have "rx_match (after r c) t'" by simp
    then show ?thesis using plus_more(3) \<open>s = t' @ u\<close> by auto
  qed simp
qed (use assms(1) in simp)

lemma after_match: "rx_match (after r c) s \<longleftrightarrow> rx_match r (c # s)"
proof (induction r arbitrary: s)
  case (Then r q)
  show ?case using Then.IH by (auto simp: nullable_match Cons_eq_append_conv)
next
  case (Plus r)
  have "rx_match (Plus r) (c # s)" if "rx_match (after (Plus r) c) s"
    using that Plus.IH plus_one plus_more [of r "c # _"] by fastforce
  then show ?case using plus_after [of r c s] Plus.IH by blast
qed auto

lemma exact_match: "exact_match r s \<longleftrightarrow> rx_match r s"
  unfolding exact_match_def by (induction s arbitrary: r) (simp_all add: nullable_match after_match)

section \<open>The e-mail validator\<close>

text \<open>The class of letters, digits, underscore and hyphen; \<open>^\<close> and \<open>$\<close> are what a validator means.\<close>

definition name_chars :: "(u16 \<times> u16) list" where
  "name_chars = [(97, 122), (65, 90), (48, 57), (95, 95), (45, 45)]"

definition regx :: rx where
  "regx = Then (Plus (Chars name_chars)) (Then (Chars [(64, 64)]) (Then (Plus (Chars name_chars))
            (Plus (Then (Chars [(46, 46)]) (Plus (Chars name_chars))))))"

definition name_word :: "u16 list \<Rightarrow> bool" where
  "name_word s \<longleftrightarrow> s \<noteq> [] \<and> (\<forall>c \<in> set s. in_ranges name_chars c)"

lemma plus_chars: "rx_match (Plus (Chars rs)) s \<longleftrightarrow> s \<noteq> [] \<and> (\<forall>c \<in> set s. in_ranges rs c)"
proof
  assume "rx_match (Plus (Chars rs)) s"
  then show "s \<noteq> [] \<and> (\<forall>c \<in> set s. in_ranges rs c)"
    by (induction "Plus (Chars rs)" s rule: rx_match.induct) auto
next
  assume "s \<noteq> [] \<and> (\<forall>c \<in> set s. in_ranges rs c)"
  then show "rx_match (Plus (Chars rs)) s"
  proof (induction s)
    case (Cons c s)
    then show ?case
      using plus_one [of "Chars rs" "[c]"] plus_more [of "Chars rs" "[c]" s] by (cases "s = []") auto
  qed simp
qed

lemma plus_concat:
  "rx_match (Plus r) s \<longleftrightarrow> (\<exists>ps. ps \<noteq> [] \<and> (\<forall>p \<in> set ps. rx_match r p) \<and> s = concat ps)"
proof
  assume "rx_match (Plus r) s"
  then show "\<exists>ps. ps \<noteq> [] \<and> (\<forall>p \<in> set ps. rx_match r p) \<and> s = concat ps"
  proof (induction "Plus r" s rule: rx_match.induct)
    case (plus_one s)
    then show ?case by (intro exI [of _ "[s]"]) simp
  next
    case (plus_more s t)
    then obtain ps where "ps \<noteq> []" "\<forall>p \<in> set ps. rx_match r p" "t = concat ps" by blast
    with plus_more(1) show ?case by (intro exI [of _ "s # ps"]) simp
  qed
next
  have "rx_match (Plus r) (concat ps)" if "ps \<noteq> []" "\<forall>p \<in> set ps. rx_match r p" for ps
    using that
  proof (induction ps)
    case (Cons p ps)
    then show ?case using rx_match.plus_one [of r p] rx_match.plus_more [of r p "concat ps"]
      by (cases "ps = []") auto
  qed simp
  then show "rx_match (Plus r) s" if "\<exists>ps. ps \<noteq> [] \<and> (\<forall>p \<in> set ps. rx_match r p) \<and> s = concat ps"
    using that by blast
qed

definition email_form :: "u16 list \<Rightarrow> bool" where
  "email_form s \<longleftrightarrow>
     (\<exists>user host labels. name_word user \<and> name_word host \<and> labels \<noteq> [] \<and> (\<forall>l \<in> set labels. name_word l) \<and>
        s = user @ [64] @ host @ concat (map (\<lambda>l. 46 # l) labels))"

lemma regx_email: "exact_match regx s \<longleftrightarrow> email_form s"
proof -
  have dot: "rx_match (Then (Chars [(46, 46)]) (Plus (Chars name_chars))) p \<longleftrightarrow>
      (\<exists>l. p = 46 # l \<and> name_word l)" for p
  proof
    assume "\<exists>l. p = 46 # l \<and> name_word l"
    then obtain l where "p = [46] @ l" "rx_match (Plus (Chars name_chars)) l"
      by (auto simp: plus_chars name_word_def)
    then show "rx_match (Then (Chars [(46, 46)]) (Plus (Chars name_chars))) p"
      using rx_match.then [of "Chars [(46, 46)]" "[46]" "Plus (Chars name_chars)" l] by (simp add: chars)
  qed (auto simp: plus_chars name_word_def)
  have labels: "(\<exists>ps. ps \<noteq> [] \<and> (\<forall>p \<in> set ps. \<exists>l. p = 46 # l \<and> name_word l) \<and> t = concat ps) \<longleftrightarrow>
      (\<exists>ls. ls \<noteq> [] \<and> (\<forall>l \<in> set ls. name_word l) \<and> t = concat (map (\<lambda>l. 46 # l) ls))" for t
  proof
    assume "\<exists>ps. ps \<noteq> [] \<and> (\<forall>p \<in> set ps. \<exists>l. p = 46 # l \<and> name_word l) \<and> t = concat ps"
    then obtain ps where ps: "ps \<noteq> []" "\<forall>p \<in> set ps. \<exists>l. p = 46 # l \<and> name_word l" "t = concat ps" by blast
    have "map (\<lambda>p. 46 # tl p) ps = ps" by (rule map_idI) (use ps in auto)
    then have "map (\<lambda>l. 46 # l) (map tl ps) = ps" by (simp add: comp_def)
    with ps show "\<exists>ls. ls \<noteq> [] \<and> (\<forall>l \<in> set ls. name_word l) \<and> t = concat (map (\<lambda>l. 46 # l) ls)"
      by (intro exI [of _ "map tl ps"]) (auto simp del: map_map)
  next
    assume "\<exists>ls. ls \<noteq> [] \<and> (\<forall>l \<in> set ls. name_word l) \<and> t = concat (map (\<lambda>l. 46 # l) ls)"
    then obtain ls where "ls \<noteq> []" "\<forall>l \<in> set ls. name_word l" "t = concat (map (\<lambda>l. 46 # l) ls)" by blast
    then show "\<exists>ps. ps \<noteq> [] \<and> (\<forall>p \<in> set ps. \<exists>l. p = 46 # l \<and> name_word l) \<and> t = concat ps"
      by (intro exI [of _ "map (\<lambda>l. 46 # l) ls"]) auto
  qed
  let ?tail = "Plus (Then (Chars [(46, 46)]) (Plus (Chars name_chars)))"
  have tail: "rx_match ?tail t \<longleftrightarrow> (\<exists>ls. ls \<noteq> [] \<and> (\<forall>l \<in> set ls. name_word l) \<and> t = concat (map (\<lambda>l. 46 # l) ls))" for t
    unfolding plus_concat [of "Then _ _"] dot labels ..
  have at: "rx_match (Chars [(64, 64)]) t \<longleftrightarrow> t = [64]" for t by auto
  have word: "rx_match (Plus (Chars name_chars)) t \<longleftrightarrow> name_word t" for t by (simp add: plus_chars name_word_def)
  have "exact_match regx s \<longleftrightarrow>
      (\<exists>user t. s = user @ t \<and> name_word user \<and> (\<exists>a u. t = a @ u \<and> a = [64] \<and>
        (\<exists>host v. u = host @ v \<and> name_word host \<and>
          (\<exists>ls. ls \<noteq> [] \<and> (\<forall>l \<in> set ls. name_word l) \<and> v = concat (map (\<lambda>l. 46 # l) ls)))))"
    unfolding exact_match regx_def rx_match_simps(4) tail at word ..
  also have "\<dots> \<longleftrightarrow> email_form s"
    unfolding email_form_def by blast
  finally show ?thesis .
qed

section \<open>What the slots show\<close>

text \<open>Conversions of \<open>QString\<close>; \<open>toInt\<close> is 0 for a text that is no number.\<close>

record qt =
  to_std :: "u16 list \<Rightarrow> byte list"
  from_std :: "byte list \<Rightarrow> u16 list"
  text_int :: "u16 list \<Rightarrow> int"

datatype tip = BadEmail | ShortPassword | LoginTimedOut | Registered | NickFailed
  | GatePingFailed | HttpPingFailed | AllPinged | Said "u16 list"

record dialog =
  dlg_tips :: "tip list"
  dlg_closed :: "bool option"

text \<open>\<open>accept()\<close> closes a dialog with the result true, \<open>close()\<close> with false.\<close>

definition information :: "tip \<Rightarrow> 'z dialog_scheme \<Rightarrow> 'z dialog_scheme" where
  "information t d = d\<lparr>dlg_tips := dlg_tips d @ [t]\<rparr>"

definition accept :: "'z dialog_scheme \<Rightarrow> 'z dialog_scheme" where
  "accept d = d\<lparr>dlg_closed := Some True\<rparr>"

section \<open>Logging in\<close>

text \<open>
  The callbacks of the SDK run on its loop's thread; \<open>QMetaObject::invokeMethod\<close> queues what they do
  for the thread of the dialog. The state is the client's with the dialog that called it.
\<close>

datatype gui_call = ShowResult CIMAuthRsp | ShowTimeout

record login_dialog = dialog +
  dlg_calls :: "gui_call list"

record gui = client +
  login_dlg :: login_dialog

definition LoginDialog_new :: login_dialog where
  "LoginDialog_new = \<lparr>dlg_tips = [], dlg_closed = None, dlg_calls = []\<rparr>"

definition kOnLoginResult :: nat where "kOnLoginResult = 1"
definition kOnLoginTimeout :: nat where "kOnLoginTimeout = 2"

definition on_login_clicked :: "qt \<Rightarrow> gui sdk \<Rightarrow> u16 list \<Rightarrow> u16 list \<Rightarrow> gui \<Rightarrow> gui res" where
  "on_login_clicked Q S user pwd g =
     (if \<not> exact_match regx user then Inr (g\<lparr>login_dlg := information BadEmail (login_dlg g)\<rparr>)
      else if length pwd \<le> 3 then Inr (g\<lparr>login_dlg := information ShortPassword (login_dlg g)\<rparr>)
      else login S (to_std Q user) (to_std Q pwd) (Some kOnLoginResult) (Some kOnLoginTimeout) g)"

definition onLoginResult :: "CIMAuthRsp \<Rightarrow> gui \<Rightarrow> gui" where
  "onLoginResult rsp g =
     g\<lparr>login_dlg := (login_dlg g)\<lparr>dlg_calls := dlg_calls (login_dlg g) @ [ShowResult rsp]\<rparr>\<rparr>"

definition onLoginTimeout :: "gui \<Rightarrow> gui" where
  "onLoginTimeout g = g\<lparr>login_dlg := (login_dlg g)\<lparr>dlg_calls := dlg_calls (login_dlg g) @ [ShowTimeout]\<rparr>\<rparr>"

fun run_call :: "qt \<Rightarrow> gui_call \<Rightarrow> login_dialog \<Rightarrow> login_dialog" where
  "run_call Q (ShowResult rsp) d =
     (if AuthRsp_result_code rsp = kCIM_ERR_SUCCESS then accept d
      else information (Said (from_std Q (AuthRsp_result_string rsp))) d)"
| "run_call Q ShowTimeout d = information LoginTimedOut d"

text \<open>The dialog's thread runs the queue.\<close>

definition run_calls :: "qt \<Rightarrow> login_dialog \<Rightarrow> login_dialog" where
  "run_calls Q d = fold (run_call Q) (dlg_calls d) (d\<lparr>dlg_calls := []\<rparr>)"

text \<open>The SDK whose user is the dialog.\<close>

definition dialog_sdk :: "pb_runtime \<Rightarrow> uv_env \<Rightarrow> gui sdk" where
  "dialog_sdk R E =
     \<lparr>pb = R, uv = E,
      on_login = (\<lambda>f rsp g. Inr (if f = kOnLoginResult then onLoginResult rsp g else g)),
      on_login_timeout = (\<lambda>f g. Inr (if f = kOnLoginTimeout then onLoginTimeout g else g)),
      on_status = (\<lambda>_ _ _. Inr), on_recv_msg = (\<lambda>_ _. Inr)\<rparr>"

lemma gui_inv [simp]: "client_inv P (g\<lparr>login_dlg := d\<rparr>) = client_inv P g"
  by (simp add: client_inv_def conn_ok_def tcp_refs_def)

lemma dialog_sdk_ok: "user_ok (dialog_sdk R E)"
  by (simp add: user_ok_def dialog_sdk_def onLoginResult_def onLoginTimeout_def)

text \<open>The answer reaches the dialog, after a refusal on a client that has logged out.\<close>

lemma tell_dialog:
  fixes g :: gui
  assumes "client_inv P g" "login_cb g = Some kOnLoginResult"
    and S: "\<And>r g. on_login S kOnLoginResult r g = Inr (onLoginResult r g)"
  shows "\<exists>g'. tell_login S rsp g = Inr (onLoginResult rsp g') \<and> client_inv P g' \<and> login_dlg g' = login_dlg g \<and>
     tcp_client g' = (if AuthRsp_result_code rsp = kCIM_ERR_SUCCESS then tcp_client g else None)"
proof (cases "AuthRsp_result_code rsp = kCIM_ERR_SUCCESS")
  case True
  then show ?thesis using assms by (auto simp: tell_login_def)
next
  case False
  from logout_ok [OF assms(1), of S] obtain g' where g': "logout S g = Inr g'" "client_inv P g'"
    "net.more g' = net.more (g\<lparr>login_status := LoginStatus_kDefault, tcp_client := None\<rparr>)" by blast
  note f = same_fields [OF g'(3)]
  have "login_dlg g' = login_dlg g" using f(18) by (cases g'; cases g) simp
  then show ?thesis using False g' f(3,10) assms(2) S
    by (intro exI [of _ g']) (simp add: tell_login_def)
qed

text \<open>
  C12. A login over the dialog. A click with a text that is not \<open>word@word.word...\<close> or with a password of
  at most three characters shows a message and touches the client in nothing else. Any other click
  starts a login with that name and sets the callbacks; the server's answer then closes the dialog
  when it is a success, and otherwise shows the server's text and drops the connection.
\<close>

theorem login_dialog:
  fixes g :: gui
  assumes g: "idle P g" "loop_is_run g" and E: "env_ok E" and R: "wire R"
    and name: "length (to_std Q user) < 2 ^ 30"
    and rsp: "CIMAuthRsp_valid R rsp" "body = CIMAuthRsp_InternalSerialize R rsp" "body \<noteq> []"
      "length body + 16 < 10240"
  defines "S \<equiv> dialog_sdk R E" and "d \<equiv> (login_dlg g)\<lparr>dlg_calls := []\<rparr>"
  shows "if \<not> email_form user then on_login_clicked Q S user pwd g = Inr (g\<lparr>login_dlg := information BadEmail (login_dlg g)\<rparr>)
    else if length pwd \<le> 3 then on_login_clicked Q S user pwd g = Inr (g\<lparr>login_dlg := information ShortPassword (login_dlg g)\<rparr>)
    else \<exists>g1 i g2. on_login_clicked Q S user pwd g = Inr g1 \<and> login_dlg g1 = login_dlg g \<and>
      loginStatus g1 = kLogining \<and> user_name g1 = to_std Q user \<and> tcp_client g1 = Some i \<and>
      onMessage S i (packet (ucast kCIM_CID_LOGIN_AUTH_RSP) seq body) g1 = Inr g2 \<and> idle P g2 \<and>
      run_calls Q (login_dlg g2) = run_call Q (ShowResult rsp) (fold (run_call Q) (dlg_calls (login_dlg g)) d) \<and>
      tcp_client g2 = (if AuthRsp_result_code rsp = kCIM_ERR_SUCCESS then Some i else None)"
proof -
  have S: "user_ok S" "wire (pb S)" "env_ok (uv S)" "pb S = R"
    "\<And>r g. on_login S kOnLoginResult r g = Inr (onLoginResult r g)"
    using E R dialog_sdk_ok by (simp_all add: S_def) (simp_all add: dialog_sdk_def)
  show ?thesis
  proof (cases "email_form user \<and> 3 < length pwd")
    case False
    then show ?thesis by (auto simp: on_login_clicked_def regx_email)
  next
    case True
    from login_logged [OF g(1) S(3) name g(2), of "to_std Q pwd" "Some kOnLoginResult" "Some kOnLoginTimeout"]
    obtain g1 i where g1: "on_login_clicked Q S user pwd g = Inr g1" "idle P g1" "tcp_client g1 = Some i"
        "objs g1 i \<noteq> None" "login_status g1 = kLogining" "login_cb g1 = Some kOnLoginResult"
        "user_name g1 = to_std Q user" "client.more g1 = client.more g"
      using True by (auto simp: on_login_clicked_def regx_email)
    have dlg: "login_dlg g1 = login_dlg g" using g1(8) by (cases g; cases g1) simp
    have body: "CIMAuthRsp_valid (pb S) rsp" "body = CIMAuthRsp_InternalSerialize (pb S) rsp"
      using rsp(1,2) S(4) by simp_all
    from auth_answer_run [OF g1(2) S(1,2) g1(4) body rsp(3,4), of seq] obtain b where
      b: "buf_idle (Reset b)" "onMessage S i (packet (ucast kCIM_CID_LOGIN_AUTH_RSP) seq body) g1 =
         bind_r (tell_login S rsp (g1\<lparr>recv_buffer := b\<rparr>)) (\<lambda>c. Inr (c\<lparr>recv_buffer := Reset b\<rparr>))" by blast
    let ?t = "if AuthRsp_result_code rsp = kCIM_ERR_SUCCESS then Some i else None"
    have "client_inv P (g1\<lparr>recv_buffer := b\<rparr>)" using g1(2) by (simp add: idle_def)
    from tell_dialog [OF this, of S rsp] S(5) g1(6) dlg g1(3) obtain g' where
      g': "tell_login S rsp (g1\<lparr>recv_buffer := b\<rparr>) = Inr (onLoginResult rsp g')" "client_inv P g'"
        "login_dlg g' = login_dlg g" "tcp_client g' = ?t" by auto
    let ?g2 = "(onLoginResult rsp g')\<lparr>recv_buffer := Reset b\<rparr>"
    have "idle P ?g2" using g'(2) b(1) by (simp add: idle_def onLoginResult_def)
    moreover have "run_calls Q (login_dlg ?g2) = run_call Q (ShowResult rsp) (fold (run_call Q) (dlg_calls (login_dlg g)) d)"
      using g'(3) by (simp add: run_calls_def onLoginResult_def d_def)
    moreover have "tcp_client ?g2 = ?t" using g'(4) by (simp add: onLoginResult_def)
    ultimately show ?thesis
      using True g1(1,3,5,7) dlg b(2) g'(1) by (auto simp: loginStatus_def)
  qed
qed

text \<open>The witness: \<open>a@b.c\<close> logs in over a fresh client, and the server agrees; \<open>a@b\<close> is refused.\<close>

definition gui0 :: gui where
  "gui0 = client.extend client0 \<lparr>login_dlg = LoginDialog_new\<rparr>"

definition qt0 :: qt where
  "qt0 = \<lparr>to_std = map ucast, from_std = map ucast, text_int = (\<lambda>s. int (length s))\<rparr>"

lemma gui0_new: "\<exists>g. Client_new gui0 = Inr g \<and> idle {#} g \<and> loop_is_run g \<and> login_dlg g = LoginDialog_new"
proof -
  have ok: "conn_ok gui0" "g_conn_map gui0 = []"
    by (simp_all add: conn_ok_def gui0_def client0_def client.extend_def)
  obtain g where g: "Client_new gui0 = Inr g" "loop_is_run g" "login_dlg g = LoginDialog_new"
    using Buffer_new_holds [of 8 1024]
    by (auto simp: Client_new_def kInitialSize_def kCheapPrependSize_def registerTimer_eq gui0_def client0_def
        client.extend_def ptrdiff_max_def Let_def)
  then show ?thesis using Client_new_idle(1) [OF ok g(1)] by blast
qed

theorem login_dialog_witness:
  "\<exists>g g1 i g2. Client_new gui0 = Inr g \<and>
     on_login_clicked qt0 (dialog_sdk leb_runtime env7) [97, 64, 98, 46, 99] [49, 50, 51, 52] g = Inr g1 \<and>
     onMessage (dialog_sdk leb_runtime env7) i (packet (ucast kCIM_CID_LOGIN_AUTH_RSP) 1
       (CIMAuthRsp_InternalSerialize leb_runtime (CIMAuthRsp_new\<lparr>AuthRsp_result_code := 200\<rparr>))) g1 = Inr g2 \<and>
     dlg_closed (run_calls qt0 (login_dlg g2)) = Some True \<and>
     on_login_clicked qt0 (dialog_sdk leb_runtime env7) [97, 64, 98] [49, 50, 51, 52] g =
       Inr (g\<lparr>login_dlg := information BadEmail LoginDialog_new\<rparr>)"
proof -
  let ?rsp = "CIMAuthRsp_new\<lparr>AuthRsp_result_code := 200\<rparr>"
  from gui0_new obtain g where g: "Client_new gui0 = Inr g" "idle {#} g" "loop_is_run g" "login_dlg g = LoginDialog_new"
    by blast
  have form: "email_form [97, 64, 98, 46, 99]" "\<not> email_form [97, 64, 98]"
    unfolding regx_email [symmetric] by code_simp+
  have R: "wire leb_runtime" using leb.wire_axioms .
  have len: "length (to_std qt0 u) < 2 ^ 30" if "length u < 10" for u using that by (simp add: qt0_def)
  note run = login_dialog [OF g(2,3) env7_ok R len auth_rsp_body(1) [of 200] refl auth_rsp_body(2,3) [of 200],
      where pwd = "[49, 50, 51, 52]" and seq = 1]
  from run [of "[97, 64, 98, 46, 99]"] form(1) g(1,4) obtain g1 i g2 where g2:
    "on_login_clicked qt0 (dialog_sdk leb_runtime env7) [97, 64, 98, 46, 99] [49, 50, 51, 52] g = Inr g1"
    "onMessage (dialog_sdk leb_runtime env7) i (packet (ucast kCIM_CID_LOGIN_AUTH_RSP) 1
       (CIMAuthRsp_InternalSerialize leb_runtime ?rsp)) g1 = Inr g2"
    "run_calls qt0 (login_dlg g2) = run_call qt0 (ShowResult ?rsp) (LoginDialog_new\<lparr>dlg_calls := []\<rparr>)"
    by (auto simp: LoginDialog_new_def)
  have "dlg_closed (run_calls qt0 (login_dlg g2)) = Some True"
    unfolding g2(3) by (simp add: accept_def kCIM_ERR_SUCCESS_def)
  moreover have "on_login_clicked qt0 (dialog_sdk leb_runtime env7) [97, 64, 98] [49, 50, 51, 52] g =
       Inr (g\<lparr>login_dlg := information BadEmail LoginDialog_new\<rparr>)"
    using run [of "[97, 64, 98]"] form(2) g(4) by simp
  ultimately show ?thesis using g(1) g2(1,2) by blast
qed

section \<open>Server settings\<close>

record setting_dialog = dialog +
  leServerIp :: "u16 list"
  leGatePort :: "u16 list"
  leHttpPort :: "u16 list"

definition ServerSettingDialog_new :: "qt \<Rightarrow> ('d, 'w) app \<Rightarrow> setting_dialog" where
  "ServerSettingDialog_new Q a =
     (let config = cfg_serverInfo (getChatKitConfig a) in
      \<lparr>dlg_tips = [], dlg_closed = None,
       leServerIp = from_std Q (cfg_ip config),
       leGatePort = from_std Q (to_string (uint (cfg_gatePort config))),
       leHttpPort = from_std Q (to_string (uint (cfg_httpPort config)))\<rparr>)"

text \<open>
  The slot. \<open>sys\<close> is what \<open>socket\<close> and \<open>connect\<close> answer, for each of the two calls of \<open>ping\<close>. An
  \<open>int16_t\<close> and the \<open>uint16_t\<close> it is converted to have the same bits.
\<close>

definition on_setting_clicked ::
    "qt \<Rightarrow> (bool \<Rightarrow> int \<times> (int \<Rightarrow> byte list \<Rightarrow> u16 \<Rightarrow> int)) \<Rightarrow> setting_dialog \<times> ('d, 'w) app \<Rightarrow>
     setting_dialog \<times> ('d, 'w) app" where
  "on_setting_clicked Q sys = (\<lambda>(d, a).
     let ip = to_std Q (leServerIp d);
         port = word_of_int (text_int Q (leGatePort d)) :: u16;
         http_port = word_of_int (text_int Q (leHttpPort d)) :: u16;
         ret = ping (fst (sys False)) (snd (sys False)) ip port in
     if \<not> ret then (information GatePingFailed d, a)
     else
       let ret = ping (fst (sys True)) (snd (sys True)) ip http_port in
       if \<not> ret then (information HttpPingFailed d, a)
       else
         (let d = information AllPinged d;
              config = \<lparr>cfg_ip = ip, cfg_gatePort = port, cfg_httpPort = http_port\<rparr>;
              a = setChatKitServerInfo config a in
          (d\<lparr>dlg_closed := Some False\<rparr>, a)))"

text \<open>
  A dialog that shows the configuration changes nothing of it when its button is clicked, whatever
  the pings answer: the two conversions of the ports are inverse on the 16-bit numbers.
\<close>

lemma settings_kept:
  assumes "\<And>n. 0 \<le> n \<Longrightarrow> n < 65536 \<Longrightarrow> text_int Q (from_std Q (to_string n)) = n"
    and "to_std Q (from_std Q (cfg_ip (cfg_serverInfo (g_config a)))) = cfg_ip (cfg_serverInfo (g_config a))"
  shows "snd (on_setting_clicked Q sys (ServerSettingDialog_new Q a, a)) = a"
proof -
  have "text_int Q (from_std Q (to_string (uint p))) = uint p" for p :: u16
    using assms(1) [of "uint p"] uint_lt2p [of p] by simp
  then show ?thesis using assms(2)
    by (simp add: on_setting_clicked_def ServerSettingDialog_new_def getChatKitConfig_def
        setChatKitServerInfo_def information_def Let_def)
qed

text \<open>Ports beyond 16 bits are cut, after the very port that is stored has been pinged.\<close>

lemma settings_saved:
  assumes "on_setting_clicked Q sys (d, a) = (d', a')" "dlg_closed d = None" "dlg_closed d' = Some False"
  shows "cfg_serverInfo (g_config a') = \<lparr>cfg_ip = to_std Q (leServerIp d),
       cfg_gatePort = word_of_int (text_int Q (leGatePort d) mod 65536),
       cfg_httpPort = word_of_int (text_int Q (leHttpPort d) mod 65536)\<rparr>"
    and "ping (fst (sys False)) (snd (sys False)) (to_std Q (leServerIp d)) (cfg_gatePort (cfg_serverInfo (g_config a')))"
    and "ping (fst (sys True)) (snd (sys True)) (to_std Q (leServerIp d)) (cfg_httpPort (cfg_serverInfo (g_config a')))"
proof -
  have w: "word_of_int (n mod 65536) = (word_of_int n :: u16)" for n
    by (rule word_of_int_eq_iff [THEN iffD2]) (simp add: take_bit_eq_mod)
  show "cfg_serverInfo (g_config a') = \<lparr>cfg_ip = to_std Q (leServerIp d),
       cfg_gatePort = word_of_int (text_int Q (leGatePort d) mod 65536),
       cfg_httpPort = word_of_int (text_int Q (leHttpPort d) mod 65536)\<rparr>"
    "ping (fst (sys False)) (snd (sys False)) (to_std Q (leServerIp d)) (cfg_gatePort (cfg_serverInfo (g_config a')))"
    "ping (fst (sys True)) (snd (sys True)) (to_std Q (leServerIp d)) (cfg_httpPort (cfg_serverInfo (g_config a')))"
    using assms by (auto simp: on_setting_clicked_def setChatKitServerInfo_def information_def Let_def w
        split: if_splits)
qed

section \<open>Registering\<close>

record register_dialog = dialog +
  leEmail :: "u16 list"
  lePwd :: "u16 list"
  leNick :: "u16 list"

definition UserRegisterDialog_new :: register_dialog where
  "UserRegisterDialog_new = \<lparr>dlg_tips = [], dlg_closed = None, leEmail = [], lePwd = [], leNick = []\<rparr>"

text \<open>The text before the server's message, in UTF-8.\<close>

definition kRegisterFailed :: "byte list" where
  "kRegisterFailed = [0xE6, 0xB3, 0xA8, 0xE5, 0x86, 0x8C, 0xE5, 0xA4, 0xB1, 0xE8, 0xB4, 0xA5, 0xEF, 0xBC, 0x9A]"

text \<open>\<open>res\<close> is the local variable as it is declared; its code has no initial value.\<close>

definition on_pbOk_clicked ::
    "qt \<Rightarrow> ('j, 'w) web \<Rightarrow> ServerInfoConfig \<Rightarrow> HttpResponseBase \<Rightarrow> register_dialog \<times> 'w \<Rightarrow> (register_dialog \<times> 'w) res" where
  "on_pbOk_clicked Q W info res = (\<lambda>(d, w).
     let str = leEmail d in
     if \<not> exact_match regx str then Inr (information BadEmail d, w)
     else if length (lePwd d) \<le> 3 then Inr (information ShortPassword d, w)
     else
       bind_r (registerUser W info (to_std Q str) (to_std Q (lePwd d)) (to_std Q (leNick d)) res w)
         (\<lambda>(ok, res, w).
       if ok then Inr (accept (information Registered d), w)
       else Inr (information (Said (from_std Q (kRegisterFailed @ rsp_msg res))) d, w)))"

definition on_pbOk_2_clicked ::
    "qt \<Rightarrow> ('j, 'w) web \<Rightarrow> ServerInfoConfig \<Rightarrow> HttpResponseBase \<Rightarrow> register_dialog \<times> 'w \<Rightarrow> (register_dialog \<times> 'w) res" where
  "on_pbOk_2_clicked Q W info result = (\<lambda>(d, w).
     bind_r (generateNickName W info [] result w) (\<lambda>(ok, random_nick, _, w).
     if ok then Inr (d\<lparr>leNick := from_std Q random_nick\<rparr>, w)
     else Inr (information NickFailed d, w)))"

text \<open>
  A malformed address or a short password makes no request; otherwise the dialog closes exactly
  when \<open>registerUser\<close> succeeded, and a message is shown in every case.
\<close>

lemma register_clicked:
  "on_pbOk_clicked Q W info res (d, w) =
     (if \<not> email_form (leEmail d) then Inr (information BadEmail d, w)
      else if length (lePwd d) \<le> 3 then Inr (information ShortPassword d, w)
      else bind_r (registerUser W info (to_std Q (leEmail d)) (to_std Q (lePwd d)) (to_std Q (leNick d)) res w)
        (\<lambda>(ok, r, w).
         Inr (if ok then accept (information Registered d)
              else information (Said (from_std Q (kRegisterFailed @ rsp_msg r))) d, w)))"
proof -
  have k: "(\<lambda>(ok, r, w). if ok then Inr (accept (information Registered d), w)
       else Inr (information (Said (from_std Q (kRegisterFailed @ rsp_msg r))) d, w)) =
     (\<lambda>(ok, r, w). Inr (if ok then accept (information Registered d)
              else information (Said (from_std Q (kRegisterFailed @ rsp_msg r))) d, w))"
    by (auto simp only: fun_eq_iff split: prod.split if_split)
  show ?thesis unfolding on_pbOk_clicked_def Let_def prod.case regx_email k by simp
qed

section \<open>The program\<close>

text \<open>
  The two other buttons of the login dialog open the dialogs above; \<open>exec\<close> runs one until it is
  closed.
\<close>

definition on_settings_opened :: "qt \<Rightarrow> (setting_dialog \<Rightarrow> ('d, 'w) app \<Rightarrow> 'r) \<Rightarrow> ('d, 'w) app \<Rightarrow> 'r" where
  "on_settings_opened Q exec a = (let dialog = ServerSettingDialog_new Q a in exec dialog a)"

definition on_register_opened :: "(register_dialog \<Rightarrow> 'w \<Rightarrow> 'r) \<Rightarrow> 'w \<Rightarrow> 'r" where
  "on_register_opened exec w = (let dialog = UserRegisterDialog_new in exec dialog w)"

text \<open>Opening the settings and confirming them as they are shown leaves the configuration.\<close>

lemma settings_opened_kept:
  assumes "\<And>n. 0 \<le> n \<Longrightarrow> n < 65536 \<Longrightarrow> text_int Q (from_std Q (to_string n)) = n"
    and "to_std Q (from_std Q (cfg_ip (cfg_serverInfo (g_config a)))) = cfg_ip (cfg_serverInfo (g_config a))"
  shows "on_settings_opened Q (\<lambda>d a. snd (on_setting_clicked Q sys (d, a))) a = a"
  using settings_kept [OF assms] by (simp add: on_settings_opened_def)


text \<open>
  \<open>main\<close>: \<open>exec_login\<close> and \<open>exec_main\<close> are the event loops of the login dialog and of the main
  window, which run the slots above.
\<close>

definition main_program ::
    "'w file_sys \<Rightarrow> 'd sqlite \<Rightarrow> bool \<Rightarrow> ('d, 'w) app sdk \<Rightarrow> (('d, 'w) app \<Rightarrow> (bool \<times> ('d, 'w) app) res) \<Rightarrow>
     (('d, 'w) app \<Rightarrow> (int \<times> ('d, 'w) app) res) \<Rightarrow> ('d, 'w) app \<Rightarrow> (int \<times> ('d, 'w) app) res" where
  "main_program fs Q debug S exec_login exec_main a =
     bind_r (initChatKit fs Q debug a) (\<lambda>(_, a).
     bind_r (exec_login a) (\<lambda>(accepted, a).
     if accepted then
       bind_r (exec_main a) (\<lambda>(ret, a).
       bind_r (cleanup S a) (\<lambda>a. Inr (ret, a)))
     else bind_r (cleanup S a) (\<lambda>a. Inr (0, a))))"

text \<open>
  The program shows its login dialog only when opening the database failed: otherwise
  \<open>initChatKit()\<close> has already run off its end.
\<close>

lemma main_after_failure:
  assumes "main_program fs Q debug S exec_login exec_main a = Inr (r, a')"
  shows "\<exists>s w. SqliteHelper_init fs Q (g_config a) (app_db a, app_files a) = Inr (False, s, w)"
proof (cases "initChatKit fs Q debug a")
  case (Inl e)
  then show ?thesis using assms by (simp add: main_program_def)
next
  case (Inr x)
  then show ?thesis using initChatKit_result [of fs Q debug a "fst x" "snd x"] by auto
qed

end
