(* ===== verification/Account.thy ===== *)
theory Account
  imports Dialogs
begin

text \<open>
  Registering and logging in, from the two dialogs to what each puts on its wire: an account is
  reached only if the name and the digest the server stored are the ones a login sends.
\<close>

lemma registerUser_posts:
  assumes "parse body = Some (JObj kvs)" "map_of kvs (ascii ''error_code'') = Some (JInt c)"
    and "map_of kvs (ascii ''error_msg'') = Some (JStr m)" "md5_hex TYPE(64) pwd = Inr h"
  shows "registerUser (logging_web parse 200 body) info name pwd nick out w =
     Inr (c = 200, \<lparr>rsp_code = c, rsp_msg = m\<rparr>,
       w @ [Post (service_url info kUrlRegisterUser)
             (the (json_dump (logging_web parse 200 body) [(ascii ''userName'', name), (ascii ''userNickName'', nick),
                (ascii ''userPwd'', h)]))])"
  using assms by (simp add: registerUser_def logging_web_def json_r_def get_at_def)

text \<open>
  C10. An account registered over the dialog can be logged in to. With the same address and password in
  both dialogs, the one request the first makes carries a name and a digest, and the one packet the
  second sends once the connection is open carries exactly these; the password itself is in neither.
\<close>

theorem register_then_login:
  fixes g :: gui
  assumes reply: "parse body = Some (JObj kvs)" "map_of kvs (ascii ''error_code'') = Some (JInt 200)"
      "map_of kvs (ascii ''error_msg'') = Some (JStr m)"
    and typed: "email_form (leEmail d)" "3 < length (lePwd d)" "length (to_std Q (leEmail d)) < 2 ^ 30"
    and g: "idle P g" "loop_is_run g" "connection_cb g = None" and R: "wire R"
    and E: "env_ok E" "\<And>h. uv_tcp_init E h = 0 \<and> uv_tcp_connect E h = (0, Some fd)"
      "\<And>ip port. uv_ip4_addr E ip port = 0"
  shows "\<exists>digest d' g1 h g2. length digest = 32 \<and>
     on_pbOk_clicked Q (logging_web parse 200 body) info res (d, w) =
       Inr (d', w @ [Post (service_url info kUrlRegisterUser) (the (json_dump (logging_web parse 200 body)
         [(ascii ''userName'', to_std Q (leEmail d)), (ascii ''userNickName'', to_std Q (leNick d)),
          (ascii ''userPwd'', digest)]))]) \<and>
     dlg_closed d' = Some True \<and>
     on_login_clicked Q (dialog_sdk R E) (leEmail d) (lePwd d) g = Inr g1 \<and>
     onConnect False (client_cbs (dialog_sdk R E)) h 0 g1 = Inr g2 \<and>
     sent g2 = sent g1 @ [(fd, packet (ucast kCIM_CID_LOGIN_AUTH_REQ) (client_seq g + 1)
       (ml_bytes (auth_req R (to_std Q (leEmail d)) digest)))]"
proof -
  have S: "pb (dialog_sdk R E) = R" "uv (dialog_sdk R E) = E" by (simp_all add: dialog_sdk_def)
  have inv: "client_inv P g" using g(1) by (simp add: idle_def)
  have pb: "wire (pb (dialog_sdk R E))" "env_ok (uv (dialog_sdk R E))" using R E(1) S by simp_all
  from login_connects [OF inv pb typed(3) g(2,3), of fd "to_std Q (lePwd d)" "Some kOnLoginResult" "Some kOnLoginTimeout"]
  obtain g1 h g2 digest where login: "login (dialog_sdk R E) (to_std Q (leEmail d)) (to_std Q (lePwd d))
        (Some kOnLoginResult) (Some kOnLoginTimeout) g = Inr g1"
      "onConnect False (client_cbs (dialog_sdk R E)) h 0 g1 = Inr g2"
      "md5_hex TYPE(64) (to_std Q (lePwd d)) = Inr digest"
      "sent g2 = sent g1 @ [(fd, packet (ucast kCIM_CID_LOGIN_AUTH_REQ) (client_seq g + 1)
         (ml_bytes (auth_req R (to_std Q (leEmail d)) digest)))]"
    using E(2,3) S by auto
  have digest: "length digest = 32" using md5_hex_total [where 'u = 64, of "to_std Q (lePwd d)"] login(3) by auto
  have "\<not> length (lePwd d) \<le> 3" using typed(2) by simp
  then have "on_pbOk_clicked Q (logging_web parse 200 body) info res (d, w) =
       Inr (accept (information Registered d), w @ [Post (service_url info kUrlRegisterUser) (the (json_dump (logging_web parse 200 body)
         [(ascii ''userName'', to_std Q (leEmail d)), (ascii ''userNickName'', to_std Q (leNick d)),
          (ascii ''userPwd'', digest)]))])"
    using registerUser_posts [where parse = parse and body = body, OF reply login(3)] typed(1) by (simp add: register_clicked)
  moreover have "on_login_clicked Q (dialog_sdk R E) (leEmail d) (lePwd d) g = Inr g1"
    using login(1) typed(1,2) by (simp add: on_login_clicked_def regx_email)
  moreover have "dlg_closed (accept (information Registered d)) = Some True" by (simp add: accept_def)
  ultimately show ?thesis using digest login(2,4) by blast
qed

text \<open>The witness: \<open>a@b.c\<close> with the password \<open>1234\<close>.\<close>

definition new_user :: register_dialog where
  "new_user = \<lparr>dlg_tips = [], dlg_closed = None, leEmail = [97, 64, 98, 46, 99], lePwd = [49, 50, 51, 52], leNick = [97]\<rparr>"

theorem register_then_login_witness:
  "\<exists>d w g g1 h g2 p.
     on_pbOk_clicked qt0 (logging_web (\<lambda>_. Some (JObj answer_ok)) 200 []) (cfg_serverInfo ChatKitConfig_new)
       server_unavailable (new_user, []) = Inr (d, w) \<and> length w = 1 \<and> Client_new gui0 = Inr g \<and>
     on_login_clicked qt0 (dialog_sdk leb_runtime env7) (leEmail new_user) (lePwd new_user) g = Inr g1 \<and>
     onConnect False (client_cbs (dialog_sdk leb_runtime env7)) h 0 g1 = Inr g2 \<and> sent g2 = sent g1 @ [(7, p)]"
proof -
  from gui0_new obtain g where g: "Client_new gui0 = Inr g" "idle {#} g" "loop_is_run g" by blast
  have cb: "connection_cb g = None"
    using g(1) by (auto simp: Client_new_def registerTimer_eq gui0_def client0_def client.extend_def bind_r_eq_Inr Let_def)
  have u: "email_form (leEmail new_user)" "3 < length (lePwd new_user)" "length (to_std qt0 (leEmail new_user)) < 2 ^ 30"
    unfolding regx_email [symmetric] by (code_simp, simp_all add: new_user_def qt0_def)
  have "\<And>h. uv_tcp_init env7 h = 0 \<and> uv_tcp_connect env7 h = (0, Some 7)" "\<And>ip port. uv_ip4_addr env7 ip port = 0"
    by (simp_all add: env7_def)
  from register_then_login [where parse = "\<lambda>_. Some (JObj answer_ok)" and body = "[]" and
      info = "cfg_serverInfo ChatKitConfig_new" and res = server_unavailable and w = "[]",
      OF refl answer_ok_at(1,2) u g(2,3) cb leb.wire_axioms env7_ok this] g(1)
  show ?thesis by fastforce
qed

end
