(* ===== verification/StackTrace.thy ===== *)
theory StackTrace
  imports FileUtil
begin

text \<open>
  \<open>cim::base::Exception\<close> and the stack trace beside it (\<open>cim/base/Exception.h\<close>, \<open>Exception.cpp\<close>).
  \<open>stackTrace\<close> stands under \<open>OS_LINUX\<close>, which no build file defines. What \<open>backtrace_symbols\<close>
  returns is the list of its strings, and \<open>__cxa_demangle\<close> a function that is undefined where its
  status is not 0.
\<close>

section \<open>The class\<close>

record exception =
  message_ :: "byte list"
  stack_ :: "byte list"

definition Exception_new :: "byte list \<Rightarrow> exception" where
  "Exception_new msg = \<lparr>message_ = msg, stack_ = []\<rparr>"

section \<open>The trace\<close>

text \<open>The last opening parenthesis and the last plus sign.\<close>

fun marks :: "byte list \<Rightarrow> nat \<Rightarrow> nat option \<times> nat option \<Rightarrow> nat option \<times> nat option" where
  "marks [] p found = found"
| "marks (c # cs) p (left_par, plus_p) =
     marks cs (p + 1)
       (if c = 40 then (Some p, plus_p) else if c = 43 then (left_par, Some p) else (left_par, plus_p))"

text \<open>One line: \<open>*plus\<close> is the terminator while the name is demangled.\<close>

definition frame_line :: "bool \<Rightarrow> (byte list \<Rightarrow> byte list option) \<Rightarrow> byte list \<Rightarrow> byte list" where
  "frame_line demangle cxa s =
     (let fallback = s @ [10] in
      if demangle then
        (case marks s 0 (None, None) of
           (Some left_par, Some plus_p) \<Rightarrow>
             (case cxa (until_nul (drop (left_par + 1) (s[plus_p := 0]))) of
                Some demangled \<Rightarrow> take (left_par + 1) s @ demangled @ drop plus_p s @ [10]
              | None \<Rightarrow> fallback)
         | _ \<Rightarrow> fallback)
      else fallback)"

text \<open>The frames after the first; nothing when there are no strings.\<close>

definition stackTrace ::
    "bool \<Rightarrow> (byte list \<Rightarrow> byte list option) \<Rightarrow> byte list list option \<Rightarrow> byte list" where
  "stackTrace demangle cxa strings =
     (case strings of None \<Rightarrow> []
      | Some frames \<Rightarrow> concat (map (frame_line demangle cxa) (drop 1 frames)))"

section \<open>What is printed\<close>

lemma marks_none: "40 \<notin> set s \<Longrightarrow> 43 \<notin> set s \<Longrightarrow> marks s p found = found"
  by (induction s p found rule: marks.induct) auto

lemma marks_append: "marks (s @ t) p found = marks t (p + length s) (marks s p found)"
  by (induction s p found rule: marks.induct) (auto simp: add.assoc split: if_splits)

lemma marks_plus: "40 \<notin> set s \<Longrightarrow> fst (marks s p (l, q)) = l"
  by (induction s arbitrary: p q) auto

lemma marks_frame:
  assumes "40 \<notin> set name" "40 \<notin> set rest" "43 \<notin> set rest"
  shows "marks (bin @ [40] @ name @ [43] @ rest) 0 (None, None) =
     (Some (length bin), Some (length bin + 1 + length name))"
proof -
  obtain l q where b: "marks bin 0 (None, None) = (l, q)" by fastforce
  obtain q' where n: "marks name (length bin + 1) (Some (length bin), q) = (Some (length bin), q')"
    using marks_plus [OF assms(1), of "length bin + 1" "Some (length bin)" q] by (metis prod.collapse)
  show ?thesis using marks_none [OF assms(2,3)] using n by (simp add: marks_append b)
qed

text \<open>
  A frame in the form \<open>bin/exception_test(_ZN3Bar4testEv+0x79) [0x401909]\<close> is printed with the name
  demangled and everything else as it is, or unchanged where the name cannot be demangled.
\<close>

lemma frame_line_form:
  assumes "40 \<notin> set name" "0 \<notin> set name" "40 \<notin> set rest" "43 \<notin> set rest"
  shows "frame_line True cxa (bin @ [40] @ name @ [43] @ rest) =
     bin @ [40] @ (case cxa name of Some n \<Rightarrow> n | None \<Rightarrow> name) @ [43] @ rest @ [10]"
proof -
  let ?s = "bin @ [40] @ name @ [43] @ rest"
  have upd: "?s[length bin + 1 + length name := 0] = bin @ [40] @ name @ [0] @ rest"
    by (simp add: list_update_append)
  have c: "drop (length bin + 1) (?s[length bin + 1 + length name := 0]) = name @ [0] @ rest"
    unfolding upd by simp
  have n: "until_nul (name @ [0] @ rest) = name" using assms(2)
    by (induction name) (auto simp: until_nul_def)
  have "take (length bin + 1) ?s = bin @ [40]" "drop (length bin + 1 + length name) ?s = [43] @ rest" by simp_all
  then show ?thesis
    by (simp only: frame_line_def marks_frame [OF assms(1,3,4)] Let_def if_True prod.case option.case c n)
      (simp split: option.split)
qed

lemma stackTrace_frames:
  assumes "\<forall>(bin, name, rest) \<in> set fs. 40 \<notin> set name \<and> 0 \<notin> set name \<and> 40 \<notin> set rest \<and> 43 \<notin> set rest"
  shows "stackTrace True cxa (Some (this # map (\<lambda>(bin, name, rest). bin @ [40] @ name @ [43] @ rest) fs)) =
     concat (map (\<lambda>(bin, name, rest). bin @ [40] @ (case cxa name of Some n \<Rightarrow> n | None \<Rightarrow> name) @ [43] @ rest @ [10]) fs)"
  using assms by (induction fs) (auto simp: stackTrace_def frame_line_form simp del: append_Cons)

end
