(* ===== verification/Spec2Isabelle.thy ===== *)
theory Spec2Isabelle
  imports BufferSim Md5Eval TcpProps Delivery ClientText CimHelper UserManager Account StackTrace
begin

text \<open>
  A model of the SDK of CoffeeChat-Desktop (\<open>src/mac/chatkit/cim\<close>) and of the dialogs of its
  desktop program (\<open>src/mac/hellochat\<close>), and its correctness.

  The program. \<open>cim\<close> is the client library of a chat program. \<open>base/buffer.h\<close> is the byte buffer
  with a prepend area that packets are built and taken apart in, \<open>base/slice.h\<close> its view type;
  \<open>base/event_loop.cpp\<close> runs the one libuv loop, \<open>base/tcp_client.cpp\<close> a connection on it, found
  again in libuv's callbacks through the global \<open>g_conn_map\<close>. \<open>core/client.cpp\<close> logs in, frames
  protobuf messages into packets of a 16-byte header and a body, and takes received bytes apart;
  \<open>core/chat_manager.cpp\<close> sends and receives chat messages. \<open>crypt/md5.cpp\<close> hashes passwords,
  \<open>pb/*.pb.cc\<close> are the generated message classes. \<open>cim_helper.cpp\<close> starts and stops it all: it runs
  the loop, makes the client, opens the SQLite database of \<open>db/\<close> (whose directory
  \<open>base/file/file_util.cpp\<close> creates) and sets the log level; \<open>core/user_manager.cpp\<close> registers users
  over HTTP. The program's \<open>main\<close> starts the SDK, logs in with a dialog (whose neighbours register
  a user and change the server) and stops the SDK again.

  The theories, in the order of the code's layers:
  \<^item> \<open>Prelude\<close>: results (\<open>'a res\<close> is a failure or a value), \<open>size_t\<close> arithmetic, memory as cells that
    may be uninitialised, byte orders. Every \<open>assert\<close>, null dereference, use after free and read
    outside a block of the source is a value of \<open>fault\<close>.
  \<^item> \<open>Slice\<close>, \<open>Buffer\<close>: the two classes, member by member. \<open>BufferLaws\<close>: the relation \<open>holds b bs\<close>
    (the buffer's unread bytes are \<open>bs\<close>) through every member; \<open>BufferQueue\<close>: the locale
    \<open>byte_queue\<close> of what the protocol asks of a buffer, interpreted on \<open>Buffer\<close>; \<open>BufferProps\<close>,
    \<open>BufferSim\<close>: properties, and the refinement of an abstract byte queue.
  \<^item> \<open>Md5\<close>: the class, generic in the width of \<open>ulong\<close>; \<open>Md5Spec\<close>: RFC 1321; \<open>Md5Laws\<close>,
    \<open>Md5Stream\<close>, \<open>Md5Eval\<close>, \<open>Md5Total\<close>: that the code computes it at 32 bits, and what it computes at
    64.
  \<^item> \<open>Wire\<close>: what the generated code calls of the protobuf runtime, with its documented wire format
    as the locale \<open>wire\<close>; \<open>WireFormat\<close>: the instance \<open>leb_runtime\<close> (base-128 varints), which
    discharges it. \<open>PbDef\<close>, \<open>PbLogin\<close>, \<open>PbMessage\<close>: the generated messages, their serializer,
    size, parser, \<open>Clear\<close>, \<open>MergeFrom\<close> and \<open>CopyFrom\<close>; what was serialised parses back by applying
    \<open>parse_steps\<close>, one lemma per kind of field. \<open>PbSafe\<close>: the parsers on arbitrary bytes. Under the
    locale \<open>reader\<close> (nothing is read backwards) their loops end; under \<open>text_runtime\<close>, through
    the locale \<open>field_check\<close> of a \<open>switch\<close> that keeps an invariant, what they accept has UTF-8 in
    its text fields.
  \<^item> \<open>EventLoop\<close>, \<open>TcpClient\<close>: the loop's timers, the connections and the registry, with reference
    counts; \<open>TcpLaws\<close>, \<open>TcpProps\<close>: the registry's invariant through every call and event.
  \<^item> \<open>CimDef\<close>, \<open>Client\<close>, \<open>ChatManager\<close>: the shared types and the two singletons, whose members
    extend the state of the network layer. \<open>Packet\<close>: what a packet is on the wire and one round of
    the receive loop; \<open>ClientLaws\<close>, \<open>ClientSafe\<close>: the client's invariant through every member,
    callback and run; \<open>ClientProps\<close>, \<open>ClientPackets\<close>, \<open>Delivery\<close>: its properties, from safety to
    a chat message carried from one client to another.
    \<open>ClientText\<close>: the callbacks are given UTF-8 text only, whatever the network delivers.
  \<^item> \<open>FileUtil\<close>: path parsing over cells, and directory creation over a file system that is a
    parameter; \<open>ConfigDao\<close>: the configuration table and \<open>SqliteHelper\<close>, over SQLite as a parameter
    with the law \<open>sql_ok\<close> (what SQL says of the seven statements the code uses), which the instance
    \<open>list_sql\<close> satisfies; \<open>CimHelper\<close>: initialisation, clean-up and the logger's construction and
    level; \<open>UserManager\<close>: its two requests, over an HTTP client and a JSON library as parameters.
  \<^item> \<open>StringUtil\<close>: the conversions between UTF-8 and wide strings, inverse to each other, which
    \<open>ChatManager\<close> makes the text of a message's time with; \<open>StackTrace\<close>: \<open>Exception\<close> and the stack
    trace, which is compiled only with \<open>OS_LINUX\<close>.
  \<^item> \<open>Dialogs\<close>: the slots of the three dialogs (\<open>gui/*.cpp\<close>) and \<open>main\<close>. The validator's regular
    expression is matched by derivatives and shown to mean \<open>email_form\<close>; the login dialog is a user of
    the client, and its property follows a login from the click to the answer. \<open>Account\<close>: an
    account registered over the dialog is the one a login asks for.

  State and parameters. Objects are entries of a map from ids, destroyed with their last reference;
  a callback is an id in the state and a function in a record, so that user callbacks may do what
  they like within \<open>user_ok\<close>. libuv, the sockets, the clock, \<open>localtime\<close> and the protobuf runtime are
  parameters; hypotheses on them state documented behaviour only (\<open>wire\<close>, \<open>reader\<close>; \<open>env_ok\<close>: a descriptor
  libuv hands out is not negative; \<open>fs_ok\<close>: \<open>mkdir\<close> makes a directory and removes none; \<open>sql_ok\<close>),
  and the witnesses instantiate them.

  Loops and bounds. The receive loop is a partial function whose termination is a theorem
  (\<open>recv_loop_ends\<close>). The parse loop of the messages has fuel, one more than the bytes to parse,
  which suffices because every field takes at least one byte: \<open>parsers_end\<close> shows that the same loop
  without fuel ends with the same answer. Buffer lemmas ask that the block may
  double without exceeding the largest object size (\<open>room\<close>).

  Not modelled: the empty slots of the main window and the QML program (it loads a file), the layout
  of the dialogs (\<open>.ui\<close> files), \<open>noncopyable\<close>, \<open>cim_dll.h\<close>, \<open>cim_conn_base.h\<close> (interfaces without
  code), the logging calls inside the other components (\<open>CimHelper\<close> has the logger and what a call
  does to it), the test programs, and the generated messages with repeated fields, which the SDK never builds or
  reads. Threads: members called by the user interface and events of the loop are interleaved as
  whole calls; message boxes return before the next event.
\<close>

section \<open>The messages on the wire\<close>

text \<open>
  C19. The messages the client exchanges with the server come back from the wire as they were
  sent, whatever the parsing object held before, and take exactly the bytes \<open>ByteSizeLong\<close> says,
  under every protobuf runtime that keeps the wire format.
\<close>

theorem messages_roundtrip:
  assumes "wire R" "CIMAuthReq_valid R q" "CIMAuthRsp_valid R r" "CIMLogoutReq_valid R l"
    and "CIMMsgData_valid R m"
  shows "CIMAuthReq_ParseFromArray R (CIMAuthReq_InternalSerialize R q) q0 = Some q \<and>
     CIMAuthRsp_ParseFromArray R (CIMAuthRsp_InternalSerialize R r) r0 = Some r \<and>
     CIMLogoutReq_ParseFromArray R (CIMLogoutReq_InternalSerialize R l) l0 = Some l \<and>
     CIMMsgData_ParseFromArray R (CIMMsgData_InternalSerialize R m) m0 = Some m \<and>
     length (CIMAuthReq_InternalSerialize R q) = CIMAuthReq_ByteSizeLong R q \<and>
     length (CIMAuthRsp_InternalSerialize R r) = CIMAuthRsp_ByteSizeLong R r \<and>
     length (CIMLogoutReq_InternalSerialize R l) = CIMLogoutReq_ByteSizeLong R l \<and>
     length (CIMMsgData_InternalSerialize R m) = CIMMsgData_ByteSizeLong R m"
  using wire.CIMAuthReq_roundtrip [OF assms(1,2)] wire.CIMAuthRsp_roundtrip [OF assms(1,3)]
    wire.CIMLogoutReq_roundtrip [OF assms(1,4)] wire.CIMMsgData_roundtrip [OF assms(1,5)]
    wire.CIMAuthReq_size [OF assms(1)] wire.CIMAuthRsp_size [OF assms(1)]
    wire.CIMLogoutReq_size [OF assms(1)] wire.CIMMsgData_size [OF assms(1)] by simp

theorem messages_roundtrip_witness:
  "CIMAuthRsp_ParseFromArray leb_runtime (CIMAuthRsp_InternalSerialize leb_runtime
       (CIMAuthRsp_new\<lparr>AuthRsp_result_code := 200, AuthRsp_result_string := ascii ''ok''\<rparr>)) CIMAuthRsp_new
     = Some (CIMAuthRsp_new\<lparr>AuthRsp_result_code := 200, AuthRsp_result_string := ascii ''ok''\<rparr>)"
  using messages_roundtrip [OF leb.wire_axioms, of CIMAuthReq_new
      "CIMAuthRsp_new\<lparr>AuthRsp_result_code := 200, AuthRsp_result_string := ascii ''ok''\<rparr>"
      CIMLogoutReq_new CIMMsgData_new]
  by (simp add: CIMAuthReq_valid_def CIMAuthReq_new_def CIMAuthRsp_valid_def CIMAuthRsp_new_def
      CIMLogoutReq_valid_def CIMLogoutReq_new_def CIMMsgData_valid_def CIMMsgData_new_def
      leb_runtime_def ascii_def)

text \<open>
  A message from the server's history keeps its contents on the way into the \<open>MessageModel\<close> the
  program works with: parsed from the wire it has every field that was sent, except
  \<open>to_session_id\<close>, which is the result code.
\<close>

theorem history_message:
  assumes "wire R" "CIMMsgInfo_valid R info"
  shows "\<exists>m. map_option MessageModel_of
       (CIMMsgInfo_ParseFromArray R (CIMMsgInfo_InternalSerialize R info) info0) = Some m \<and>
     mm_client_msg_id m = MsgInfo_client_msg_id info \<and> mm_server_msg_id m = MsgInfo_server_msg_id info \<and>
     mm_msg_data m = MsgInfo_msg_data info \<and> mm_attach m = MsgInfo_attach info \<and>
     mm_from_user_id m = MsgInfo_from_user_id info \<and> mm_create_time m = MsgInfo_create_time info \<and>
     mm_to_session_id m = scast (MsgInfo_msg_res_code info)"
  using wire.CIMMsgInfo_roundtrip [OF assms, of info0] by (simp add: MessageModel_of_def)

theorem history_message_witness:
  "\<exists>m. map_option MessageModel_of (CIMMsgInfo_ParseFromArray leb_runtime
       (CIMMsgInfo_InternalSerialize leb_runtime
          (CIMMsgInfo_new\<lparr>MsgInfo_msg_data := [7], MsgInfo_to_session_id := 12\<rparr>)) CIMMsgInfo_new) = Some m \<and>
     mm_msg_data m = [7] \<and> mm_to_session_id m = 0"
  using history_message [OF leb.wire_axioms,
      of "CIMMsgInfo_new\<lparr>MsgInfo_msg_data := [7], MsgInfo_to_session_id := 12\<rparr>" CIMMsgInfo_new]
  by (simp add: CIMMsgInfo_valid_def CIMMsgInfo_new_def leb_runtime_def) blast

end
